(* ===== verification/Prelude.thy ===== *)
theory Prelude
  imports Main
begin

text \<open>
  Shared ground of the development: computations that thread a state and may end in an
  error (the shape of every Go method here that returns a value and an error), and the
  collections of hints the component theories use.
\<close>

named_theorems errs_intro \<open>every error of this computation satisfies the predicate\<close>
named_theorems keeps_intro \<open>this computation keeps the state predicate\<close>
named_theorems rets_intro \<open>every value this computation returns satisfies the predicate\<close>

section \<open>Computations with a state and an error\<close>

type_synonym ('s, 'e, 'a) sem = "'s \<Rightarrow> ('e + 'a) \<times> 's"

definition retE :: "'a \<Rightarrow> ('s, 'e, 'a) sem" where
  "retE a = (\<lambda>s. (Inr a, s))"

definition failE :: "'e \<Rightarrow> ('s, 'e, 'a) sem" where
  "failE e = (\<lambda>s. (Inl e, s))"

definition bindE :: "('s, 'e, 'a) sem \<Rightarrow> ('a \<Rightarrow> ('s, 'e, 'b) sem) \<Rightarrow> ('s, 'e, 'b) sem" where
  "bindE m f = (\<lambda>s. case m s of (Inl e, s') \<Rightarrow> (Inl e, s') | (Inr a, s') \<Rightarrow> f a s')"

lemma retE_apply [simp]: "retE a s = (Inr a, s)"
  by (simp add: retE_def)

lemma failE_apply [simp]: "failE e s = (Inl e, s)"
  by (simp add: failE_def)

lemma bindE_retE [simp]: "bindE (retE a) f = f a"
  by (simp add: bindE_def)

lemma bindE_failE [simp]: "bindE (failE e) f = failE e"
  by (simp add: bindE_def failE_def)

lemma bindE_Inl: "m s = (Inl e, s') \<Longrightarrow> bindE m f s = (Inl e, s')"
  by (simp add: bindE_def)

lemma bindE_Inr: "m s = (Inr a, s') \<Longrightarrow> bindE m f s = f a s'"
  by (simp add: bindE_def)

lemma bindE_assoc: "bindE (bindE m f) g = bindE m (\<lambda>a. bindE (f a) g)"
  by (auto simp: bindE_def fun_eq_iff split: prod.splits sum.splits)

lemma bindE_cases:
  assumes "bindE m f s = (r, s')"
  obtains e where "m s = (Inl e, s')" and "r = Inl e"
  | a t where "m s = (Inr a, t)" and "f a t = (r, s')"
  using assms by (auto simp: bindE_def split: prod.splits sum.splits)

subsection \<open>Errors, values and states of a computation\<close>

definition errs_in :: "('e \<Rightarrow> bool) \<Rightarrow> ('s, 'e, 'a) sem \<Rightarrow> bool" where
  "errs_in C m \<longleftrightarrow> (\<forall>s e s'. m s = (Inl e, s') \<longrightarrow> C e)"

definition rets_in :: "('a \<Rightarrow> bool) \<Rightarrow> ('s, 'e, 'a) sem \<Rightarrow> bool" where
  "rets_in Q m \<longleftrightarrow> (\<forall>s a s'. m s = (Inr a, s') \<longrightarrow> Q a)"

definition keeps :: "('s \<Rightarrow> bool) \<Rightarrow> ('s, 'e, 'a) sem \<Rightarrow> bool" where
  "keeps I m \<longleftrightarrow> (\<forall>s. I s \<longrightarrow> I (snd (m s)))"

lemma errs_inD: "errs_in C m \<Longrightarrow> m s = (Inl e, s') \<Longrightarrow> C e"
  by (auto simp: errs_in_def)

lemma rets_inD: "rets_in Q m \<Longrightarrow> m s = (Inr a, s') \<Longrightarrow> Q a"
  by (auto simp: rets_in_def)

lemma keepsD: "keeps I m \<Longrightarrow> I s \<Longrightarrow> m s = (r, s') \<Longrightarrow> I s'"
  by (auto simp: keeps_def dest!: spec [of _ s])

lemma errs_in_retE [errs_intro]: "errs_in C (retE a)"
  by (simp add: errs_in_def)

lemma errs_in_failE [errs_intro]: "C e \<Longrightarrow> errs_in C (failE e)"
  by (simp add: errs_in_def)

lemma errs_in_bindE [errs_intro]:
  "errs_in C m \<Longrightarrow> (\<And>a. errs_in C (f a)) \<Longrightarrow> errs_in C (bindE m f)"
  unfolding errs_in_def by (blast elim: bindE_cases)

lemma errs_in_if [errs_intro]:
  "(b \<Longrightarrow> errs_in C m) \<Longrightarrow> (\<not> b \<Longrightarrow> errs_in C n) \<Longrightarrow> errs_in C (if b then m else n)"
  by simp

lemma errs_in_option [errs_intro]:
  "(x = None \<Longrightarrow> errs_in C m) \<Longrightarrow> (\<And>y. x = Some y \<Longrightarrow> errs_in C (f y)) \<Longrightarrow>
    errs_in C (case x of None \<Rightarrow> m | Some y \<Rightarrow> f y)"
  by (cases x) auto

lemma errs_in_sum [errs_intro]:
  "(\<And>y. x = Inl y \<Longrightarrow> errs_in C (f y)) \<Longrightarrow> (\<And>y. x = Inr y \<Longrightarrow> errs_in C (g y)) \<Longrightarrow>
    errs_in C (case x of Inl y \<Rightarrow> f y | Inr y \<Rightarrow> g y)"
  by (cases x) auto

lemma errs_in_prod [errs_intro]:
  "(\<And>y z. x = (y, z) \<Longrightarrow> errs_in C (f y z)) \<Longrightarrow> errs_in C (case x of (y, z) \<Rightarrow> f y z)"
  by (cases x) auto

lemma errs_in_list [errs_intro]:
  "(xs = [] \<Longrightarrow> errs_in C m) \<Longrightarrow> (\<And>y ys. xs = y # ys \<Longrightarrow> errs_in C (f y ys)) \<Longrightarrow>
    errs_in C (case xs of [] \<Rightarrow> m | y # ys \<Rightarrow> f y ys)"
  by (cases xs) auto

lemma errs_in_Let [errs_intro]: "errs_in C (f x) \<Longrightarrow> errs_in C (let y = x in f y)"
  by simp

lemma keeps_Let [keeps_intro]: "keeps C (f x) \<Longrightarrow> keeps C (let y = x in f y)"
  by simp

lemma keeps_sum [keeps_intro]:
  "(\<And>y. x = Inl y \<Longrightarrow> keeps C (f y)) \<Longrightarrow> (\<And>y. x = Inr y \<Longrightarrow> keeps C (g y)) \<Longrightarrow>
    keeps C (case x of Inl y \<Rightarrow> f y | Inr y \<Rightarrow> g y)"
  by (cases x) auto

lemma keeps_retE [keeps_intro]: "keeps I (retE a)"
  by (simp add: keeps_def)

lemma keeps_failE [keeps_intro]: "keeps I (failE e)"
  by (simp add: keeps_def)

lemma keeps_bindE [keeps_intro]:
  "keeps I m \<Longrightarrow> (\<And>a. keeps I (f a)) \<Longrightarrow> keeps I (bindE m f)"
  by (fastforce simp: keeps_def bindE_def split: prod.splits sum.splits)

lemma keeps_if [keeps_intro]:
  "(b \<Longrightarrow> keeps C m) \<Longrightarrow> (\<not> b \<Longrightarrow> keeps C n) \<Longrightarrow> keeps C (if b then m else n)"
  by simp

lemma keeps_option [keeps_intro]:
  "(x = None \<Longrightarrow> keeps C m) \<Longrightarrow> (\<And>y. x = Some y \<Longrightarrow> keeps C (f y)) \<Longrightarrow>
    keeps C (case x of None \<Rightarrow> m | Some y \<Rightarrow> f y)"
  by (cases x) auto

lemma keeps_prod [keeps_intro]:
  "(\<And>y z. x = (y, z) \<Longrightarrow> keeps C (f y z)) \<Longrightarrow> keeps C (case x of (y, z) \<Rightarrow> f y z)"
  by (cases x) auto

lemma rets_in_retE [rets_intro]: "Q a \<Longrightarrow> rets_in Q (retE a)"
  by (simp add: rets_in_def)

lemma rets_in_failE [rets_intro]: "rets_in Q (failE e)"
  by (simp add: rets_in_def)

lemma rets_in_bindE [rets_intro]:
  "rets_in P m \<Longrightarrow> (\<And>a. P a \<Longrightarrow> rets_in Q (f a)) \<Longrightarrow> rets_in Q (bindE m f)"
  unfolding rets_in_def by (blast elim: bindE_cases)

lemma rets_in_if [rets_intro]:
  "(b \<Longrightarrow> rets_in C m) \<Longrightarrow> (\<not> b \<Longrightarrow> rets_in C n) \<Longrightarrow> rets_in C (if b then m else n)"
  by simp

lemma rets_in_True [simp]: "rets_in (\<lambda>_. True) m"
  by (simp add: rets_in_def)

end
