(* ===== verification/Goroutine.thy ===== *)
theory Goroutine
  imports Prelude
begin

text \<open>
  Goroutines.  A program is what is left of a goroutine's run: a result, or one atomic action on
  the state it shares with the others and, for each state it may find there, the rest.  Between two
  actions the others may do what they like.  \<open>exec\<close> runs a program with nobody in between, which
  gives the computations of the prelude.
\<close>

section \<open>Programs\<close>

datatype ('s, 'a) prog =
    Ret 'a
  | Act "'s \<Rightarrow> 's" "'s \<Rightarrow> ('s, 'a) prog"

type_synonym ('s, 'e, 'a) proc = "('s, 'e + 'a) prog"

definition retP :: "'a \<Rightarrow> ('s, 'e, 'a) proc" where
  "retP a = Ret (Inr a)"

definition failP :: "'e \<Rightarrow> ('s, 'e, 'a) proc" where
  "failP e = Ret (Inl e)"

primrec bindP :: "('s, 'e, 'a) proc \<Rightarrow> ('a \<Rightarrow> ('s, 'e, 'b) proc) \<Rightarrow> ('s, 'e, 'b) proc" where
  "bindP (Ret r) f = (case r of Inl e \<Rightarrow> Ret (Inl e) | Inr a \<Rightarrow> f a)"
| "bindP (Act u k) f = Act u (\<lambda>s. bindP (k s) f)"

primrec mapP :: "('a \<Rightarrow> 'b) \<Rightarrow> ('s, 'a) prog \<Rightarrow> ('s, 'b) prog" where
  "mapP g (Ret r) = Ret (g r)"
| "mapP g (Act u k) = Act u (\<lambda>s. mapP g (k s))"

text \<open>A computation done in one action, as under a lock; and a look at the state.\<close>

definition atomP :: "('s, 'e, 'a) sem \<Rightarrow> ('s, 'e, 'a) proc" where
  "atomP m = Act (\<lambda>s. snd (m s)) (\<lambda>s. Ret (fst (m s)))"

definition readP :: "('s \<Rightarrow> ('s, 'a) prog) \<Rightarrow> ('s, 'a) prog" where
  "readP f = Act (\<lambda>s. s) f"

text \<open>The run nobody interrupts.\<close>

primrec exec :: "('s, 'a) prog \<Rightarrow> 's \<Rightarrow> 'a \<times> 's" where
  "exec (Ret r) s = (r, s)"
| "exec (Act u k) s = exec (k s) (u s)"

lemma bindP_simps [simp]: "bindP (retP a) f = f a" "bindP (failP e) f = failP e"
  by (simp_all add: retP_def failP_def)

lemma bindP_assoc: "bindP (bindP m f) g = bindP m (\<lambda>a. bindP (f a) g)"
  by (induction m) (auto simp: failP_def split: sum.split)

lemma mapP_bindP: "mapP (map_sum g id) (bindP m f) = bindP (mapP (map_sum g id) m) (\<lambda>a. mapP (map_sum g id) (f a))"
  by (induction m) (auto split: sum.split)

subsection \<open>A program run alone\<close>

named_theorems exec_simps \<open>what a program does when it is run alone\<close>

lemma exec_retP [exec_simps]: "exec (retP a) = retE a"
  by (simp add: retP_def retE_def fun_eq_iff)

lemma exec_failP [exec_simps]: "exec (failP e) = failE e"
  by (simp add: failP_def failE_def fun_eq_iff)

lemma exec_bindP [exec_simps]: "exec (bindP m f) = bindE (exec m) (\<lambda>a. exec (f a))"
proof
  fix s
  show "exec (bindP m f) s = bindE (exec m) (\<lambda>a. exec (f a)) s"
    by (induction m arbitrary: s) (auto simp: bindE_def split: sum.split)
qed

lemma exec_atomP [exec_simps]: "exec (atomP m) = m"
  by (simp add: atomP_def fun_eq_iff)

lemma exec_readP: "exec (readP f) s = exec (f s) s"
  by (simp add: readP_def)

lemma exec_mapP: "exec (mapP g p) s = (case exec p s of (r, s') \<Rightarrow> (g r, s'))"
  by (induction p arbitrary: s) auto

lemma exec_branches [exec_simps]:
  "exec (if b then p else q) = (if b then exec p else exec q)"
  "exec (case x of None \<Rightarrow> p | Some y \<Rightarrow> f y) = (case x of None \<Rightarrow> exec p | Some y \<Rightarrow> exec (f y))"
  "exec (case w of (y, z) \<Rightarrow> h y z) = (case w of (y, z) \<Rightarrow> exec (h y z))"
  "exec (case xs of [] \<Rightarrow> p | y # ys \<Rightarrow> g y ys) = (case xs of [] \<Rightarrow> exec p | y # ys \<Rightarrow> exec (g y ys))"
  "exec (let y = v in l y) = (let y = v in exec (l y))"
  by (auto split: option.split prod.split list.split)

section \<open>What holds however the others move\<close>

text \<open>
  Every action keeps \<open>I\<close>, and every result satisfies \<open>Q\<close>, as long as what the others do in between
  keeps \<open>I\<close> too.
\<close>

named_theorems good_intro \<open>rules for programs that keep an invariant\<close>

primrec good :: "('s \<Rightarrow> bool) \<Rightarrow> ('a \<Rightarrow> bool) \<Rightarrow> ('s, 'a) prog \<Rightarrow> bool" where
  "good I Q (Ret r) = Q r"
| "good I Q (Act u k) = (\<forall>s. I s \<longrightarrow> I (u s) \<and> good I Q (k s))"

text \<open>The errors of a result are in \<open>C\<close>, its values in \<open>Q\<close>.\<close>

definition ends_in :: "('e \<Rightarrow> bool) \<Rightarrow> ('a \<Rightarrow> bool) \<Rightarrow> 'e + 'a \<Rightarrow> bool" where
  "ends_in C Q r = (case r of Inl e \<Rightarrow> C e | Inr a \<Rightarrow> Q a)"

lemma ends_in_simps [simp]: "ends_in C Q (Inl e) = C e" "ends_in C Q (Inr a) = Q a"
  by (simp_all add: ends_in_def)

abbreviation any :: "'a \<Rightarrow> bool" where
  "any \<equiv> \<lambda>_. True"

lemma good_mono:
  "good I Q p \<Longrightarrow> (\<And>r. Q r \<Longrightarrow> Q' r) \<Longrightarrow> good I Q' p"
  by (induction p) auto

lemma good_exec: "good I Q p \<Longrightarrow> I s \<Longrightarrow> exec p s = (r, s') \<Longrightarrow> Q r \<and> I s'"
  by (induction p arbitrary: s) auto

lemma good_Ret [good_intro]: "Q r \<Longrightarrow> good I Q (Ret r)"
  by simp

lemma good_retP [good_intro]: "Q a \<Longrightarrow> good I (ends_in C Q) (retP a)"
  by (simp add: retP_def)

lemma good_failP [good_intro]: "C e \<Longrightarrow> good I (ends_in C Q) (failP e)"
  by (simp add: failP_def)

lemma good_bind:
  "good I (ends_in C P) m \<Longrightarrow> (\<And>a. P a \<Longrightarrow> good I (ends_in C Q) (f a)) \<Longrightarrow> good I (ends_in C Q) (bindP m f)"
  by (induction m) (auto split: sum.split)

lemma good_bindP [good_intro]:
  "good I (ends_in C any) m \<Longrightarrow> (\<And>a. good I (ends_in C Q) (f a)) \<Longrightarrow> good I (ends_in C Q) (bindP m f)"
  by (rule good_bind)

lemma good_mapP: "good I (\<lambda>r. Q (g r)) p \<Longrightarrow> good I Q (mapP g p)"
  by (induction p) auto

lemma good_atomP:
  "(\<And>s. I s \<Longrightarrow> I (snd (m s)) \<and> Q (fst (m s))) \<Longrightarrow> good I Q (atomP m)"
  by (simp add: atomP_def)

lemma good_atom [good_intro]: "keeps I m \<Longrightarrow> errs_in C m \<Longrightarrow> good I (ends_in C any) (atomP m)"
  unfolding keeps_def errs_in_def
  by (intro good_atomP conjI) (auto simp: ends_in_def split: sum.split, metis prod.collapse)

lemma good_readP: "(\<And>s. I s \<Longrightarrow> good I Q (f s)) \<Longrightarrow> good I Q (readP f)"
  by (simp add: readP_def)

lemma good_if [good_intro]: "(b \<Longrightarrow> good I Q p) \<Longrightarrow> (\<not> b \<Longrightarrow> good I Q q) \<Longrightarrow> good I Q (if b then p else q)"
  by simp

lemma good_option [good_intro]:
  "(x = None \<Longrightarrow> good I Q p) \<Longrightarrow> (\<And>y. x = Some y \<Longrightarrow> good I Q (f y)) \<Longrightarrow>
    good I Q (case x of None \<Rightarrow> p | Some y \<Rightarrow> f y)"
  by (cases x) auto

lemma good_prod [good_intro]: "(\<And>y z. x = (y, z) \<Longrightarrow> good I Q (f y z)) \<Longrightarrow> good I Q (case x of (y, z) \<Rightarrow> f y z)"
  by (cases x) auto

lemma good_list [good_intro]:
  "(xs = [] \<Longrightarrow> good I Q p) \<Longrightarrow> (\<And>y ys. xs = y # ys \<Longrightarrow> good I Q (f y ys)) \<Longrightarrow>
    good I Q (case xs of [] \<Rightarrow> p | y # ys \<Rightarrow> f y ys)"
  by (cases xs) auto

lemma good_Let [good_intro]: "(\<And>y. y = x \<Longrightarrow> good I Q (f y)) \<Longrightarrow> good I Q (let y = x in f y)"
  by simp

section \<open>How many actions\<close>

named_theorems within_intro \<open>rules for the number of actions of a program\<close>

primrec within :: "('s, 'a) prog \<Rightarrow> nat \<Rightarrow> bool" where
  "within (Ret r) n = True"
| "within (Act u k) n = (0 < n \<and> (\<forall>s. within (k s) (n - 1)))"

lemma within_mono: "within p m \<Longrightarrow> m \<le> n \<Longrightarrow> within p n"
proof (induction p arbitrary: m n)
  case (Act u k)
  have "within (k s) (n - 1)" for s
    using Act.IH [OF rangeI, of s "m - 1" "n - 1"] Act.prems by (simp add: diff_le_mono)
  with Act.prems show ?case by simp
qed simp

lemma within_bindP: "within m i \<Longrightarrow> (\<And>a. within (f a) j) \<Longrightarrow> within (bindP m f) (i + j)"
proof (induction m arbitrary: i)
  case (Ret r)
  have "within (f a) (i + j)" for a
    using Ret.prems(2) by (rule within_mono) simp
  then show ?case by (simp split: sum.split)
next
  case (Act u k)
  have "within (bindP (k s) f) (i - 1 + j)" for s
    using Act.prems by (intro Act.IH [OF rangeI]) simp_all
  moreover have "i - 1 + j = i + j - 1" using Act.prems(1) by simp
  ultimately show ?case using Act.prems(1) by simp
qed

lemma within_mapP: "within p n \<Longrightarrow> within (mapP g p) n"
  by (induction p arbitrary: n) auto

lemma within_ends [within_intro]: "within (retP a) n" "within (failP e) n"
  by (simp_all add: retP_def failP_def)

lemma within_atomP: "within (atomP m) 1"
  by (simp add: atomP_def)

lemma within_readP: "(\<And>s. within (f s) n) \<Longrightarrow> within (readP f) (Suc n)"
  by (simp add: readP_def)

lemma within_if [within_intro]: "(b \<Longrightarrow> within p n) \<Longrightarrow> (\<not> b \<Longrightarrow> within q n) \<Longrightarrow> within (if b then p else q) n"
  by simp

lemma within_option [within_intro]:
  "(x = None \<Longrightarrow> within p n) \<Longrightarrow> (\<And>y. within (f y) n) \<Longrightarrow>
    within (case x of None \<Rightarrow> p | Some y \<Rightarrow> f y) n"
  by (cases x) auto

lemma within_prod [within_intro]: "(\<And>y z. within (f y z) n) \<Longrightarrow> within (case x of (y, z) \<Rightarrow> f y z) n"
  by (cases x) auto

lemma within_list [within_intro]:
  "within p n \<Longrightarrow> (\<And>y ys. within (f y ys) n) \<Longrightarrow> within (case xs of [] \<Rightarrow> p | y # ys \<Rightarrow> f y ys) n"
  by (cases xs) auto

lemma within_Let [within_intro]: "(\<And>y. within (f y) n) \<Longrightarrow> within (let y = x in f y) n"
  by simp

section \<open>Two programs side by side\<close>

text \<open>
  Action by action, from states that \<open>R\<close> relates to states that \<open>R\<close> relates, to the same result.
\<close>

named_theorems twin_intro \<open>rules that relate two programs\<close>

primrec twin :: "('s \<Rightarrow> 's \<Rightarrow> bool) \<Rightarrow> ('s, 'a) prog \<Rightarrow> ('s, 'a) prog \<Rightarrow> bool" where
  "twin R (Ret r) q = (q = Ret r)"
| "twin R (Act u k) q =
     (\<exists>u' k'. q = Act u' k' \<and> (\<forall>s s'. R s s' \<longrightarrow> R (u s) (u' s') \<and> twin R (k s) (k' s')))"

lemma twin_Act:
  "(\<And>s s'. R s s' \<Longrightarrow> R (u s) (u' s') \<and> twin R (k s) (k' s')) \<Longrightarrow> twin R (Act u k) (Act u' k')"
  by simp

lemma twin_ends [twin_intro]: "twin R (retP a) (retP a)" "twin R (failP e) (failP e)"
  by (simp_all add: retP_def failP_def)

lemma twin_Ret: "twin R (Ret r) (Ret r)"
  by simp

lemma twin_bindP [twin_intro]:
  "twin R m m' \<Longrightarrow> (\<And>a. twin R (f a) (f' a)) \<Longrightarrow> twin R (bindP m f) (bindP m' f')"
  by (induction m arbitrary: m') (auto split: sum.split)

lemma twin_mapP: "twin R p q \<Longrightarrow> twin R (mapP g p) (mapP g q)"
  by (induction p arbitrary: q) auto

lemma twin_atomP:
  "(\<And>s s'. R s s' \<Longrightarrow> fst (m s) = fst (m' s') \<and> R (snd (m s)) (snd (m' s'))) \<Longrightarrow>
    twin R (atomP m) (atomP m')"
  by (simp add: atomP_def)

lemma twin_readP: "(\<And>s s'. R s s' \<Longrightarrow> twin R (f s) (f' s')) \<Longrightarrow> twin R (readP f) (readP f')"
  by (simp add: readP_def)

lemma twin_if [twin_intro]:
  "(b \<Longrightarrow> twin R p p') \<Longrightarrow> (\<not> b \<Longrightarrow> twin R q q') \<Longrightarrow> twin R (if b then p else q) (if b then p' else q')"
  by simp

lemma twin_option [twin_intro]:
  "twin R p p' \<Longrightarrow> (\<And>y. twin R (f y) (f' y)) \<Longrightarrow>
    twin R (case x of None \<Rightarrow> p | Some y \<Rightarrow> f y) (case x of None \<Rightarrow> p' | Some y \<Rightarrow> f' y)"
  by (cases x) auto

lemma twin_prod [twin_intro]:
  "(\<And>y z. twin R (f y z) (f' y z)) \<Longrightarrow> twin R (case x of (y, z) \<Rightarrow> f y z) (case x of (y, z) \<Rightarrow> f' y z)"
  by (cases x) auto

lemma twin_list [twin_intro]:
  "twin R p p' \<Longrightarrow> (\<And>y ys. twin R (f y ys) (f' y ys)) \<Longrightarrow>
    twin R (case xs of [] \<Rightarrow> p | y # ys \<Rightarrow> f y ys) (case xs of [] \<Rightarrow> p' | y # ys \<Rightarrow> f' y ys)"
  by (cases xs) auto

lemma twin_Let [twin_intro]: "(\<And>y. twin R (f y) (f' y)) \<Longrightarrow> twin R (let y = x in f y) (let y = x in f' y)"
  by simp

end
