(* ===== verification/Go_Strconv.thy ===== *)
theory Go_Strconv
  imports Go_Strings
begin

text \<open>
  Go's \<open>strconv\<close> on 64-bit integers and the percent escaping of \<open>net/url\<close>.  An \<open>int\<close>
  of the Go source is 64 bits wide on every platform the sidecar is built for, so
  \<open>strconv.Atoi\<close> and \<open>strconv.ParseInt(s, 10, 64)\<close> have one model, \<open>parse_int64\<close>.
\<close>

section \<open>Decimal integers\<close>

definition max_int64 :: int where "max_int64 = 9223372036854775807"
definition min_int64 :: int where "min_int64 = - 9223372036854775808"
definition max_uint64 :: int where "max_uint64 = 18446744073709551615"

definition in_int64 :: "int \<Rightarrow> bool" where
  "in_int64 i \<longleftrightarrow> min_int64 \<le> i \<and> i \<le> max_int64"

text \<open>The value an \<open>int64\<close> subtraction or conversion leaves: the result modulo two to the 64.\<close>

definition wrap_int64 :: "int \<Rightarrow> int" where
  "wrap_int64 i = (i + 9223372036854775808) mod 18446744073709551616 - 9223372036854775808"

lemma wrap_int64_id: "in_int64 i \<Longrightarrow> wrap_int64 i = i"
  by (simp add: in_int64_def wrap_int64_def min_int64_def max_int64_def)

lemma in_int64_wrap: "in_int64 (wrap_int64 i)"
proof -
  have "0 \<le> (i + 9223372036854775808) mod 18446744073709551616"
    and "(i + 9223372036854775808) mod 18446744073709551616 < 18446744073709551616"
    by simp_all
  then show ?thesis
    by (simp add: in_int64_def wrap_int64_def min_int64_def max_int64_def)
qed

text \<open>The outcome of a parse: the value, or a value with Go's range or syntax error.\<close>

datatype num_parse = NumOk int | NumRange int | NumSyntax

definition digit_val :: "char \<Rightarrow> int option" where
  "digit_val c =
     (let n = (of_char c :: int) in if 48 \<le> n \<and> n \<le> 57 then Some (n - 48) else None)"

text \<open>
  \<open>strconv.ParseUint\<close>: the digits are read from the left and the range error is reported at
  the digit that overflows, before anything behind it is looked at.
\<close>

fun parse_uint :: "int \<Rightarrow> string \<Rightarrow> num_parse" where
  "parse_uint n [] = NumOk n"
| "parse_uint n (c # cs) =
     (case digit_val c of
        None \<Rightarrow> NumSyntax
      | Some d \<Rightarrow>
          if 10 * n + d > max_uint64 then NumRange max_uint64 else parse_uint (10 * n + d) cs)"

definition clamp_int64 :: "bool \<Rightarrow> int \<Rightarrow> bool \<Rightarrow> num_parse" where
  "clamp_int64 neg un over =
     (if \<not> neg \<and> un > max_int64 then NumRange max_int64
      else if neg \<and> un > - min_int64 then NumRange min_int64
      else if over then NumRange (if neg then - un else un)
      else NumOk (if neg then - un else un))"

definition parse_magnitude :: "bool \<Rightarrow> string \<Rightarrow> num_parse" where
  "parse_magnitude neg s =
     (if s = [] then NumSyntax
      else case parse_uint 0 s of
             NumSyntax \<Rightarrow> NumSyntax
           | NumRange un \<Rightarrow> clamp_int64 neg un True
           | NumOk un \<Rightarrow> clamp_int64 neg un False)"

fun parse_int64 :: "string \<Rightarrow> num_parse" where
  "parse_int64 [] = NumSyntax"
| "parse_int64 (c # cs) =
     (if c = CHR ''+'' then parse_magnitude False cs
      else if c = CHR ''-'' then parse_magnitude True cs
      else parse_magnitude False (c # cs))"

text \<open>\<open>strconv.Itoa\<close>.\<close>

definition digit_char :: "nat \<Rightarrow> char" where
  "digit_char n = ''0123456789'' ! n"

fun nat_str :: "nat \<Rightarrow> string" where
  "nat_str n = (if n < 10 then [digit_char n] else nat_str (n div 10) @ [digit_char (n mod 10)])"

declare nat_str.simps [simp del]

definition itoa :: "int \<Rightarrow> string" where
  "itoa i = (if i < 0 then CHR ''-'' # nat_str (nat (- i)) else nat_str (nat i))"

lemma digit_val_digit_char: "n < 10 \<Longrightarrow> digit_val (digit_char n) = Some (int n)"
proof -
  assume "n < 10"
  then have "n \<in> {0, 1, 2, 3, 4, 5, 6, 7, 8, 9}" by auto
  then show ?thesis by (auto simp: digit_val_def digit_char_def)
qed

lemma nat_str_not_Nil [simp]: "nat_str n \<noteq> []"
  by (subst nat_str.simps) simp

lemma digit_char_not_sign: "n < 10 \<Longrightarrow> digit_char n \<noteq> CHR ''-'' \<and> digit_char n \<noteq> CHR ''+''"
proof -
  assume "n < 10"
  then have "n \<in> {0, 1, 2, 3, 4, 5, 6, 7, 8, 9}" by auto
  then show ?thesis by (auto simp: digit_char_def)
qed

lemma nat_str_no_sign: "c \<in> set (nat_str n) \<Longrightarrow> c \<noteq> CHR ''-'' \<and> c \<noteq> CHR ''+''"
proof (induction n rule: nat_str.induct)
  case (1 n)
  then show ?case
    by (subst (asm) nat_str.simps) (auto simp: digit_char_not_sign split: if_splits)
qed

lemma nat_str_digits: "c \<in> set (nat_str n) \<Longrightarrow> digit_val c \<noteq> None"
proof (induction n rule: nat_str.induct)
  case (1 n)
  then show ?case
    by (subst (asm) nat_str.simps) (auto simp: digit_val_digit_char split: if_splits)
qed

lemma digit_char_inj: "m < 10 \<Longrightarrow> n < 10 \<Longrightarrow> digit_char m = digit_char n \<Longrightarrow> m = n"
proof -
  assume "m < 10" "n < 10" "digit_char m = digit_char n"
  then have "Some (int m) = Some (int n)" by (metis digit_val_digit_char)
  then show ?thesis by simp
qed

lemma nat_str_inj: "nat_str m = nat_str n \<Longrightarrow> m = n"
proof (induction m arbitrary: n rule: nat_str.induct)
  case (1 m)
  note eq = 1(2) [unfolded nat_str.simps [of m] nat_str.simps [of n]]
  show ?case
  proof (cases "m < 10 \<or> n < 10")
    case True
    with eq show ?thesis
      by (cases "m < 10"; cases "n < 10") (auto intro: digit_char_inj dest: arg_cong [of _ _ length])
  next
    case False
    with eq have d: "nat_str (m div 10) = nat_str (n div 10)" "digit_char (m mod 10) = digit_char (n mod 10)"
      by simp_all
    have "m div 10 = n div 10" using 1(1) [OF _ d(1)] False by simp
    moreover have "m mod 10 = n mod 10" using digit_char_inj [OF _ _ d(2)] by simp
    ultimately show ?thesis by (metis div_mult_mod_eq)
  qed
qed

lemma itoa_inj: "0 \<le> i \<Longrightarrow> 0 \<le> j \<Longrightarrow> itoa i = itoa j \<longleftrightarrow> i = j"
  by (auto simp: itoa_def dest!: nat_str_inj)

lemma parse_uint_append:
  "parse_uint n (xs @ [c]) =
     (case parse_uint n xs of NumOk m \<Rightarrow> parse_uint m [c] | r \<Rightarrow> r)"
  by (induction n xs rule: parse_uint.induct) (auto split: option.splits)

lemma parse_uint_nat_str: "int n \<le> max_uint64 \<Longrightarrow> parse_uint 0 (nat_str n) = NumOk (int n)"
proof (induction n rule: nat_str.induct)
  case (1 n)
  show ?case
  proof (cases "n < 10")
    case True
    then show ?thesis
      by (subst nat_str.simps) (simp add: digit_val_digit_char max_uint64_def)
  next
    case False
    have le: "int (n div 10) \<le> max_uint64" using "1.prems" by linarith
    have eq: "10 * int (n div 10) + int (n mod 10) = int n" by presburger
    show ?thesis
      using False "1.IH" [OF False le] "1.prems" eq
      by (subst nat_str.simps)
        (simp add: parse_uint_append digit_val_digit_char del: of_nat_div of_nat_mod)
  qed
qed

lemma parse_uint_nat_str_over:
  "max_uint64 < int n \<Longrightarrow> parse_uint 0 (nat_str n) = NumRange max_uint64"
proof (induction n rule: nat_str.induct)
  case (1 n)
  then have big: "\<not> n < 10" by (simp add: max_uint64_def)
  have eq: "10 * int (n div 10) + int (n mod 10) = int n" by presburger
  show ?case
  proof (cases "max_uint64 < int (n div 10)")
    case True
    with big "1.IH" show ?thesis by (subst nat_str.simps) (simp add: parse_uint_append)
  next
    case False
    then have "int (n div 10) \<le> max_uint64" by simp
    from parse_uint_nat_str [OF this] big "1.prems" eq show ?thesis
      by (subst nat_str.simps)
        (simp add: parse_uint_append digit_val_digit_char del: of_nat_div of_nat_mod)
  qed
qed

lemma parse_int64_itoa: "in_int64 i \<Longrightarrow> parse_int64 (itoa i) = NumOk i"
proof (cases "i < 0")
  case True
  moreover assume "in_int64 i"
  ultimately show ?thesis
    by (simp add: itoa_def in_int64_def parse_magnitude_def parse_uint_nat_str clamp_int64_def
        min_int64_def max_int64_def max_uint64_def)
next
  case False
  assume i: "in_int64 i"
  obtain c cs where s: "nat_str (nat i) = c # cs" by (cases "nat_str (nat i)") auto
  have "c \<noteq> CHR ''-'' \<and> c \<noteq> CHR ''+''" by (rule nat_str_no_sign [of _ "nat i"]) (simp add: s)
  moreover have "parse_uint 0 (c # cs) = NumOk i"
    using False i parse_uint_nat_str [of "nat i"]
    by (simp add: s in_int64_def max_int64_def max_uint64_def)
  ultimately show ?thesis
    using False i
    by (simp add: itoa_def s parse_magnitude_def clamp_int64_def in_int64_def
        del: parse_uint.simps)
qed

lemma parse_uint_bound:
  "0 \<le> n \<Longrightarrow> parse_uint n s = NumOk m \<Longrightarrow> 0 \<le> m"
proof (induction n s rule: parse_uint.induct)
  case (2 n c cs)
  then show ?case
    by (auto simp: digit_val_def Let_def split: option.splits if_splits)
qed simp

text \<open>Whatever \<open>parse_int64\<close> reports, the number it leaves fits in 64 bits.\<close>

fun num_value :: "num_parse \<Rightarrow> int" where
  "num_value (NumOk i) = i"
| "num_value (NumRange i) = i"
| "num_value NumSyntax = 0"

lemma clamp_int64_range: "0 \<le> un \<Longrightarrow> in_int64 (num_value (clamp_int64 neg un over))"
  by (auto simp: clamp_int64_def in_int64_def min_int64_def max_int64_def)

lemma parse_uint_range_value: "parse_uint n s = NumRange m \<Longrightarrow> m = max_uint64"
  by (induction n s rule: parse_uint.induct) (auto split: option.splits if_splits)

lemma in_int64_0 [simp]: "in_int64 0"
  by (simp add: in_int64_def min_int64_def max_int64_def)

lemma parse_magnitude_range: "in_int64 (num_value (parse_magnitude neg s))"
proof (cases "s = []")
  case False
  show ?thesis
  proof (cases "parse_uint 0 s")
    case (NumOk m)
    with parse_uint_bound [OF _ NumOk] False show ?thesis
      by (simp add: parse_magnitude_def clamp_int64_range)
  next
    case (NumRange m)
    then have "0 \<le> m" using parse_uint_range_value [OF NumRange] by (simp add: max_uint64_def)
    with NumRange False show ?thesis
      by (simp add: parse_magnitude_def clamp_int64_range)
  next
    case NumSyntax
    with False show ?thesis by (simp add: parse_magnitude_def)
  qed
qed (simp add: parse_magnitude_def)

lemma parse_int64_range: "in_int64 (num_value (parse_int64 s))"
  by (cases s) (auto simp: parse_magnitude_range)

section \<open>Percent escaping\<close>

definition hex_upper :: "nat \<Rightarrow> char" where
  "hex_upper n = ''0123456789ABCDEF'' ! n"

definition is_unreserved :: "char \<Rightarrow> bool" where
  "is_unreserved c \<longleftrightarrow> is_upper c \<or> is_lower c \<or> digit_val c \<noteq> None \<or> c \<in> set ''-_.~''"

definition percent :: "char \<Rightarrow> string" where
  "percent c = [CHR ''%'', hex_upper (of_char c div 16), hex_upper (of_char c mod 16)]"

text \<open>\<open>url.PathEscape\<close> (one path segment) and \<open>url.QueryEscape\<close>.\<close>

definition path_escape :: "string \<Rightarrow> string" where
  "path_escape s =
     concat (map (\<lambda>c. if is_unreserved c \<or> c \<in> set ''$&+:=@'' then [c] else percent c) s)"

definition query_escape :: "string \<Rightarrow> string" where
  "query_escape s =
     concat (map (\<lambda>c. if c = CHR '' '' then ''+'' else if is_unreserved c then [c] else percent c) s)"

text \<open>Undoing the escaping: what a server reads back.\<close>

definition hex_value :: "char \<Rightarrow> nat option" where
  "hex_value c =
     (case List.find (\<lambda>n. hex_upper n = c) [0..<16] of None \<Rightarrow> None | Some n \<Rightarrow> Some n)"

fun unescape :: "string \<Rightarrow> string option" where
  "unescape [] = Some []"
| "unescape (c # cs) =
     (if c = CHR ''%'' then
        (case cs of
           a # b # r \<Rightarrow>
             (case (hex_value a, hex_value b, unescape r) of
                (Some x, Some y, Some t) \<Rightarrow> Some (char_of (16 * x + y) # t)
              | _ \<Rightarrow> None)
         | _ \<Rightarrow> None)
      else map_option ((#) c) (unescape cs))"

lemma below_16: "n < 16 \<Longrightarrow> n \<in> {0, 1, 2, 3, 4, 5, 6, 7, 8, 9, 10, 11, 12, 13, 14, 15}"
  for n :: nat
  unfolding insert_iff empty_iff by presburger

lemma hex_value_upper: "n < 16 \<Longrightarrow> hex_value (hex_upper n) = Some n"
proof -
  assume "n < 16"
  then have "n \<in> {0, 1, 2, 3, 4, 5, 6, 7, 8, 9, 10, 11, 12, 13, 14, 15}" by (rule below_16)
  then show ?thesis by (auto simp: hex_value_def hex_upper_def upt_rec)
qed

lemma char_div_16: "(of_char c :: nat) div 16 < 16"
proof -
  have "(of_char c :: nat) < 256" by (rule nat_of_char_less_256)
  then show ?thesis by linarith
qed

lemma unescape_percent: "unescape (percent c @ s) = map_option ((#) c) (unescape s)"
proof -
  have "char_of (16 * (of_char c div 16) + of_char c mod 16 :: nat) = c"
    by (simp only: mult_div_mod_eq char_of_char)
  then show ?thesis
    by (simp add: percent_def hex_value_upper char_div_16 split: option.split)
qed

lemma unescape_path_escape: "unescape (path_escape s) = Some s"
proof (induction s)
  case Nil
  then show ?case by (simp add: path_escape_def)
next
  case (Cons c s)
  have "c \<noteq> CHR ''%''" if "is_unreserved c \<or> c \<in> set ''$&+:=@''"
    using that by (auto simp: is_unreserved_def is_upper_def is_lower_def digit_val_def)
  moreover have "path_escape (c # s) =
      (if is_unreserved c \<or> c \<in> set ''$&+:=@'' then [c] else percent c) @ path_escape s"
    by (simp add: path_escape_def)
  ultimately show ?case using Cons by (auto simp: unescape_percent)
qed

definition url_char :: "char \<Rightarrow> bool" where
  "url_char c \<longleftrightarrow> is_unreserved c \<or> c \<in> set ''%$&+:=@''"

lemma url_char_hex: "n < 16 \<Longrightarrow> url_char (hex_upper n)"
proof -
  assume "n < 16"
  then have "n \<in> {0, 1, 2, 3, 4, 5, 6, 7, 8, 9, 10, 11, 12, 13, 14, 15}" by (rule below_16)
  then show ?thesis
    by (auto simp: hex_upper_def url_char_def is_unreserved_def is_upper_def digit_val_def)
qed

lemma path_escape_chars: "c \<in> set (path_escape s) \<Longrightarrow> url_char c"
proof -
  have "url_char d" if "d \<in> set (percent x)" for d x
    using that url_char_hex [OF char_div_16 [of x]] url_char_hex [of "of_char x mod 16"]
    by (auto simp: percent_def url_char_def)
  moreover assume "c \<in> set (path_escape s)"
  ultimately show ?thesis
    by (auto simp: path_escape_def url_char_def split: if_splits)
qed

lemma url_char_no_slash: "url_char c \<Longrightarrow> c \<noteq> CHR ''/'' \<and> c \<noteq> CHR ''?'' \<and> c \<noteq> CHR ''#''"
  by (auto simp: url_char_def is_unreserved_def is_upper_def is_lower_def digit_val_def)

end
