(* ===== verification/Json.thy ===== *)
theory Json
  imports Go_Strconv
begin

text \<open>
  JSON values and the part of Go's \<open>encoding/json\<close> that the sidecar decodes with.
  \<open>json.Unmarshal\<close> updates a value that is already there (the zero value of its type, in
  every call here), one object member at a time, so a decoder is an update: it takes the JSON
  value and the old Go value and gives the new one, or \<open>None\<close> where Go reports an error.  A
  struct type is the table of its fields, by their \<open>json:\<close> names.
\<close>

datatype json =
    JNull
  | JBool bool
  | JNum string
  | JStr string
  | JArr "json list"
  | JObj "(string \<times> json) list"

text \<open>A number keeps its literal: Go decodes it by parsing the literal at the field's type.\<close>

type_synonym 'r upd = "json \<Rightarrow> 'r \<Rightarrow> 'r option"

type_synonym 'r fields = "(string \<times> 'r upd) list"

section \<open>Scalars\<close>

text \<open>\<open>null\<close> leaves a scalar as it is; any other type mismatch is an error.\<close>

fun dec_string :: "string upd" where
  "dec_string JNull old = Some old"
| "dec_string (JStr s) old = Some s"
| "dec_string v old = None"

fun dec_bool :: "bool upd" where
  "dec_bool JNull old = Some old"
| "dec_bool (JBool b) old = Some b"
| "dec_bool v old = None"

fun dec_int :: "int upd" where
  "dec_int JNull old = Some old"
| "dec_int (JNum lit) old = (case parse_int64 lit of NumOk i \<Rightarrow> Some i | _ \<Rightarrow> None)"
| "dec_int v old = None"

text \<open>\<open>json.RawMessage\<close> keeps any value, \<open>null\<close> included; \<open>None\<close> is the empty message.\<close>

definition dec_raw :: "json option upd" where
  "dec_raw v old = Some (Some v)"

section \<open>Pointers, slices and structs\<close>

definition dec_ptr :: "'a upd \<Rightarrow> 'a \<Rightarrow> 'a option upd" where
  "dec_ptr d zero v old =
     (if v = JNull then Some None
      else map_option Some (d v (case old of None \<Rightarrow> zero | Some x \<Rightarrow> x)))"

text \<open>
  The elements of an array are decoded into those the slice already has, and behind them into zero
  values; a key that comes twice decodes into what it left the first time.  (Elements an earlier,
  longer array left behind the end of the slice, which a third occurrence would find again, are not
  kept.)
\<close>

fun dec_elems :: "'a upd \<Rightarrow> 'a \<Rightarrow> 'a list \<Rightarrow> json list \<Rightarrow> 'a list option" where
  "dec_elems d zero old [] = Some []"
| "dec_elems d zero old (v # vs) =
     (case d v (case old of [] \<Rightarrow> zero | x # _ \<Rightarrow> x) of
        None \<Rightarrow> None
      | Some x \<Rightarrow> (case dec_elems d zero (tl old) vs of None \<Rightarrow> None | Some xs \<Rightarrow> Some (x # xs)))"

definition dec_slice :: "'a upd \<Rightarrow> 'a \<Rightarrow> 'a list upd" where
  "dec_slice d zero v old =
     (case v of JNull \<Rightarrow> Some [] | JArr vs \<Rightarrow> dec_elems d zero old vs | _ \<Rightarrow> None)"

text \<open>
  The field a key decodes into: the one of exactly that name, else the one whose name is equal
  under key folding.  A key that names no field is skipped.
\<close>

definition find_field :: "'r fields \<Rightarrow> string \<Rightarrow> 'r upd option" where
  "find_field fs k =
     (case map_of fs k of
        Some u \<Rightarrow> Some u
      | None \<Rightarrow> map_of (map (\<lambda>(n, u). (fold_key n, u)) fs) (fold_key k))"

fun dec_fields :: "'r fields \<Rightarrow> (string \<times> json) list \<Rightarrow> 'r \<Rightarrow> 'r option" where
  "dec_fields fs [] r = Some r"
| "dec_fields fs ((k, v) # kvs) r =
     (case find_field fs k of
        None \<Rightarrow> dec_fields fs kvs r
      | Some u \<Rightarrow> (case u v r of None \<Rightarrow> None | Some r' \<Rightarrow> dec_fields fs kvs r'))"

definition dec_struct :: "'r fields \<Rightarrow> 'r upd" where
  "dec_struct fs v r =
     (case v of JNull \<Rightarrow> Some r | JObj kvs \<Rightarrow> dec_fields fs kvs r | _ \<Rightarrow> None)"

text \<open>A field of a record, from its selector and its update function.\<close>

definition fld :: "string \<Rightarrow> ('r \<Rightarrow> 'a) \<Rightarrow> (('a \<Rightarrow> 'a) \<Rightarrow> 'r \<Rightarrow> 'r) \<Rightarrow> 'a upd \<Rightarrow> string \<times> 'r upd" where
  "fld name sel upd d =
     (name, \<lambda>v r. case d v (sel r) of None \<Rightarrow> None | Some x \<Rightarrow> Some (upd (\<lambda>_. x) r))"

text \<open>A struct that only wraps one field, as the \<open>repository\<close> and \<open>pullRequest\<close> levels do.\<close>

definition nest :: "string \<Rightarrow> 'r upd \<Rightarrow> 'r upd" where
  "nest name d = dec_struct [(name, d)]"

lemma dec_struct_JNull [simp]: "dec_struct fs JNull r = Some r"
  by (simp add: dec_struct_def)

lemma dec_struct_JObj [simp]: "dec_struct fs (JObj kvs) r = dec_fields fs kvs r"
  by (simp add: dec_struct_def)

lemma dec_slice_simps [simp]:
  "dec_slice d z JNull old = Some []"
  "dec_slice d z (JArr vs) old = dec_elems d z old vs"
  "dec_slice d z (JBool b) old = None"
  "dec_slice d z (JNum n) old = None"
  "dec_slice d z (JStr s) old = None"
  "dec_slice d z (JObj kvs) old = None"
  by (simp_all add: dec_slice_def)

lemma dec_int_range: "dec_int v old = Some i \<Longrightarrow> in_int64 old \<Longrightarrow> in_int64 i"
proof (cases v)
  case (JNum lit)
  moreover assume "dec_int v old = Some i"
  ultimately show ?thesis
    using parse_int64_range [of lit] by (auto split: num_parse.splits)
qed auto

lemma dec_elems_length: "dec_elems d z old vs = Some xs \<Longrightarrow> length xs = length vs"
  by (induction vs arbitrary: old xs) (auto split: option.splits)

text \<open>
  An invariant of the record that every field's update keeps is kept by the struct's decoder:
  the rule by which facts about decoded parameters are proved.
\<close>

definition fields_keep :: "('r \<Rightarrow> bool) \<Rightarrow> 'r fields \<Rightarrow> bool" where
  "fields_keep I fs \<longleftrightarrow> (\<forall>(n, u) \<in> set fs. \<forall>v r r'. I r \<longrightarrow> u v r = Some r' \<longrightarrow> I r')"

lemma find_field_in: "find_field fs k = Some u \<Longrightarrow> \<exists>n. (n, u) \<in> set fs"
  by (auto simp: find_field_def split: option.splits dest!: map_of_SomeD)

lemma dec_fields_keep:
  "fields_keep I fs \<Longrightarrow> I r \<Longrightarrow> dec_fields fs kvs r = Some r' \<Longrightarrow> I r'"
proof (induction kvs arbitrary: r)
  case Nil
  then show ?case by simp
next
  case (Cons kv kvs)
  obtain k v where kv: "kv = (k, v)" by fastforce
  show ?case
  proof (cases "find_field fs k")
    case None
    with Cons kv show ?thesis by auto
  next
    case (Some u)
    with Cons.prems kv obtain r1 where r1: "u v r = Some r1" "dec_fields fs kvs r1 = Some r'"
      by (auto split: option.splits)
    from find_field_in [OF Some] obtain n where "(n, u) \<in> set fs" by blast
    with Cons.prems(1,2) r1(1) have "I r1" unfolding fields_keep_def by blast
    with Cons.IH Cons.prems(1) r1(2) show ?thesis by blast
  qed
qed

lemma dec_struct_keep:
  "fields_keep I fs \<Longrightarrow> I r \<Longrightarrow> dec_struct fs v r = Some r' \<Longrightarrow> I r'"
  by (cases v) (auto simp: dec_struct_def dest: dec_fields_keep)

end
