(* ===== verification/Json_Text.thy ===== *)
theory Json_Text
  imports Json
begin

text \<open>
  JSON text: the scanner of Go's \<open>encoding/json\<close> (white space, literals, numbers, strings with
  their escapes, nesting depth) and its encoder with HTML escaping on, which is what
  \<open>json.NewEncoder(out).Encode\<close> writes to stdout.
\<close>

section \<open>UTF-8\<close>

definition byte :: "char \<Rightarrow> nat" where
  "byte c = of_char c"

definition is_cont :: "char \<Rightarrow> bool" where
  "is_cont c \<longleftrightarrow> 128 \<le> byte c \<and> byte c \<le> 191"

definition between :: "nat \<Rightarrow> nat \<Rightarrow> char \<Rightarrow> bool" where
  "between lo hi c \<longleftrightarrow> lo \<le> byte c \<and> byte c \<le> hi"

definition utf8_seq2 :: "char \<Rightarrow> char \<Rightarrow> bool" where
  "utf8_seq2 a b \<longleftrightarrow> between 194 223 a \<and> is_cont b"

definition utf8_seq3 :: "char \<Rightarrow> char \<Rightarrow> char \<Rightarrow> bool" where
  "utf8_seq3 a b c \<longleftrightarrow>
     (if byte a = 224 then between 160 191 b
      else if byte a = 237 then between 128 159 b
      else between 225 239 a \<and> is_cont b) \<and> is_cont c"

definition utf8_seq4 :: "char \<Rightarrow> char \<Rightarrow> char \<Rightarrow> char \<Rightarrow> bool" where
  "utf8_seq4 a b c d \<longleftrightarrow>
     (if byte a = 240 then between 144 191 b
      else if byte a = 244 then between 128 143 b
      else between 241 243 a \<and> is_cont b) \<and> is_cont c \<and> is_cont d"

text \<open>The length of the UTF-8 sequence the string starts with, 0 where it is not valid.\<close>

fun utf8_len :: "string \<Rightarrow> nat" where
  "utf8_len [] = 0"
| "utf8_len (a # s) =
     (if byte a < 128 then 1
      else case s of
        [] \<Rightarrow> 0
      | b # s \<Rightarrow>
          if utf8_seq2 a b then 2
          else case s of
            [] \<Rightarrow> 0
          | c # s \<Rightarrow>
              if utf8_seq3 a b c then 3
              else case s of
                [] \<Rightarrow> 0
              | d # s \<Rightarrow> if utf8_seq4 a b c d then 4 else 0)"

definition utf8_replacement :: string where
  "utf8_replacement = [CHR 0xEF, CHR 0xBF, CHR 0xBD]"

definition utf8_encode :: "nat \<Rightarrow> string" where
  "utf8_encode u =
     (if u < 128 then [char_of u]
      else if u < 2048 then [char_of (192 + u div 64), char_of (128 + u mod 64)]
      else if u < 65536 then
        [char_of (224 + u div 4096), char_of (128 + u div 64 mod 64), char_of (128 + u mod 64)]
      else
        [char_of (240 + u div 262144), char_of (128 + u div 4096 mod 64),
         char_of (128 + u div 64 mod 64), char_of (128 + u mod 64)])"

section \<open>The scanner\<close>

definition is_json_space :: "char \<Rightarrow> bool" where
  "is_json_space c \<longleftrightarrow> c = CHR '' '' \<or> c = CHR 0x09 \<or> c = CHR 0x0A \<or> c = CHR 0x0D"

fun skip_ws :: "string \<Rightarrow> string" where
  "skip_ws [] = []"
| "skip_ws (c # cs) = (if is_json_space c then skip_ws cs else c # cs)"

definition hex_digit :: "char \<Rightarrow> nat option" where
  "hex_digit c =
     (if between 48 57 c then Some (byte c - 48)
      else if between 97 102 c then Some (byte c - 87)
      else if between 65 70 c then Some (byte c - 55)
      else None)"

fun hex4 :: "string \<Rightarrow> nat option" where
  "hex4 (a # b # c # d # s) =
     (case (hex_digit a, hex_digit b, hex_digit c, hex_digit d) of
        (Some i, Some j, Some k, Some l) \<Rightarrow> Some (4096 * i + 256 * j + 16 * k + l)
      | _ \<Rightarrow> None)"
| "hex4 s = None"

definition is_surrogate :: "nat \<Rightarrow> bool" where
  "is_surrogate u \<longleftrightarrow> 55296 \<le> u \<and> u < 57344"

text \<open>The second half of a surrogate pair, if the string goes on with one that fits.\<close>

fun surrogate_pair :: "nat \<Rightarrow> string \<Rightarrow> nat option" where
  "surrogate_pair u (a # b # s) =
     (if a = CHR 0x5C \<and> b = CHR ''u'' \<and> u < 56320 then
        (case hex4 s of
           None \<Rightarrow> None
         | Some v \<Rightarrow>
             if 56320 \<le> v \<and> v < 57344 then Some (65536 + 1024 * (u - 55296) + (v - 56320))
             else None)
      else None)"
| "surrogate_pair u s = None"

definition escape_value :: "char \<Rightarrow> char option" where
  "escape_value e =
     (if e \<in> {CHR 0x22, CHR 0x5C, CHR ''/''} then Some e
      else if e = CHR ''b'' then Some (CHR 0x08)
      else if e = CHR ''f'' then Some (CHR 0x0C)
      else if e = CHR ''n'' then Some (CHR 0x0A)
      else if e = CHR ''r'' then Some (CHR 0x0D)
      else if e = CHR ''t'' then Some (CHR 0x09)
      else None)"

definition put_front :: "string \<Rightarrow> (string \<times> string) option \<Rightarrow> (string \<times> string) option" where
  "put_front t r = (case r of None \<Rightarrow> None | Some (s, rest) \<Rightarrow> Some (t @ s, rest))"

lemma put_front_simps [simp]:
  "put_front t None = None"
  "put_front t (Some (s, rest)) = Some (t @ s, rest)"
  by (simp_all add: put_front_def)

text \<open>The string after its opening quote: its decoded bytes and what follows the closing one.\<close>

function scan_string :: "string \<Rightarrow> (string \<times> string) option" where
  "scan_string [] = None"
| "scan_string (c # cs) =
     (if c = CHR 0x22 then Some ([], cs)
      else if c = CHR 0x5C then
        (case cs of
           [] \<Rightarrow> None
         | e # r \<Rightarrow>
             if e = CHR ''u'' then
               (case hex4 r of
                  None \<Rightarrow> None
                | Some u \<Rightarrow>
                    if is_surrogate u then
                      (case surrogate_pair u (drop 4 r) of
                         None \<Rightarrow> put_front utf8_replacement (scan_string (drop 4 r))
                       | Some w \<Rightarrow> put_front (utf8_encode w) (scan_string (drop 10 r)))
                    else put_front (utf8_encode u) (scan_string (drop 4 r)))
             else
               (case escape_value e of
                  None \<Rightarrow> None
                | Some x \<Rightarrow> put_front [x] (scan_string r)))
      else if byte c < 32 then None
      else if byte c < 128 then put_front [c] (scan_string cs)
      else if utf8_len (c # cs) = 0 then put_front utf8_replacement (scan_string cs)
      else put_front (take (utf8_len (c # cs)) (c # cs))
             (scan_string (drop (utf8_len (c # cs) - 1) cs)))"
  by pat_completeness auto
termination
  by (relation "measure length") auto

fun span_digits :: "string \<Rightarrow> string \<times> string" where
  "span_digits [] = ([], [])"
| "span_digits (c # cs) =
     (if digit_val c = None then ([], c # cs)
      else let (ds, r) = span_digits cs in (c # ds, r))"

text \<open>Optional fraction and exponent: \<open>None\<close> where one is begun and not finished.\<close>

definition scan_frac :: "string \<Rightarrow> (string \<times> string) option" where
  "scan_frac s =
     (case s of
        c # cs \<Rightarrow>
          if c = CHR ''.'' then
            (case span_digits cs of (ds, r) \<Rightarrow> if ds = [] then None else Some (c # ds, r))
          else Some ([], s)
      | [] \<Rightarrow> Some ([], s))"

definition scan_exp :: "string \<Rightarrow> (string \<times> string) option" where
  "scan_exp s =
     (case s of
        c # cs \<Rightarrow>
          if c = CHR ''e'' \<or> c = CHR ''E'' then
            (let (sg, r0) = (case cs of
                 b # bs \<Rightarrow> if b = CHR ''+'' \<or> b = CHR ''-'' then ([b], bs) else ([], cs)
               | [] \<Rightarrow> ([], cs))
             in case span_digits r0 of (ds, r) \<Rightarrow> if ds = [] then None else Some (c # sg @ ds, r))
          else Some ([], s)
      | [] \<Rightarrow> Some ([], s))"

definition scan_sign :: "string \<Rightarrow> string \<times> string" where
  "scan_sign s =
     (case s of
        c # cs \<Rightarrow> if c = CHR ''-'' then ([c], cs) else ([], s)
      | [] \<Rightarrow> ([], s))"

definition scan_int_part :: "string \<Rightarrow> string \<times> string" where
  "scan_int_part s =
     (case s of
        c # cs \<Rightarrow> if c = CHR ''0'' then ([c], cs) else span_digits s
      | [] \<Rightarrow> ([], s))"

definition scan_number :: "string \<Rightarrow> (string \<times> string) option" where
  "scan_number s =
     (let (sg, s1) = scan_sign s; (ip, s2) = scan_int_part s1
      in if ip = [] then None
         else case scan_frac s2 of
                None \<Rightarrow> None
              | Some (fp, s3) \<Rightarrow>
                  (case scan_exp s3 of
                     None \<Rightarrow> None
                   | Some (ep, s4) \<Rightarrow> Some (sg @ ip @ fp @ ep, s4)))"

definition max_nesting :: nat where "max_nesting = 10000"

definition parse_scalar :: "char \<Rightarrow> string \<Rightarrow> (json \<times> string) option" where
  "parse_scalar c cs =
     (if c = CHR 0x22 then
        (case scan_string cs of None \<Rightarrow> None | Some (t, r) \<Rightarrow> Some (JStr t, r))
      else if is_prefix ''null'' (c # cs) then Some (JNull, drop 3 cs)
      else if is_prefix ''true'' (c # cs) then Some (JBool True, drop 3 cs)
      else if is_prefix ''false'' (c # cs) then Some (JBool False, drop 4 cs)
      else (case scan_number (c # cs) of None \<Rightarrow> None | Some (l, r) \<Rightarrow> Some (JNum l, r)))"

text \<open>
  Values, array elements and object members.  The first argument bounds the calls still
  allowed, the second counts the brackets that are open.
\<close>

fun parse_value :: "nat \<Rightarrow> nat \<Rightarrow> string \<Rightarrow> (json \<times> string) option"
  and parse_elems :: "nat \<Rightarrow> nat \<Rightarrow> string \<Rightarrow> (json list \<times> string) option"
  and parse_members :: "nat \<Rightarrow> nat \<Rightarrow> string \<Rightarrow> ((string \<times> json) list \<times> string) option" where
  "parse_value 0 d s = None"
| "parse_value (Suc n) d s =
     (case skip_ws s of
        [] \<Rightarrow> None
      | c # cs \<Rightarrow>
          if c = CHR 0x7B then
            (if d \<ge> max_nesting then None
             else case skip_ws cs of
                    [] \<Rightarrow> None
                  | b # bs \<Rightarrow>
                      if b = CHR 0x7D then Some (JObj [], bs)
                      else (case parse_members n (d + 1) (b # bs) of
                              None \<Rightarrow> None
                            | Some (kvs, r) \<Rightarrow> Some (JObj kvs, r)))
          else if c = CHR ''['' then
            (if d \<ge> max_nesting then None
             else case skip_ws cs of
                    [] \<Rightarrow> None
                  | b # bs \<Rightarrow>
                      if b = CHR '']'' then Some (JArr [], bs)
                      else (case parse_elems n (d + 1) (b # bs) of
                              None \<Rightarrow> None
                            | Some (vs, r) \<Rightarrow> Some (JArr vs, r)))
          else parse_scalar c cs)"
| "parse_elems 0 d s = None"
| "parse_elems (Suc n) d s =
     (case parse_value n d s of
        None \<Rightarrow> None
      | Some (v, r) \<Rightarrow>
          (case skip_ws r of
             [] \<Rightarrow> None
           | c # cs \<Rightarrow>
               if c = CHR '','' then
                 (case parse_elems n d cs of None \<Rightarrow> None | Some (vs, q) \<Rightarrow> Some (v # vs, q))
               else if c = CHR '']'' then Some ([v], cs)
               else None))"
| "parse_members 0 d s = None"
| "parse_members (Suc n) d s =
     (case skip_ws s of
        [] \<Rightarrow> None
      | c # cs \<Rightarrow>
          if c \<noteq> CHR 0x22 then None
          else case scan_string cs of
            None \<Rightarrow> None
          | Some (k, r) \<Rightarrow>
              (case skip_ws r of
                 [] \<Rightarrow> None
               | a # as \<Rightarrow>
                   if a \<noteq> CHR '':'' then None
                   else case parse_value n d as of
                     None \<Rightarrow> None
                   | Some (v, r2) \<Rightarrow>
                       (case skip_ws r2 of
                          [] \<Rightarrow> None
                        | b # bs \<Rightarrow>
                            if b = CHR '','' then
                              (case parse_members n d bs of
                                 None \<Rightarrow> None
                               | Some (kvs, q) \<Rightarrow> Some ((k, v) # kvs, q))
                            else if b = CHR 0x7D then Some ([(k, v)], bs)
                            else None)))"

text \<open>\<open>json.Unmarshal\<close>'s view of its input: one value, and nothing but white space after it.\<close>

definition parse_json :: "string \<Rightarrow> json option" where
  "parse_json s =
     (case parse_value (2 * length s + 2) 0 s of
        None \<Rightarrow> None
      | Some (v, r) \<Rightarrow> if skip_ws r = [] then Some v else None)"

text \<open>\<open>json.Unmarshal(data, &v)\<close>: \<open>None\<close> is an error.\<close>

definition unmarshal :: "string \<Rightarrow> 'r upd \<Rightarrow> 'r \<Rightarrow> 'r option" where
  "unmarshal s d r = (case parse_json s of None \<Rightarrow> None | Some v \<Rightarrow> d v r)"

section \<open>The encoder\<close>

definition hex_lower :: "nat \<Rightarrow> char" where
  "hex_lower n = ''0123456789abcdef'' ! n"

definition u_escape :: "nat \<Rightarrow> string" where
  "u_escape u =
     [CHR 0x5C, CHR ''u'', hex_lower (u div 4096 mod 16), hex_lower (u div 256 mod 16),
      hex_lower (u div 16 mod 16), hex_lower (u mod 16)]"

definition escape_ascii :: "char \<Rightarrow> string" where
  "escape_ascii c =
     (if c = CHR 0x22 \<or> c = CHR 0x5C then [CHR 0x5C, c]
      else if c = CHR 0x08 then [CHR 0x5C, CHR ''b'']
      else if c = CHR 0x0C then [CHR 0x5C, CHR ''f'']
      else if c = CHR 0x0A then [CHR 0x5C, CHR ''n'']
      else if c = CHR 0x0D then [CHR 0x5C, CHR ''r'']
      else if c = CHR 0x09 then [CHR 0x5C, CHR ''t'']
      else if byte c < 32 \<or> c = CHR ''<'' \<or> c = CHR ''>'' \<or> c = CHR ''&'' then u_escape (byte c)
      else [c])"

text \<open>Bytes that are not valid UTF-8 come out as the replacement character's escape, and the two
  separators JavaScript reads as line ends are escaped.\<close>

function escape_string :: "string \<Rightarrow> string" where
  "escape_string [] = []"
| "escape_string (c # cs) =
     (if byte c < 128 then escape_ascii c @ escape_string cs
      else if utf8_len (c # cs) = 0 then u_escape 65533 @ escape_string cs
      else if is_prefix [CHR 0xE2, CHR 0x80, CHR 0xA8] (c # cs) then u_escape 8232 @ escape_string (drop 2 cs)
      else if is_prefix [CHR 0xE2, CHR 0x80, CHR 0xA9] (c # cs) then u_escape 8233 @ escape_string (drop 2 cs)
      else take (utf8_len (c # cs)) (c # cs) @ escape_string (drop (utf8_len (c # cs) - 1) cs))"
  by pat_completeness auto
termination
  by (relation "measure length") auto

definition quote_string :: "string \<Rightarrow> string" where
  "quote_string s = [CHR 0x22] @ escape_string s @ [CHR 0x22]"

fun json_text :: "json \<Rightarrow> string" where
  "json_text JNull = ''null''"
| "json_text (JBool b) = (if b then ''true'' else ''false'')"
| "json_text (JNum l) = l"
| "json_text (JStr s) = quote_string s"
| "json_text (JArr vs) = ''['' @ join_with '','' (map json_text vs) @ '']''"
| "json_text (JObj kvs) =
     [CHR 0x7B] @ join_with '','' (map (\<lambda>(k, v). quote_string k @ '':'' @ json_text v) kvs) @ [CHR 0x7D]"

end
