(* ===== verification/Json_Roundtrip.thy ===== *)
theory Json_Roundtrip
  imports Json_Text
begin

text \<open>
  The scanner reads back what the encoder writes (\<open>parse_json_text\<close>), the bound on the
  scanner's calls never decides an outcome (\<open>parse_fuel\<close>), and encoded text holds no line
  feed (\<open>json_text_no_newline\<close>), so one frame of the protocol is one line.
\<close>

section \<open>Escapes\<close>

lemma byte_bound [simp]: "byte c < 256"
  by (simp add: byte_def)

lemma char_of_byte [simp]: "char_of (byte c) = c"
  by (simp add: byte_def)

lemma hex_digit_lower: "k < 16 \<Longrightarrow> hex_digit (hex_lower k) = Some k"
proof -
  assume "k < 16"
  then have "k \<in> set [0..<16]" by simp
  moreover have "list_all (\<lambda>k. hex_digit (hex_lower k) = Some k) [0..<16]" by code_simp
  ultimately show ?thesis unfolding list_all_iff by blast
qed

lemma hex4_digits:
  fixes u :: nat
  assumes "u < 65536"
  shows "4096 * (u div 4096 mod 16) + 256 * (u div 256 mod 16) + 16 * (u div 16 mod 16) + u mod 16 = u"
proof -
  define a b c where "a = u div 16" and "b = a div 16" and "c = b div 16"
  have d: "u div 256 = b" "u div 4096 = c"
    by (simp_all add: a_def b_def c_def flip: div_mult2_eq)
  have "c < 16" using assms d(2) by auto
  moreover have "16 * a + u mod 16 = u" "16 * b + a mod 16 = a" "16 * c + b mod 16 = b"
    by (simp_all add: a_def b_def c_def)
  ultimately show ?thesis unfolding d a_def [symmetric] by simp
qed

lemma scan_u_escape:
  assumes "u < 65536" and "\<not> is_surrogate u"
  shows "scan_string (u_escape u @ t) = put_front (utf8_encode u) (scan_string t)"
proof -
  have "hex4 (drop 2 (u_escape u) @ t) = Some u"
    by (simp add: u_escape_def hex_digit_lower hex4_digits [OF assms(1), simplified])
  with assms(2) show ?thesis
    by (simp add: u_escape_def)
qed

lemma scan_escape_ascii:
  assumes "byte c < 128"
  shows "scan_string (escape_ascii c @ t) = put_front [c] (scan_string t)"
proof -
  have "scan_string (u_escape (byte c) @ t) = put_front [c] (scan_string t)"
    using assms scan_u_escape [of "byte c" t]
    by (simp add: is_surrogate_def utf8_encode_def)
  then show ?thesis
    using assms by (auto simp: escape_ascii_def escape_value_def)
qed

lemma utf8_len_bound: "utf8_len s \<le> length s"
  by (cases s) (auto split: list.splits)

lemma utf8_len_take: "utf8_len s = n \<Longrightarrow> 0 < n \<Longrightarrow> utf8_len (take n s @ t) = n"
  by (cases s) (auto split: list.splits if_splits)

section \<open>Strings\<close>

function utf8_ok :: "string \<Rightarrow> bool" where
  "utf8_ok [] = True"
| "utf8_ok (c # cs) =
     (0 < utf8_len (c # cs) \<and> utf8_ok (drop (utf8_len (c # cs) - 1) cs))"
  by pat_completeness auto
termination
  by (relation "measure length") auto

declare utf8_len.simps [simp del] escape_string.simps [simp del] scan_string.simps [simp del] utf8_ok.simps [simp del]

lemma scan_string_multi:
  assumes c: "\<not> byte c < 128" and n: "utf8_len (c # cs) = n" "0 < n"
  shows "scan_string (take n (c # cs) @ t) = put_front (take n (c # cs)) (scan_string t)"
proof -
  have ne: "c \<noteq> CHR 0x22" "c \<noteq> CHR 0x5C" using c by (auto simp: byte_def)
  obtain w where w: "take n (c # cs) = c # w" and lw: "length w = n - 1"
    using n utf8_len_bound [of "c # cs"] by (cases n) auto
  have len: "utf8_len (c # w @ t) = n"
    using utf8_len_take [OF n, where t = t] w by simp
  show ?thesis
    using c ne n(2) lw unfolding w
    by (subst append_Cons, subst scan_string.simps) (simp add: len take_Cons' drop_Cons')
qed

lemma escape_separators:
  assumes "\<not> byte c < 128" and "0 < utf8_len (c # cs)"
  shows "escape_string (c # cs) =
    (if is_prefix [CHR 0xE2, CHR 0x80, CHR 0xA8] (c # cs) then u_escape 8232 @ escape_string (drop 2 cs)
     else if is_prefix [CHR 0xE2, CHR 0x80, CHR 0xA9] (c # cs) then u_escape 8233 @ escape_string (drop 2 cs)
     else take (utf8_len (c # cs)) (c # cs) @ escape_string (drop (utf8_len (c # cs) - 1) cs))"
  using assms by (simp add: escape_string.simps(2))

lemma utf8_len_separator:
  "c # cs = [CHR 0xE2, CHR 0x80, b] @ t \<Longrightarrow> b = CHR 0xA8 \<or> b = CHR 0xA9 \<Longrightarrow> utf8_len (c # cs) = 3"
  by (auto simp: utf8_len.simps byte_def between_def is_cont_def utf8_seq2_def utf8_seq3_def)

lemma scan_escape_string:
  "utf8_ok s \<Longrightarrow> scan_string (escape_string s @ CHR 0x22 # r) = Some (s, r)"
proof (induction s rule: escape_string.induct)
  case 1
  then show ?case by (simp add: escape_string.simps scan_string.simps)
next
  case (2 c cs)
  let ?n = "utf8_len (c # cs)"
  have ok: "0 < ?n" "utf8_ok (drop (?n - 1) cs)" using "2.prems" by (simp_all add: utf8_ok.simps)
  show ?case
  proof (cases "byte c < 128")
    case True
    then have "?n = 1" by (simp add: utf8_len.simps)
    with ok True "2.IH"(1) show ?thesis
      by (simp add: escape_string.simps scan_escape_ascii)
  next
    case hi: False
    note esc = escape_separators [OF hi ok(1)]
    show ?thesis
    proof (cases "is_prefix [CHR 0xE2, CHR 0x80, CHR 0xA8] (c # cs)")
      case True
      then obtain t where t: "c # cs = [CHR 0xE2, CHR 0x80, CHR 0xA8] @ t"
        unfolding is_prefix_iff by blast
      then have "?n = 3" by (rule utf8_len_separator) simp
      with ok "2.IH"(3) [OF hi _ True] hi t True show ?thesis
        unfolding esc by (simp add: scan_u_escape is_surrogate_def utf8_encode_def char_of_eq_iff)
    next
      case F1: False
      show ?thesis
      proof (cases "is_prefix [CHR 0xE2, CHR 0x80, CHR 0xA9] (c # cs)")
        case True
        then obtain t where t: "c # cs = [CHR 0xE2, CHR 0x80, CHR 0xA9] @ t"
          unfolding is_prefix_iff by blast
        then have "?n = 3" by (rule utf8_len_separator) simp
        with ok "2.IH"(4) [OF hi _ F1 True] hi t True F1 show ?thesis
          unfolding esc by (simp add: scan_u_escape is_surrogate_def utf8_encode_def char_of_eq_iff)
      next
        case F2: False
        have "take ?n (c # cs) @ drop (?n - 1) cs = c # cs"
          using ok(1) by (cases ?n) auto
        moreover have "escape_string (c # cs) = take ?n (c # cs) @ escape_string (drop (?n - 1) cs)"
          using F1 F2 unfolding esc by (simp only: if_False)
        ultimately show ?thesis
          using ok "2.IH"(5) [OF hi _ F1 F2] by (simp add: scan_string_multi [OF hi refl])
      qed
    qed
  qed
qed

section \<open>Numbers\<close>

definition num_end :: "string \<Rightarrow> bool" where
  "num_end r \<longleftrightarrow>
     (case r of [] \<Rightarrow> True
      | c # _ \<Rightarrow> digit_val c = None \<and> c \<noteq> CHR ''.'' \<and> c \<noteq> CHR ''e'' \<and> c \<noteq> CHR ''E'')"

lemma span_digits_append:
  "span_digits s = (ds, t) \<Longrightarrow> num_end r \<Longrightarrow> span_digits (s @ r) = (ds, t @ r)"
proof (induction s arbitrary: ds)
  case Nil
  then show ?case by (cases r) (auto simp: num_end_def)
next
  case (Cons c s)
  then show ?case by (auto split: if_splits prod.splits)
qed

lemma scan_frac_append:
  "scan_frac s = Some (fp, t) \<Longrightarrow> num_end r \<Longrightarrow> scan_frac (s @ r) = Some (fp, t @ r)"
proof (cases s)
  case Nil
  moreover assume "scan_frac s = Some (fp, t)" "num_end r"
  ultimately show ?thesis by (cases r) (auto simp: scan_frac_def num_end_def)
next
  case (Cons c cs)
  moreover assume "scan_frac s = Some (fp, t)" "num_end r"
  moreover obtain ds u where "span_digits cs = (ds, u)" by fastforce
  ultimately show ?thesis
    using span_digits_append [of cs ds u r] by (auto simp: scan_frac_def split: if_splits)
qed

lemma scan_exp_append:
  "scan_exp s = Some (ep, t) \<Longrightarrow> num_end r \<Longrightarrow> scan_exp (s @ r) = Some (ep, t @ r)"
proof (cases s)
  case Nil
  moreover assume "scan_exp s = Some (ep, t)" "num_end r"
  ultimately show ?thesis by (cases r) (auto simp: scan_exp_def num_end_def)
next
  case (Cons c cs)
  assume s: "scan_exp s = Some (ep, t)" and r: "num_end r"
  show ?thesis
  proof (cases "c = CHR ''e'' \<or> c = CHR ''E''")
    case False
    with s Cons show ?thesis by (auto simp: scan_exp_def)
  next
    case True
    show ?thesis
    proof (cases cs)
      case Nil
      with s Cons True show ?thesis by (auto simp: scan_exp_def)
    next
      case (Cons b bs)
      obtain ds u where 1: "span_digits bs = (ds, u)" by fastforce
      obtain ds' u' where 2: "span_digits (b # bs) = (ds', u')" by fastforce
      show ?thesis
        using s \<open>s = c # cs\<close> Cons True 1 2 span_digits_append [OF 1 r] span_digits_append [OF 2 r]
        by (auto simp: scan_exp_def Let_def simp del: span_digits.simps split: if_splits)
    qed
  qed
qed

lemma scan_number_append:
  assumes s: "scan_number s = Some (l, t)" and r: "num_end r"
  shows "scan_number (s @ r) = Some (l, t @ r)"
proof -
  obtain sg s1 where 1: "scan_sign s = (sg, s1)" by fastforce
  obtain ip s2 where 2: "scan_int_part s1 = (ip, s2)" by fastforce
  from s 1 2 have ip: "ip \<noteq> []" by (auto simp: scan_number_def)
  from s 1 2 ip obtain fp s3 where 3: "scan_frac s2 = Some (fp, s3)"
    by (auto simp: scan_number_def split: option.splits)
  from s 1 2 3 ip obtain ep where 4: "scan_exp s3 = Some (ep, t)" and l: "l = sg @ ip @ fp @ ep"
    by (auto simp: scan_number_def split: option.splits)
  have s1: "s1 \<noteq> []" using 2 ip by (auto simp: scan_int_part_def)
  have "scan_sign (s @ r) = (sg, s1 @ r)"
    using 1 s1 by (cases s) (auto simp: scan_sign_def split: if_splits)
  moreover have "scan_int_part (s1 @ r) = (ip, s2 @ r)"
  proof (cases s1)
    case (Cons a w)
    with 2 span_digits_append [of s1 ip s2 r] r show ?thesis
      by (auto simp: scan_int_part_def simp del: span_digits.simps split: if_splits)
  qed (use s1 in simp)
  ultimately show ?thesis
    using ip scan_frac_append [OF 3 r] scan_exp_append [OF 4 r] l
    by (simp add: scan_number_def)
qed

definition num_ok :: "string \<Rightarrow> bool" where
  "num_ok l \<longleftrightarrow> scan_number l = Some (l, [])"

lemma num_ok_start:
  assumes "num_ok l"
  obtains c cs where "l = c # cs" and "c = CHR ''-'' \<or> digit_val c \<noteq> None"
proof (cases l)
  case Nil
  with assms show ?thesis by (simp add: num_ok_def scan_number_def scan_sign_def scan_int_part_def)
next
  case (Cons c cs)
  have "c = CHR ''-'' \<or> digit_val c \<noteq> None"
  proof (rule ccontr)
    assume "\<not> ?thesis"
    then have "scan_number (c # cs) = None"
      by (simp add: scan_number_def scan_sign_def scan_int_part_def)
        (auto simp: digit_val_def)
    with assms Cons show False by (simp add: num_ok_def)
  qed
  with Cons that show ?thesis by blast
qed

section \<open>Values\<close>

text \<open>The values whose text the scanner reads back: numbers are JSON number literals and strings
  are UTF-8.\<close>

fun json_ok :: "json \<Rightarrow> bool" where
  "json_ok JNull = True"
| "json_ok (JBool b) = True"
| "json_ok (JNum l) = num_ok l"
| "json_ok (JStr s) = utf8_ok s"
| "json_ok (JArr vs) = (\<forall>v \<in> set vs. json_ok v)"
| "json_ok (JObj kvs) = (\<forall>(k, v) \<in> set kvs. utf8_ok k \<and> json_ok v)"

fun json_depth :: "json \<Rightarrow> nat" where
  "json_depth (JArr vs) = Suc (foldr (\<lambda>v m. max (json_depth v) m) vs 0)"
| "json_depth (JObj kvs) = Suc (foldr (\<lambda>(k, v) m. max (json_depth v) m) kvs 0)"
| "json_depth v = 0"

fun json_fuel :: "json \<Rightarrow> nat" where
  "json_fuel (JArr vs) = Suc (sum_list (map (\<lambda>v. Suc (json_fuel v)) vs))"
| "json_fuel (JObj kvs) = Suc (sum_list (map (\<lambda>(k, v). Suc (json_fuel v)) kvs))"
| "json_fuel v = 1"

lemma num_ok_no_space: "num_ok (c # cs) \<Longrightarrow> \<not> is_json_space c"
  by (erule num_ok_start) (auto simp: is_json_space_def digit_val_def)

lemma json_text_start:
  assumes "json_ok j"
  obtains c cs where "json_text j = c # cs" and "\<not> is_json_space c"
proof (cases j)
  case (JBool b)
  then show ?thesis by (cases b) (auto simp: is_json_space_def intro: that)
next
  case (JNum l)
  with assms obtain c cs where "l = c # cs" by (auto elim: num_ok_start)
  with assms JNum num_ok_no_space show ?thesis by (auto intro: that)
qed (auto simp: is_json_space_def quote_string_def intro: that)

lemma skip_ws_text: "json_ok j \<Longrightarrow> skip_ws (json_text j @ r) = json_text j @ r"
  by (rule json_text_start [of j]) auto

lemma scan_quote_string:
  "utf8_ok s \<Longrightarrow> \<exists>t. quote_string s @ r = CHR 0x22 # t \<and> scan_string t = Some (s, r)"
  by (simp add: quote_string_def scan_escape_string)

lemma json_text_no_close:
  assumes "json_ok j"
  obtains c cs where "json_text j = c # cs" and "\<not> is_json_space c" and "c \<noteq> CHR '']''"
proof -
  obtain c cs where c: "json_text j = c # cs" "\<not> is_json_space c"
    using assms by (rule json_text_start)
  moreover have "c \<noteq> CHR '']''"
    using c(1) assms
    by (cases j) (auto simp: quote_string_def digit_val_def elim: num_ok_start split: if_splits)
  ultimately show ?thesis by (rule that)
qed

definition sep_end :: "string \<Rightarrow> bool" where
  "sep_end r \<longleftrightarrow> (case r of [] \<Rightarrow> True | c # _ \<Rightarrow> c \<in> {CHR '','', CHR '']'', CHR 0x7D, CHR 0x0A})"

lemma sep_end_num_end: "sep_end r \<Longrightarrow> num_end r"
  by (auto simp: sep_end_def num_end_def digit_val_def split: list.splits)

lemma sep_end_simps [simp]: "sep_end []" "sep_end (CHR '','' # r)" "sep_end (CHR '']'' # r)" "sep_end (CHR 0x7D # r)" "sep_end (CHR 0x0A # r)"
  by (simp_all add: sep_end_def)

lemma parse_elems_text:
  assumes "\<And>v n r. v \<in> set vs \<Longrightarrow> json_fuel v \<le> n \<Longrightarrow> sep_end r \<Longrightarrow>
      parse_value n d (json_text v @ r) = Some (v, r)"
    and "vs \<noteq> []" and "sum_list (map (\<lambda>v. Suc (json_fuel v)) vs) \<le> n"
  shows "parse_elems n d (join_with '','' (map json_text vs) @ CHR '']'' # r) = Some (vs, r)"
  using assms
proof (induction vs arbitrary: n)
  case Nil
  then show ?case by simp
next
  case (Cons v vs)
  from Cons.prems(3) obtain m where m: "n = Suc m" "json_fuel v \<le> m"
      "sum_list (map (\<lambda>v. Suc (json_fuel v)) vs) \<le> m"
    by (cases n) auto
  show ?case
  proof (cases "vs = []")
    case True
    with Cons.prems(1) [of v m] m show ?thesis by (simp add: is_json_space_def)
  next
    case False
    with Cons.IH [of m] Cons.prems(1) m show ?thesis
      by (simp add: join_with_Cons is_json_space_def)
  qed
qed

lemma parse_members_text:
  assumes "\<And>k v n r. (k, v) \<in> set kvs \<Longrightarrow> json_fuel v \<le> n \<Longrightarrow> sep_end r \<Longrightarrow>
      parse_value n d (json_text v @ r) = Some (v, r)"
    and "\<forall>k \<in> fst ` set kvs. utf8_ok k"
    and "kvs \<noteq> []" and "sum_list (map (\<lambda>(k, v). Suc (json_fuel v)) kvs) \<le> n"
  shows "parse_members n d
      (join_with '','' (map (\<lambda>(k, v). quote_string k @ '':'' @ json_text v) kvs) @ CHR 0x7D # r) =
    Some (kvs, r)"
  using assms
proof (induction kvs arbitrary: n)
  case Nil
  then show ?case by simp
next
  case (Cons kv kvs)
  obtain k v where kv: "kv = (k, v)" by fastforce
  from Cons.prems(4) kv obtain m where m: "n = Suc m" "json_fuel v \<le> m"
      "sum_list (map (\<lambda>(k, v). Suc (json_fuel v)) kvs) \<le> m"
    by (cases n) auto
  have k: "utf8_ok k" using Cons.prems(2) kv by simp
  show ?case
  proof (cases "kvs = []")
    case True
    with Cons.prems(1) [of k v m] m kv scan_escape_string [OF k] show ?thesis
      by (simp add: is_json_space_def quote_string_def)
  next
    case False
    have "parse_members m d
        (join_with '','' (map (\<lambda>(k, v). quote_string k @ '':'' @ json_text v) kvs) @ CHR 0x7D # r) =
      Some (kvs, r)"
      by (rule Cons.IH) (use Cons.prems m False in auto)
    with False Cons.prems(1) [of k v m] m kv scan_escape_string [OF k] show ?thesis
      by (simp add: join_with_Cons is_json_space_def quote_string_def)
  qed
qed


lemma foldr_max_ge: "v \<in> set vs \<Longrightarrow> f v \<le> foldr (\<lambda>v m. max (f v) m) vs (0::nat)"
  by (induction vs) auto

lemma elems_text_start:
  assumes "vs \<noteq> []" and "list_all json_ok vs"
  obtains c cs where "join_with '','' (map json_text vs) = c # cs" "\<not> is_json_space c" "c \<noteq> CHR '']''"
proof -
  obtain v ws where vs: "vs = v # ws" using assms(1) by (cases vs) auto
  with assms(2) obtain c cs where "json_text v = c # cs" "\<not> is_json_space c" "c \<noteq> CHR '']''"
    by (auto elim: json_text_no_close)
  then show ?thesis by (cases ws) (auto simp: vs intro: that)
qed

lemma parse_array_text:
  assumes "vs \<noteq> []" and "list_all json_ok vs" and "d < max_nesting"
    and "parse_elems m (d + 1) (join_with '','' (map json_text vs) @ CHR '']'' # r) = Some (vs, r)"
  shows "parse_value (Suc m) d (json_text (JArr vs) @ r) = Some (JArr vs, r)"
  by (rule elems_text_start [OF assms(1,2)]) (use assms(3,4) in \<open>auto simp: is_json_space_def\<close>)

lemma parse_object_text:
  assumes "kvs \<noteq> []" and "d < max_nesting"
    and "parse_members m (d + 1)
      (join_with '','' (map (\<lambda>(k, v). quote_string k @ '':'' @ json_text v) kvs) @ CHR 0x7D # r) = Some (kvs, r)"
  shows "parse_value (Suc m) d (json_text (JObj kvs) @ r) = Some (JObj kvs, r)"
proof -
  obtain cs where "join_with '','' (map (\<lambda>(k, v). quote_string k @ '':'' @ json_text v) kvs) = CHR 0x22 # cs"
    using assms(1) by (cases kvs; cases "tl kvs") (auto simp: quote_string_def)
  with assms(2,3) show ?thesis by (auto simp: is_json_space_def)
qed

lemma parse_number_text:
  assumes "num_ok l" and "sep_end r"
  shows "parse_value (Suc m) d (json_text (JNum l) @ r) = Some (JNum l, r)"
proof -
  obtain c cs where c: "l = c # cs" "c = CHR ''-'' \<or> digit_val c \<noteq> None"
    using assms(1) by (rule num_ok_start)
  have "c \<noteq> CHR 0x7B \<and> c \<noteq> CHR ''['' \<and> c \<noteq> CHR 0x22 \<and> c \<noteq> CHR ''n'' \<and> c \<noteq> CHR ''t'' \<and> c \<noteq> CHR ''f''"
    using c(2) by (auto simp: digit_val_def)
  moreover have "scan_number (l @ r) = Some (l, r)"
    using scan_number_append [OF _ sep_end_num_end [OF assms(2)]] assms(1) by (auto simp: num_ok_def)
  moreover have "skip_ws (l @ r) = l @ r" using num_ok_no_space assms(1) c(1) by auto
  ultimately show ?thesis by (auto simp: c(1) parse_scalar_def)
qed

lemma parse_value_text:
  "json_ok j \<Longrightarrow> json_fuel j \<le> n \<Longrightarrow> d + json_depth j \<le> max_nesting \<Longrightarrow> sep_end r \<Longrightarrow>
    parse_value n d (json_text j @ r) = Some (j, r)"
proof (induction j arbitrary: n d r)
  case JNull
  then show ?case by (cases n) (auto simp: is_json_space_def parse_scalar_def)
next
  case (JBool b)
  then show ?case by (cases n; cases b) (auto simp: is_json_space_def parse_scalar_def)
next
  case (JNum l)
  then show ?case by (cases n) (simp_all add: parse_number_text del: json_text.simps parse_value.simps)
next
  case (JStr s)
  then obtain m where n: "n = Suc m" by (cases n) auto
  from JStr show ?case by (simp add: n quote_string_def scan_escape_string is_json_space_def parse_scalar_def)
next
  case (JArr vs)
  then obtain m where n: "n = Suc m" by (cases n) auto
  show ?case
  proof (cases "vs = []")
    case True
    with JArr.prems n show ?thesis by (simp add: is_json_space_def)
  next
    case False
    have "parse_elems m (d + 1) (join_with '','' (map json_text vs) @ CHR '']'' # r) = Some (vs, r)"
    proof (rule parse_elems_text)
      fix v k q
      assume "v \<in> set vs" "json_fuel v \<le> k" "sep_end q"
      with JArr n foldr_max_ge [of v vs json_depth]
      show "parse_value k (d + 1) (json_text v @ q) = Some (v, q)" by simp
    qed (use JArr.prems n False in auto)
    with False JArr.prems n show ?thesis
      by (simp only:) (rule parse_array_text; simp add: list_all_iff)
  qed
next
  case (JObj kvs)
  then obtain m where n: "n = Suc m" by (cases n) auto
  show ?case
  proof (cases "kvs = []")
    case True
    with JObj.prems n show ?thesis by (simp add: is_json_space_def)
  next
    case False
    let ?body = "join_with '','' (map (\<lambda>(k, v). quote_string k @ '':'' @ json_text v) kvs)"
    have "parse_members m (d + 1) (?body @ CHR 0x7D # r) = Some (kvs, r)"
    proof (rule parse_members_text)
      fix k v i q
      assume "(k, v) \<in> set kvs" "json_fuel v \<le> i" "sep_end q"
      with JObj n foldr_max_ge [of "(k, v)" kvs "\<lambda>(k, v). json_depth v"]
      show "parse_value i (d + 1) (json_text v @ q) = Some (v, q)"
        by (fastforce simp: case_prod_beta')
    qed (use JObj.prems n False in auto)
    with False JObj.prems n show ?thesis
      by (simp only:) (rule parse_object_text; simp)
  qed
qed

lemma json_fuel_length: "json_ok j \<Longrightarrow> json_fuel j \<le> 2 * length (json_text j)"
proof (induction j)
  case (JNum l)
  then show ?case by (auto elim: num_ok_start)
next
  case (JArr vs)
  have "sum_list (map (\<lambda>v. Suc (json_fuel v)) vs) \<le> 2 * length (join_with '','' (map json_text vs)) + 2"
    using JArr
  proof (induction vs)
    case (Cons v vs)
    then show ?case by (cases vs) (fastforce simp: join_with_Cons)+
  qed simp
  then show ?case by simp
next
  case (JObj kvs)
  have "sum_list (map (\<lambda>(k, v). Suc (json_fuel v)) kvs) \<le>
      2 * length (join_with '','' (map (\<lambda>(k, v). quote_string k @ '':'' @ json_text v) kvs)) + 2"
    using JObj
  proof (induction kvs)
    case (Cons kv kvs)
    obtain k v where kv: "kv = (k, v)" by fastforce
    with Cons show ?case by (cases kvs) (fastforce simp: join_with_Cons)+
  qed simp
  then show ?case by simp
qed (auto simp: quote_string_def)

lemma skip_ws_length: "length (skip_ws s) \<le> length s"
  by (induction s) auto

lemma parse_json_text:
  assumes "json_ok j" and "json_depth j \<le> max_nesting" and "\<forall>c \<in> set w. is_json_space c" and "sep_end w"
  shows "parse_json (json_text j @ w) = Some j"
proof -
  have "parse_value (2 * length (json_text j @ w) + 2) 0 (json_text j @ w) = Some (j, w)"
    by (rule parse_value_text) (use assms json_fuel_length [of j] in auto)
  moreover have "skip_ws w = []" using assms(3) by (induction w) auto
  ultimately show ?thesis by (simp add: parse_json_def)
qed

section \<open>The bound on calls is enough\<close>

lemma put_front_Some: "put_front t x = Some (s, r) \<Longrightarrow> \<exists>s'. x = Some (s', r)"
  by (cases x) auto

lemma scan_string_length: "scan_string s = Some (t, r) \<Longrightarrow> length r < length s"
proof (induction "length s" arbitrary: s t rule: less_induct)
  case less
  then have IH: "scan_string u = Some (x, r) \<Longrightarrow> length u < length s \<longrightarrow> length r < length u" for u x
    by blast
  show ?case
  proof (cases s)
    case Nil
    with less.prems show ?thesis by (simp add: scan_string.simps)
  next
    case (Cons c cs)
    show ?thesis
      using less.prems IH unfolding Cons
      by (subst (asm) scan_string.simps)
        (fastforce split: if_splits list.splits option.splits dest!: put_front_Some)
  qed
qed

lemma span_digits_length: "span_digits s = (ds, r) \<Longrightarrow> length r + length ds = length s"
  by (induction s arbitrary: ds) (auto split: if_splits prod.splits)

lemma scan_frac_length: "scan_frac s = Some (ds, r) \<Longrightarrow> length r \<le> length s"
  by (auto simp: scan_frac_def dest!: span_digits_length split: list.splits if_splits prod.splits)

lemma scan_exp_length: "scan_exp s = Some (ds, r) \<Longrightarrow> length r \<le> length s"
  by (auto simp: scan_exp_def Let_def dest!: span_digits_length split: list.splits if_splits prod.splits)

lemma scan_int_part_length: "scan_int_part s = (ip, r) \<Longrightarrow> length r + length ip = length s"
  by (auto simp: scan_int_part_def dest!: span_digits_length split: list.splits if_splits simp del: span_digits.simps)

lemma scan_sign_length: "scan_sign s = (ip, r) \<Longrightarrow> length r \<le> length s"
  by (auto simp: scan_sign_def split: list.splits if_splits)

lemma scan_number_length: "scan_number s = Some (l, r) \<Longrightarrow> length r < length s"
proof -
  assume s: "scan_number s = Some (l, r)"
  obtain sg s1 where 1: "scan_sign s = (sg, s1)" by fastforce
  obtain ip s2 where 2: "scan_int_part s1 = (ip, s2)" by fastforce
  from s 1 2 obtain fp s3 ep where "ip \<noteq> []" "scan_frac s2 = Some (fp, s3)" "scan_exp s3 = Some (ep, r)"
    by (auto simp: scan_number_def split: if_splits option.splits)
  with scan_sign_length [OF 1] scan_int_part_length [OF 2] show ?thesis
    by (cases ip) (auto dest!: scan_frac_length scan_exp_length)
qed

lemma parse_scalar_length: "parse_scalar c cs = Some (v, r) \<Longrightarrow> length r < length (c # cs)"
  unfolding parse_scalar_def
  by (auto split: if_splits option.splits dest: scan_string_length scan_number_length
      simp del: is_prefix.simps)

lemma skip_ws_Cons_length: "skip_ws u = c # cs \<Longrightarrow> length cs < length u"
  using skip_ws_length [of u] by simp

lemma parse_length:
  "parse_value n d s = Some (v, r) \<Longrightarrow> length r < length s"
  "parse_elems n d s = Some (vs, r) \<Longrightarrow> length r < length s"
  "parse_members n d s = Some (kvs, r) \<Longrightarrow> length r < length s"
proof (induction n arbitrary: d s v vs kvs r)
  case (Suc n)
  note shorter = skip_ws_Cons_length scan_string_length parse_scalar_length Suc.IH
  { case 1
    then show ?case
      by (auto split: list.splits if_splits option.splits dest!: shorter) }
  { case 2
    then show ?case
      by (auto split: list.splits if_splits option.splits dest!: shorter) }
  { case 3
    then show ?case
      by (auto split: list.splits if_splits option.splits dest!: shorter) }
qed auto

lemma fuel_elems_step:
  assumes v: "parse_value (Suc n) d s = parse_value n d s"
    and rest: "\<And>x r c cs. parse_value n d s = Some (x, r) \<Longrightarrow> skip_ws r = c # cs \<Longrightarrow>
      parse_elems (Suc n) d cs = parse_elems n d cs"
  shows "parse_elems (Suc (Suc n)) d s = parse_elems (Suc n) d s"
proof (cases "parse_value n d s")
  case None
  then show ?thesis
    unfolding parse_elems.simps(2) [of "Suc n"] parse_elems.simps(2) [of n] v by simp
next
  case (Some vr)
  obtain x r where "vr = (x, r)" by fastforce
  with Some rest show ?thesis
    unfolding parse_elems.simps(2) [of "Suc n"] parse_elems.simps(2) [of n] v
    by (cases "skip_ws r") (simp_all del: parse_value.simps parse_elems.simps)
qed

lemma fuel_members_step:
  assumes s: "skip_ws s = c # cs" "scan_string cs = Some (k, r)" "skip_ws r = a # as"
    and v: "parse_value (Suc n) d as = parse_value n d as"
    and rest: "\<And>x q b bs. parse_value n d as = Some (x, q) \<Longrightarrow> skip_ws q = b # bs \<Longrightarrow>
      parse_members (Suc n) d bs = parse_members n d bs"
  shows "parse_members (Suc (Suc n)) d s = parse_members (Suc n) d s"
proof (cases "parse_value n d as")
  case None
  with s v show ?thesis
    unfolding parse_members.simps(2) [of "Suc n"] parse_members.simps(2) [of n]
    by (simp del: parse_value.simps parse_members.simps)
next
  case (Some vq)
  obtain x q where "vq = (x, q)" by fastforce
  with s v Some rest show ?thesis
    unfolding parse_members.simps(2) [of "Suc n"] parse_members.simps(2) [of n]
    by (cases "skip_ws q") (simp_all del: parse_value.simps parse_members.simps)
qed

lemma members_stop:
  assumes "\<nexists>c cs k r a as. skip_ws s = c # cs \<and> scan_string cs = Some (k, r) \<and> skip_ws r = a # as"
  shows "parse_members (Suc n) d s = None"
  using assms by (auto split: list.splits option.splits)

lemma parse_fuel_Suc:
  "2 * length s < n \<Longrightarrow> parse_value (Suc n) d s = parse_value n d s"
  "2 * length s + 1 < n \<Longrightarrow> parse_elems (Suc n) d s = parse_elems n d s"
  "2 * length s + 1 < n \<Longrightarrow> parse_members (Suc n) d s = parse_members n d s"
proof (induction n arbitrary: d s)
  case (Suc n)
  { case 1
    have ws: "2 * length (c # cs) + 1 < n" if "skip_ws u = b # bs" "skip_ws bs = c # cs" "2 * length u < Suc n" for u b bs c cs
      using that skip_ws_length [of u] skip_ws_length [of bs] by simp
    show ?case
      using 1 Suc.IH(2,3) [OF ws [of s]]
      by (subst (1 2) parse_value.simps) (auto split: list.splits simp del: parse_value.simps parse_elems.simps parse_members.simps) }
  { case 2
    show ?case
    proof (rule fuel_elems_step)
      show "parse_elems (Suc n) d cs = parse_elems n d cs"
        if "parse_value n d s = Some (x, r)" "skip_ws r = c # cs" for x r c cs
        by (rule Suc.IH(2)) (use 2 that parse_length(1) [of n d s x r] skip_ws_length [of r] in simp)
    qed (rule Suc.IH(1), use 2 in simp) }
  { case 3
    show ?case
    proof (cases "\<exists>c cs k r a as. skip_ws s = c # cs \<and> scan_string cs = Some (k, r) \<and> skip_ws r = a # as")
      case False
      show ?thesis unfolding members_stop [OF False] by (rule refl)
    next
      case True
      then obtain c cs k r a as where
        s: "skip_ws s = c # cs" "scan_string cs = Some (k, r)" "skip_ws r = a # as" by blast
      then have len: "length as + 2 < length s"
        using skip_ws_length [of s] skip_ws_length [of r] scan_string_length [of cs k r] by simp
      show ?thesis
      proof (rule fuel_members_step [OF s])
        show "parse_members (Suc n) d bs = parse_members n d bs"
          if "parse_value n d as = Some (x, q)" "skip_ws q = b # bs" for x q b bs
          by (rule Suc.IH(3)) (use 3 that len parse_length(1) [of n d as x q] skip_ws_length [of q] in simp)
      qed (rule Suc.IH(1), use 3 len in simp)
    qed }
qed auto

lemma parse_fuel: "2 * length s < n \<Longrightarrow> parse_value n d s = parse_value (2 * length s + 2) d s"
proof (induction n)
  case (Suc n)
  show ?case
  proof (cases "2 * length s < n")
    case True
    with Suc.IH parse_fuel_Suc(1) [OF True] show ?thesis by simp
  next
    case False
    with Suc.prems have "Suc n = 2 * length s + 1" by simp
    with parse_fuel_Suc(1) [of s "2 * length s + 1"] show ?thesis by simp
  qed
qed simp

lemma hex_lower_no_newline [simp]: "k < 16 \<Longrightarrow> CHR 0x0A \<noteq> hex_lower k"
proof -
  assume "k < 16"
  then have "hex_lower k \<in> set ''0123456789abcdef''"
    unfolding hex_lower_def by (intro nth_mem) simp
  then show ?thesis by auto
qed

lemma u_escape_no_newline [simp]: "CHR 0x0A \<notin> set (u_escape u)"
  by (simp add: u_escape_def)

lemma escape_ascii_no_newline [simp]: "CHR 0x0A \<notin> set (escape_ascii c)"
  by (auto simp: escape_ascii_def)

lemma utf8_seq_high:
  "utf8_seq2 a b \<Longrightarrow> 128 \<le> byte b"
  "utf8_seq3 a b c \<Longrightarrow> 128 \<le> byte b \<and> 128 \<le> byte c"
  "utf8_seq4 a b c d \<Longrightarrow> 128 \<le> byte b \<and> 128 \<le> byte c \<and> 128 \<le> byte d"
  by (auto simp: utf8_seq2_def utf8_seq3_def utf8_seq4_def is_cont_def between_def split: if_splits)

lemma utf8_len_high:
  "\<not> byte c < 128 \<Longrightarrow> x \<in> set (take (utf8_len (c # cs)) (c # cs)) \<Longrightarrow> 128 \<le> byte x"
  by (auto simp: utf8_len.simps dest: utf8_seq_high split: list.splits if_splits)

lemma escape_string_no_newline [simp]: "CHR 0x0A \<notin> set (escape_string s)"
proof (induction s rule: escape_string.induct)
  case (2 c cs)
  have "CHR 0x0A \<notin> set (take (utf8_len (c # cs)) (c # cs))" if "\<not> byte c < 128"
    using utf8_len_high [OF that, of "CHR 0x0A" cs] by (auto simp: byte_def)
  with 2 show ?case by (simp add: escape_string.simps)
qed (simp add: escape_string.simps)

lemma join_with_notin:
  "c \<notin> set sep \<Longrightarrow> \<forall>w \<in> set ws. c \<notin> set w \<Longrightarrow> c \<notin> set (join_with sep ws)"
  by (induction sep ws rule: join_with.induct) auto

fun numbers_inline :: "json \<Rightarrow> bool" where
  "numbers_inline (JNum l) = (CHR 0x0A \<notin> set l)"
| "numbers_inline (JArr vs) = (\<forall>v \<in> set vs. numbers_inline v)"
| "numbers_inline (JObj kvs) = (\<forall>(k, v) \<in> set kvs. numbers_inline v)"
| "numbers_inline v = True"

lemma json_text_no_newline: "numbers_inline j \<Longrightarrow> CHR 0x0A \<notin> set (json_text j)"
proof (induction j)
  case (JArr vs)
  then show ?case by (simp add: join_with_notin)
next
  case (JObj kvs)
  have "CHR 0x0A \<notin> set (quote_string k @ '':'' @ json_text v)" if "(k, v) \<in> set kvs" for k v
    using JObj.IH [of "(k, v)" v] JObj.prems that by (auto simp: quote_string_def)
  then have "CHR 0x0A \<notin>
      set (join_with '','' (map (\<lambda>(k, v). quote_string k @ '':'' @ json_text v) kvs))"
    by (intro join_with_notin) auto
  then show ?case by simp
qed (auto simp: quote_string_def)

end
