(* ===== verification/Protocol.thy ===== *)
theory Protocol
  imports Json_Roundtrip
begin

text \<open>
  \<open>internal/protocol\<close>: the closed set of error codes, the error value that carries one, and
  the request and response frames of the wire, with the text the server writes for a response.
\<close>

section \<open>Codes (codes.go)\<close>

definition CodeAuth :: string where "CodeAuth = ''auth''"
definition CodeNotFound :: string where "CodeNotFound = ''not_found''"
definition CodeRateLimited :: string where "CodeRateLimited = ''rate_limited''"
definition CodeNetwork :: string where "CodeNetwork = ''network''"
definition CodeGHMissing :: string where "CodeGHMissing = ''gh_missing''"
definition CodeInternal :: string where "CodeInternal = ''internal''"
definition CodeBadRequest :: string where "CodeBadRequest = ''bad_request''"
definition CodeConflict :: string where "CodeConflict = ''conflict''"

definition closed_codes :: "string list" where
  "closed_codes =
     [CodeAuth, CodeNotFound, CodeRateLimited, CodeNetwork, CodeGHMissing, CodeInternal,
      CodeBadRequest, CodeConflict]"

lemmas code_defs =
  CodeAuth_def CodeNotFound_def CodeRateLimited_def CodeNetwork_def CodeGHMissing_def
  CodeInternal_def CodeBadRequest_def CodeConflict_def

lemma codes_closed [simp]:
  "CodeAuth \<in> set closed_codes" "CodeNotFound \<in> set closed_codes"
  "CodeRateLimited \<in> set closed_codes" "CodeNetwork \<in> set closed_codes"
  "CodeGHMissing \<in> set closed_codes" "CodeInternal \<in> set closed_codes"
  "CodeBadRequest \<in> set closed_codes" "CodeConflict \<in> set closed_codes"
  by (simp_all add: closed_codes_def)

section \<open>Errors\<close>

record perror =
  pe_Code :: string
  pe_Message :: string
  pe_RetryAfter :: int

definition NewError :: "string \<Rightarrow> string \<Rightarrow> perror" where
  "NewError code message = \<lparr>pe_Code = code, pe_Message = message, pe_RetryAfter = 0\<rparr>"

definition RateLimited :: "string \<Rightarrow> int \<Rightarrow> perror" where
  "RateLimited message retryAfter =
     \<lparr>pe_Code = CodeRateLimited, pe_Message = message, pe_RetryAfter = retryAfter\<rparr>"

lemma perror_simps [simp]:
  "pe_Code (NewError c m) = c" "pe_Message (NewError c m) = m" "pe_RetryAfter (NewError c m) = 0"
  "pe_Code (RateLimited m n) = CodeRateLimited" "pe_Message (RateLimited m n) = m"
  "pe_RetryAfter (RateLimited m n) = n"
  by (simp_all add: NewError_def RateLimited_def)

text \<open>A Go \<open>error\<close> is a \<open>*protocol.Error\<close> or something else that only has a text.\<close>

datatype gerr = Coded perror | Plain string

definition newError :: "string \<Rightarrow> string \<Rightarrow> gerr" where
  "newError code message = Coded (NewError code message)"

fun closed_err :: "gerr \<Rightarrow> bool" where
  "closed_err (Coded p) = (pe_Code p \<in> set closed_codes)"
| "closed_err (Plain s) = False"

lemma closed_newError [simp]: "closed_err (newError c m) = (c \<in> set closed_codes)"
  by (simp add: newError_def)

section \<open>Frames (frame.go)\<close>

text \<open>\<open>Version\<close>, and \<open>Binary\<close> as an unstamped build has it (version.go).\<close>

definition Version :: int where "Version = 1"
definition Binary :: string where "Binary = ''dev''"

record request =
  rq_ID :: int
  rq_Method :: string
  rq_Params :: "json option"

definition request_fields :: "request fields" where
  "request_fields =
     [fld ''id'' rq_ID rq_ID_update dec_int,
      fld ''method'' rq_Method rq_Method_update dec_string,
      fld ''params'' rq_Params rq_Params_update dec_raw]"

definition zero_request :: request where
  "zero_request = \<lparr>rq_ID = 0, rq_Method = [], rq_Params = None\<rparr>"

definition decode_request :: "string \<Rightarrow> request option" where
  "decode_request line = unmarshal line (dec_struct request_fields) zero_request"

record rpc_error =
  re_Code :: string
  re_Message :: string
  re_RetryAfter :: int

record 'a response =
  rs_ID :: int
  rs_Result :: "'a option"
  rs_Error :: "rpc_error option"

definition json_int :: "int \<Rightarrow> json" where
  "json_int i = JNum (itoa i)"

definition rpc_error_json :: "rpc_error \<Rightarrow> json" where
  "rpc_error_json e =
     JObj ([(''code'', JStr (re_Code e)), (''message'', JStr (re_Message e))] @
           (if re_RetryAfter e = 0 then [] else [(''retry_after'', json_int (re_RetryAfter e))]))"

definition response_json :: "('a \<Rightarrow> json) \<Rightarrow> 'a response \<Rightarrow> json" where
  "response_json enc r =
     JObj ([(''id'', json_int (rs_ID r))] @
           (case rs_Result r of None \<Rightarrow> [] | Some x \<Rightarrow> [(''result'', enc x)]) @
           (case rs_Error r of None \<Rightarrow> [] | Some e \<Rightarrow> [(''error'', rpc_error_json e)]))"

text \<open>What \<open>json.Encoder.Encode\<close> writes for one response: its text and a line feed.\<close>

definition encode_response :: "('a \<Rightarrow> json) \<Rightarrow> 'a response \<Rightarrow> string" where
  "encode_response enc r = json_text (response_json enc r) @ [CHR 0x0A]"

lemma digit_char_props: "n < 10 \<Longrightarrow> digit_char n \<noteq> CHR 0x0A"
  using digit_val_digit_char [of n] by (auto simp: digit_val_def)

lemma nat_str_no_newline [simp]: "CHR 0x0A \<notin> set (nat_str n)"
proof (induction n rule: nat_str.induct)
  case (1 n)
  then show ?case
    using digit_char_props [of n] digit_char_props [of "n mod 10"]
    by (subst nat_str.simps) auto
qed

lemma itoa_no_newline [simp]: "CHR 0x0A \<notin> set (itoa i)"
  by (auto simp: itoa_def)

lemma response_numbers_inline:
  "(\<And>x. rs_Result r = Some x \<Longrightarrow> numbers_inline (enc x)) \<Longrightarrow>
    numbers_inline (response_json enc r)"
  by (auto simp: response_json_def rpc_error_json_def json_int_def split: option.splits)

lemma encode_response_one_line:
  assumes "\<And>x. rs_Result r = Some x \<Longrightarrow> numbers_inline (enc x)"
  shows "\<exists>l. encode_response enc r = l @ [CHR 0x0A] \<and> CHR 0x0A \<notin> set l"
proof -
  have "numbers_inline (response_json enc r)"
    by (rule response_numbers_inline) (rule assms)
  then show ?thesis
    by (simp add: encode_response_def json_text_no_newline)
qed

end
