(* ===== verification/Results.thy ===== *)
theory Results
  imports Protocol
begin

text \<open>
  \<open>internal/github/results.go\<close>: the client-facing result shapes, one record per struct, each
  with the JSON its \<open>json:\<close> tags give it (\<open>omitempty\<close> fields are left out when zero).
\<close>

definition opt_str :: "string \<Rightarrow> string \<Rightarrow> (string \<times> json) list" where
  "opt_str k s = (if s = [] then [] else [(k, JStr s)])"

definition opt_int :: "string \<Rightarrow> int \<Rightarrow> (string \<times> json) list" where
  "opt_int k i = (if i = 0 then [] else [(k, json_int i)])"

definition opt_bool :: "string \<Rightarrow> bool \<Rightarrow> (string \<times> json) list" where
  "opt_bool k b = (if b then [(k, JBool True)] else [])"

section \<open>Pull requests and files\<close>

record PR =
  pr_Number :: int
  pr_Title :: string
  pr_Author :: string
  pr_HeadRef :: string
  pr_UpdatedAt :: string
  pr_Draft :: bool

definition PR_json :: "PR \<Rightarrow> json" where
  "PR_json p = JObj
     [(''number'', json_int (pr_Number p)), (''title'', JStr (pr_Title p)),
      (''author'', JStr (pr_Author p)), (''head_ref'', JStr (pr_HeadRef p)),
      (''updated_at'', JStr (pr_UpdatedAt p)), (''draft'', JBool (pr_Draft p))]"

record PRFile =
  pf_Path :: string
  pf_Status :: string
  pf_Additions :: int
  pf_Deletions :: int
  pf_PreviousPath :: string
  pf_ViewedState :: string

definition PRFile_json :: "PRFile \<Rightarrow> json" where
  "PRFile_json f = JObj
     ([(''path'', JStr (pf_Path f)), (''status'', JStr (pf_Status f)),
       (''additions'', json_int (pf_Additions f)), (''deletions'', json_int (pf_Deletions f))] @
      opt_str ''previous_path'' (pf_PreviousPath f) @
      [(''viewed_state'', JStr (pf_ViewedState f))])"

record PRDetail =
  pd_Title :: string
  pd_Body :: string
  pd_Author :: string
  pd_BaseSHA :: string
  pd_HeadSHA :: string
  pd_HeadRef :: string
  pd_URL :: string
  pd_State :: string
  pd_Draft :: bool
  pd_Mergeable :: string
  pd_Files :: "PRFile list"

definition PRDetail_json :: "PRDetail \<Rightarrow> json" where
  "PRDetail_json d = JObj
     [(''title'', JStr (pd_Title d)), (''body'', JStr (pd_Body d)), (''author'', JStr (pd_Author d)),
      (''base_sha'', JStr (pd_BaseSHA d)), (''head_sha'', JStr (pd_HeadSHA d)),
      (''head_ref'', JStr (pd_HeadRef d)), (''url'', JStr (pd_URL d)),
      (''state'', JStr (pd_State d)), (''draft'', JBool (pd_Draft d)),
      (''mergeable'', JStr (pd_Mergeable d)), (''files'', JArr (map PRFile_json (pd_Files d)))]"

record FileBlob =
  fb_Content :: string
  fb_Missing :: bool

definition FileBlob_json :: "FileBlob \<Rightarrow> json" where
  "FileBlob_json b = JObj ([(''content'', JStr (fb_Content b))] @ opt_bool ''missing'' (fb_Missing b))"

record FileVersions =
  fv_Base :: FileBlob
  fv_Head :: FileBlob
  fv_Truncated :: bool

definition FileVersions_json :: "FileVersions \<Rightarrow> json" where
  "FileVersions_json v = JObj
     ([(''base'', FileBlob_json (fv_Base v)), (''head'', FileBlob_json (fv_Head v))] @
      opt_bool ''truncated'' (fv_Truncated v))"

section \<open>Threads and reviews\<close>

record NewestComment =
  nc_NodeID :: string
  nc_Body :: string

definition NewestComment_json :: "NewestComment \<Rightarrow> json" where
  "NewestComment_json c = JObj [(''node_id'', JStr (nc_NodeID c)), (''body'', JStr (nc_Body c))]"

record ThreadComment =
  tc_ID :: int
  tc_NodeID :: string
  tc_Author :: string
  tc_Body :: string
  tc_CreatedAt :: string
  tc_DiffHunk :: string

definition ThreadComment_json :: "ThreadComment \<Rightarrow> json" where
  "ThreadComment_json c = JObj
     ([(''id'', json_int (tc_ID c)), (''node_id'', JStr (tc_NodeID c)),
       (''author'', JStr (tc_Author c)), (''body'', JStr (tc_Body c)),
       (''created_at'', JStr (tc_CreatedAt c))] @ opt_str ''diff_hunk'' (tc_DiffHunk c))"

record Thread =
  th_ID :: int
  th_ThreadID :: string
  th_Path :: string
  th_Side :: string
  th_Line :: int
  th_StartSide :: string
  th_StartLine :: int
  th_Outdated :: bool
  th_OriginalLine :: int
  th_Resolved :: bool
  th_IsPending :: bool
  th_Comments :: "ThreadComment list"
  th_CommentsTruncated :: bool
  th_NewestComment :: "NewestComment option"

definition Thread_json :: "Thread \<Rightarrow> json" where
  "Thread_json t = JObj
     ([(''id'', json_int (th_ID t)), (''thread_id'', JStr (th_ThreadID t)),
       (''path'', JStr (th_Path t)), (''side'', JStr (th_Side t)), (''line'', json_int (th_Line t))] @
      opt_str ''start_side'' (th_StartSide t) @ opt_int ''start_line'' (th_StartLine t) @
      [(''outdated'', JBool (th_Outdated t))] @ opt_int ''original_line'' (th_OriginalLine t) @
      [(''resolved'', JBool (th_Resolved t)), (''is_pending'', JBool (th_IsPending t)),
       (''comments'', JArr (map ThreadComment_json (th_Comments t))),
       (''comments_truncated'', JBool (th_CommentsTruncated t))] @
      (case th_NewestComment t of None \<Rightarrow> [] | Some c \<Rightarrow> [(''newest_comment'', NewestComment_json c)]))"

record PendingComment =
  pc_ID :: int
  pc_Path :: string
  pc_Side :: string
  pc_Line :: int
  pc_StartSide :: string
  pc_StartLine :: int
  pc_Body :: string

definition PendingComment_json :: "PendingComment \<Rightarrow> json" where
  "PendingComment_json c = JObj
     ([(''id'', json_int (pc_ID c)), (''path'', JStr (pc_Path c)), (''side'', JStr (pc_Side c)),
       (''line'', json_int (pc_Line c))] @
      opt_str ''start_side'' (pc_StartSide c) @ opt_int ''start_line'' (pc_StartLine c) @
      [(''body'', JStr (pc_Body c))])"

record PendingReview =
  pv_ReviewID :: "string option"
  pv_Comments :: "PendingComment list"

definition PendingReview_json :: "PendingReview \<Rightarrow> json" where
  "PendingReview_json r = JObj
     ([(''review_id'', case pv_ReviewID r of None \<Rightarrow> JNull | Some i \<Rightarrow> JStr i)] @
      (if pv_Comments r = [] then []
       else [(''comments'', JArr (map PendingComment_json (pv_Comments r)))]))"

section \<open>Checks and the timeline\<close>

record Check =
  ch_Name :: string
  ch_Status :: string
  ch_Conclusion :: string
  ch_URL :: string
  ch_StartedAt :: string

definition Check_json :: "Check \<Rightarrow> json" where
  "Check_json c = JObj
     ([(''name'', JStr (ch_Name c)), (''status'', JStr (ch_Status c)),
       (''conclusion'', JStr (ch_Conclusion c)), (''url'', JStr (ch_URL c))] @
      opt_str ''started_at'' (ch_StartedAt c))"

record Checks =
  ck_Rollup :: string
  ck_Checks :: "Check list"

definition Checks_json :: "Checks \<Rightarrow> json" where
  "Checks_json c = JObj
     [(''rollup'', JStr (ck_Rollup c)), (''checks'', JArr (map Check_json (ck_Checks c)))]"

record TimelineComment =
  tm_Author :: string
  tm_Body :: string
  tm_CreatedAt :: string

definition TimelineComment_json :: "TimelineComment \<Rightarrow> json" where
  "TimelineComment_json c = JObj
     [(''author'', JStr (tm_Author c)), (''body'', JStr (tm_Body c)),
      (''created_at'', JStr (tm_CreatedAt c))]"

record ReviewSummary =
  rv_Author :: string
  rv_State :: string
  rv_Body :: string
  rv_CreatedAt :: string

definition ReviewSummary_json :: "ReviewSummary \<Rightarrow> json" where
  "ReviewSummary_json r = JObj
     [(''author'', JStr (rv_Author r)), (''state'', JStr (rv_State r)),
      (''body'', JStr (rv_Body r)), (''created_at'', JStr (rv_CreatedAt r))]"

record Timeline =
  tl_Comments :: "TimelineComment list"
  tl_Reviews :: "ReviewSummary list"

definition Timeline_json :: "Timeline \<Rightarrow> json" where
  "Timeline_json t = JObj
     [(''comments'', JArr (map TimelineComment_json (tl_Comments t))),
      (''reviews'', JArr (map ReviewSummary_json (tl_Reviews t)))]"

section \<open>Mutations\<close>

record PostCommentInput =
  in_Path :: string
  in_Side :: string
  in_Line :: int
  in_Body :: string
  in_StartSide :: string
  in_StartLine :: int
  in_InReplyTo :: string
  in_ReviewID :: string

record PostComment_res =
  po_ID :: int
  po_ThreadID :: string
  po_ReviewID :: string

definition PostComment_json :: "PostComment_res \<Rightarrow> json" where
  "PostComment_json p = JObj
     ([(''id'', json_int (po_ID p)), (''thread_id'', JStr (po_ThreadID p))] @
      opt_str ''review_id'' (po_ReviewID p))"

record PostIssueComment_res =
  pi_ID :: int

definition PostIssueComment_json :: "PostIssueComment_res \<Rightarrow> json" where
  "PostIssueComment_json p = JObj [(''id'', json_int (pi_ID p))]"

record ResolveThread_res =
  rt_Resolved :: bool

definition ResolveThread_json :: "ResolveThread_res \<Rightarrow> json" where
  "ResolveThread_json r = JObj [(''resolved'', JBool (rt_Resolved r))]"

record SetFileViewed_res =
  sv_ViewedState :: string

definition SetFileViewed_json :: "SetFileViewed_res \<Rightarrow> json" where
  "SetFileViewed_json r = JObj [(''viewed_state'', JStr (sv_ViewedState r))]"

record Merge =
  mg_Merged :: bool
  mg_SHA :: string

definition Merge_json :: "Merge \<Rightarrow> json" where
  "Merge_json m = JObj ([(''merged'', JBool (mg_Merged m))] @ opt_str ''sha'' (mg_SHA m))"

record SetPRState_res =
  ss_State :: string

definition SetPRState_json :: "SetPRState_res \<Rightarrow> json" where
  "SetPRState_json r = JObj [(''state'', JStr (ss_State r))]"

record StartReview_res =
  sr_ReviewID :: string

definition StartReview_json :: "StartReview_res \<Rightarrow> json" where
  "StartReview_json r = JObj [(''review_id'', JStr (sr_ReviewID r))]"

record SubmitReview_res =
  su_ID :: int

definition SubmitReview_json :: "SubmitReview_res \<Rightarrow> json" where
  "SubmitReview_json r = JObj [(''id'', json_int (su_ID r))]"

section \<open>No result's text can break a frame\<close>

lemmas result_json_defs =
  PR_json_def PRFile_json_def PRDetail_json_def FileBlob_json_def FileVersions_json_def
  NewestComment_json_def ThreadComment_json_def Thread_json_def PendingComment_json_def
  PendingReview_json_def Check_json_def Checks_json_def TimelineComment_json_def
  ReviewSummary_json_def Timeline_json_def PostComment_json_def PostIssueComment_json_def
  ResolveThread_json_def SetFileViewed_json_def Merge_json_def SetPRState_json_def
  StartReview_json_def SubmitReview_json_def opt_str_def opt_int_def opt_bool_def json_int_def

end
