(* ===== verification/Cache.thy ===== *)
theory Cache
  imports Results
begin

text \<open>
  \<open>internal/github/cache.go\<close>: the blob memo.  The Go value is a map from keys to list elements
  and a doubly linked list of entries; here an element is an address in the store
  \<open>cc_heap\<close>, the map and the list both hold addresses, and \<open>cc_next\<close> is the next fresh one.
  The mutex makes every operation atomic, so an operation is a function on the state.  The
  byte count is an \<open>int\<close>: it never passes the cap by more than one entry's size.
\<close>

section \<open>The cache and its operations\<close>

record blobEntry =
  be_key :: string
  be_blob :: FileBlob
  be_size :: int

definition zero_FileBlob :: FileBlob where
  "zero_FileBlob = \<lparr>fb_Content = [], fb_Missing = False\<rparr>"

definition zero_blobEntry :: blobEntry where
  "zero_blobEntry = \<lparr>be_key = [], be_blob = zero_FileBlob, be_size = 0\<rparr>"

record cache =
  cc_heap :: "nat \<Rightarrow> blobEntry"
  cc_blobs :: "string \<Rightarrow> nat option"
  cc_lru :: "nat list"
  cc_bytes :: int
  cc_limit :: int
  cc_next :: nat

definition maxBlobBytes :: int where
  "maxBlobBytes = 64 * 1024 * 1024"

definition blobSize :: "string \<Rightarrow> FileBlob \<Rightarrow> int" where
  "blobSize key b = int (length key) + int (length (fb_Content b))"

definition newCache :: cache where
  "newCache =
     \<lparr>cc_heap = (\<lambda>_. zero_blobEntry), cc_blobs = (\<lambda>_. None), cc_lru = [], cc_bytes = 0,
      cc_limit = maxBlobBytes, cc_next = 0\<rparr>"

definition blobKey :: "string \<Rightarrow> string \<Rightarrow> string \<Rightarrow> string \<Rightarrow> string" where
  "blobKey owner repo ref path = owner @ ''/'' @ repo @ ''/'' @ ref @ ''/'' @ path"

text \<open>\<open>list.MoveToFront\<close>.\<close>

definition move_to_front :: "nat \<Rightarrow> nat list \<Rightarrow> nat list" where
  "move_to_front el l = el # remove1 el l"

definition blob :: "string \<Rightarrow> cache \<Rightarrow> FileBlob option \<times> cache" where
  "blob key c =
     (case cc_blobs c key of
        None \<Rightarrow> (None, c)
      | Some el \<Rightarrow>
          (Some (be_blob (cc_heap c el)), c\<lparr>cc_lru := move_to_front el (cc_lru c)\<rparr>))"

text \<open>One turn of the loop of \<open>evict\<close>: the coldest entry goes from the list and the map.\<close>

definition evict_back :: "cache \<Rightarrow> cache" where
  "evict_back c =
     (let el = last (cc_lru c); e = cc_heap c el
      in c\<lparr>cc_lru := butlast (cc_lru c),
           cc_blobs := (cc_blobs c)(be_key e := None),
           cc_bytes := cc_bytes c - be_size e\<rparr>)"

function evict :: "cache \<Rightarrow> cache" where
  "evict c =
     (if cc_bytes c > cc_limit c \<and> length (cc_lru c) > 0 then evict (evict_back c) else c)"
  by pat_completeness auto
termination
  by (relation "measure (\<lambda>c. length (cc_lru c))") (auto simp: evict_back_def Let_def)

declare evict.simps [simp del]

definition putBlob :: "string \<Rightarrow> FileBlob \<Rightarrow> cache \<Rightarrow> cache" where
  "putBlob key b c =
     (let size = blobSize key b
      in case cc_blobs c key of
           Some el \<Rightarrow>
             (let e = cc_heap c el
              in evict (c\<lparr>cc_bytes := cc_bytes c + (size - be_size e),
                          cc_heap := (cc_heap c)(el := e\<lparr>be_blob := b, be_size := size\<rparr>),
                          cc_lru := move_to_front el (cc_lru c)\<rparr>))
         | None \<Rightarrow>
             (let el = cc_next c; e = \<lparr>be_key = key, be_blob = b, be_size = size\<rparr>
              in evict (c\<lparr>cc_heap := (cc_heap c)(el := e),
                          cc_lru := el # cc_lru c,
                          cc_blobs := (cc_blobs c)(key \<mapsto> el),
                          cc_bytes := cc_bytes c + size,
                          cc_next := Suc el\<rparr>)))"

definition clearAll :: "cache \<Rightarrow> cache" where
  "clearAll c = c\<lparr>cc_blobs := (\<lambda>_. None), cc_lru := [], cc_bytes := 0\<rparr>"

section \<open>The invariant\<close>

definition sizes :: "cache \<Rightarrow> int" where
  "sizes c = sum_list (map (\<lambda>el. be_size (cc_heap c el)) (cc_lru c))"

text \<open>
  The map and the list hold the same elements, one for each key; sizes are the charges of the
  entries; the counter is their sum; addresses in use are below the next fresh one.
\<close>

definition cache_ok :: "cache \<Rightarrow> bool" where
  "cache_ok c \<longleftrightarrow>
     distinct (cc_lru c) \<and>
     (\<forall>el \<in> set (cc_lru c). el < cc_next c) \<and>
     (\<forall>k el. cc_blobs c k = Some el \<longleftrightarrow> el \<in> set (cc_lru c) \<and> be_key (cc_heap c el) = k) \<and>
     (\<forall>el \<in> set (cc_lru c).
        be_size (cc_heap c el) = blobSize (be_key (cc_heap c el)) (be_blob (cc_heap c el))) \<and>
     cc_bytes c = sizes c"

lemma cache_okI [intro?]:
  assumes "distinct (cc_lru c)"
    and "\<And>el. el \<in> set (cc_lru c) \<Longrightarrow> el < cc_next c"
    and "\<And>k el. cc_blobs c k = Some el \<longleftrightarrow> el \<in> set (cc_lru c) \<and> be_key (cc_heap c el) = k"
    and "\<And>el. el \<in> set (cc_lru c) \<Longrightarrow>
      be_size (cc_heap c el) = blobSize (be_key (cc_heap c el)) (be_blob (cc_heap c el))"
    and "cc_bytes c = sizes c"
  shows "cache_ok c"
  using assms by (simp add: cache_ok_def)

lemma cache_okD:
  assumes "cache_ok c"
  shows "distinct (cc_lru c)"
    and "el \<in> set (cc_lru c) \<Longrightarrow> el < cc_next c"
    and "cc_blobs c k = Some el \<longleftrightarrow> el \<in> set (cc_lru c) \<and> be_key (cc_heap c el) = k"
    and "el \<in> set (cc_lru c) \<Longrightarrow>
      be_size (cc_heap c el) = blobSize (be_key (cc_heap c el)) (be_blob (cc_heap c el))"
    and "cc_bytes c = sizes c"
  using assms by (auto simp: cache_ok_def)

lemma cache_ok_new: "cache_ok newCache"
  by (simp add: cache_ok_def newCache_def sizes_def)

lemma cache_ok_clear: "cache_ok (clearAll c)"
  by (simp add: cache_ok_def clearAll_def sizes_def)

lemma set_move_to_front: "el \<in> set l \<Longrightarrow> set (move_to_front el l) = set l"
proof (induction l)
  case (Cons a l)
  then show ?case by (auto simp: move_to_front_def)
qed simp

lemma distinct_move_to_front: "distinct l \<Longrightarrow> distinct (move_to_front el l)"
  by (simp add: move_to_front_def)

lemma sum_move_to_front:
  "el \<in> set l \<Longrightarrow> sum_list (map f (move_to_front el l)) = sum_list (map f l)"
  for f :: "nat \<Rightarrow> int"
  by (induction l) (auto simp: move_to_front_def)

lemma cache_ok_blob: "cache_ok c \<Longrightarrow> cache_ok (snd (blob key c))"
proof (cases "cc_blobs c key")
  case (Some el)
  assume ok: "cache_ok c"
  then have el: "el \<in> set (cc_lru c)" using Some by (simp add: cache_okD(3))
  show ?thesis
    using cache_okD [OF ok] el
    by (intro cache_okI)
      (auto simp: blob_def Some set_move_to_front distinct_move_to_front sizes_def sum_move_to_front)
qed (simp add: blob_def)

lemma cache_ok_evict_back:
  assumes ok: "cache_ok c" and ne: "cc_lru c \<noteq> []"
  shows "cache_ok (evict_back c)"
proof -
  obtain l el where l: "cc_lru c = l @ [el]" using ne by (metis rev_exhaust)
  note d = cache_okD [OF ok, unfolded l]
  have new: "i = el" if "be_key (cc_heap c i) = be_key (cc_heap c el)" "i \<in> set l" for i
    using d(3) [of "be_key (cc_heap c el)" i] d(3) [of "be_key (cc_heap c el)" el] that by simp
  have notin: "el \<notin> set l" using d(1) by simp
  show ?thesis
  proof
    show "cc_bytes (evict_back c) = sizes (evict_back c)"
      using d(5) by (simp add: evict_back_def Let_def sizes_def l)
    show "cc_blobs (evict_back c) k = Some i \<longleftrightarrow>
        i \<in> set (cc_lru (evict_back c)) \<and> be_key (cc_heap (evict_back c) i) = k" for k i
      using d(3) [of k i] new [of i] notin by (auto simp: evict_back_def Let_def l)
  qed (use d in \<open>auto simp: evict_back_def Let_def l\<close>)
qed

lemma cache_ok_evict: "cache_ok c \<Longrightarrow> cache_ok (evict c)"
proof (induction c rule: evict.induct)
  case (1 c)
  then show ?case
    by (subst evict.simps) (simp add: cache_ok_evict_back)
qed

text \<open>The state a store leaves before the eviction.\<close>

definition store_blob :: "string \<Rightarrow> FileBlob \<Rightarrow> cache \<Rightarrow> cache" where
  "store_blob key b c =
     (case cc_blobs c key of
        Some el \<Rightarrow>
          c\<lparr>cc_bytes := cc_bytes c + (blobSize key b - be_size (cc_heap c el)),
            cc_heap := (cc_heap c)(el := (cc_heap c el)\<lparr>be_blob := b, be_size := blobSize key b\<rparr>),
            cc_lru := move_to_front el (cc_lru c)\<rparr>
      | None \<Rightarrow>
          c\<lparr>cc_heap := (cc_heap c)(cc_next c :=
               \<lparr>be_key = key, be_blob = b, be_size = blobSize key b\<rparr>),
            cc_lru := cc_next c # cc_lru c,
            cc_blobs := (cc_blobs c)(key \<mapsto> cc_next c),
            cc_bytes := cc_bytes c + blobSize key b,
            cc_next := Suc (cc_next c)\<rparr>)"

lemma putBlob_store: "putBlob key b c = evict (store_blob key b c)"
  by (simp add: putBlob_def store_blob_def Let_def split: option.splits)

lemma sum_list_update_fun:
  "distinct l \<Longrightarrow> el \<in> set l \<Longrightarrow>
    sum_list (map (\<lambda>i. if i = el then v else f i) l) = sum_list (map f l) + (v - f el)"
  for f :: "nat \<Rightarrow> int"
proof (induction l)
  case (Cons a l)
  have "sum_list (map (\<lambda>i. if i = el then v else f i) l) = sum_list (map f l)" if "el \<notin> set l"
    using that by (intro arg_cong [of _ _ sum_list] map_cong) auto
  with Cons show ?case by (cases "el = a") simp_all
qed simp

lemma cache_ok_store:
  assumes ok: "cache_ok c"
  shows "cache_ok (store_blob key b c)"
proof (cases "cc_blobs c key")
  case (Some el)
  then have el: "el \<in> set (cc_lru c)" and key: "be_key (cc_heap c el) = key"
    by (simp_all add: cache_okD(3) [OF ok])
  note d = cache_okD [OF ok]
  show ?thesis
  proof
    show "cc_bytes (store_blob key b c) = sizes (store_blob key b c)"
      using d(1,5) el
      by (simp add: store_blob_def Some sizes_def sum_move_to_front sum_list_update_fun
          if_distrib [of be_size] cong: if_cong)
  qed (use d el key in
      \<open>auto simp: store_blob_def Some set_move_to_front distinct_move_to_front\<close>)
next
  case None
  note d = cache_okD [OF ok]
  have fresh: "cc_next c \<notin> set (cc_lru c)" using d(2) by blast
  have nokey: "be_key (cc_heap c i) \<noteq> key" if "i \<in> set (cc_lru c)" for i
    using d(3) [of key i] None that by simp
  have same: "map (\<lambda>el. be_size (if el = cc_next c then e else cc_heap c el)) (cc_lru c) =
      map (\<lambda>el. be_size (cc_heap c el)) (cc_lru c)" for e
    using fresh by (auto intro: map_cong)
  show ?thesis
  proof
    show "cc_bytes (store_blob key b c) = sizes (store_blob key b c)"
      using d(5) by (simp add: store_blob_def None sizes_def same)
    show "i < cc_next (store_blob key b c)" if "i \<in> set (cc_lru (store_blob key b c))" for i
      using d(2) [of i] that by (auto simp: store_blob_def None)
    show "cc_blobs (store_blob key b c) k = Some i \<longleftrightarrow>
        i \<in> set (cc_lru (store_blob key b c)) \<and> be_key (cc_heap (store_blob key b c) i) = k" for k i
      using d(3) [of k i] fresh nokey [of i] by (auto simp: store_blob_def None)
  qed (use d fresh in \<open>auto simp: store_blob_def None\<close>)
qed

lemma cache_ok_put: "cache_ok c \<Longrightarrow> cache_ok (putBlob key b c)"
  by (simp add: putBlob_store cache_ok_evict cache_ok_store)

section \<open>The abstract cache: an association list, most recent first\<close>

type_synonym blobs = "(string \<times> FileBlob) list"

definition charge :: "string \<times> FileBlob \<Rightarrow> int" where
  "charge e = blobSize (fst e) (snd e)"

text \<open>The longest prefix whose charges fit the cap.\<close>

fun fit :: "int \<Rightarrow> blobs \<Rightarrow> blobs" where
  "fit lim [] = []"
| "fit lim (e # es) = (if charge e \<le> lim then e # fit (lim - charge e) es else [])"

definition drop_key :: "string \<Rightarrow> blobs \<Rightarrow> blobs" where
  "drop_key k es = filter (\<lambda>e. fst e \<noteq> k) es"

definition abs_get :: "string \<Rightarrow> blobs \<Rightarrow> FileBlob option \<times> blobs" where
  "abs_get k es =
     (case map_of es k of None \<Rightarrow> (None, es) | Some b \<Rightarrow> (Some b, (k, b) # drop_key k es))"

definition abs_put :: "int \<Rightarrow> string \<Rightarrow> FileBlob \<Rightarrow> blobs \<Rightarrow> blobs" where
  "abs_put lim k b es = fit lim ((k, b) # drop_key k es)"

text \<open>The contents of a cache, in the order of its list.\<close>

definition contents :: "cache \<Rightarrow> blobs" where
  "contents c = map (\<lambda>el. (be_key (cc_heap c el), be_blob (cc_heap c el))) (cc_lru c)"

lemma charge_nonneg [simp]: "0 \<le> charge e"
  by (simp add: charge_def blobSize_def)

lemma sum_charge_nonneg [simp]: "0 \<le> sum_list (map charge es)"
  by (rule sum_list_nonneg) auto

lemma fit_all: "sum_list (map charge es) \<le> lim \<Longrightarrow> fit lim es = es"
proof (induction es arbitrary: lim)
  case (Cons e es)
  then show ?case using sum_charge_nonneg [of es] by (auto simp del: sum_charge_nonneg)
qed simp

lemma fit_drop_last: "lim < sum_list (map charge (es @ [e])) \<Longrightarrow> fit lim (es @ [e]) = fit lim es"
proof (induction es arbitrary: lim)
  case (Cons a es)
  then show ?case by simp
qed simp

lemma fit_fits: "0 \<le> lim \<Longrightarrow> sum_list (map charge (fit lim es)) \<le> lim"
  by (induction lim es rule: fit.induct) auto

lemma fit_prefix: "\<exists>rest. es = fit lim es @ rest"
  by (induction lim es rule: fit.induct) auto

lemma fit_longest:
  "es = xs @ rest \<Longrightarrow> sum_list (map charge xs) \<le> lim \<Longrightarrow> length xs \<le> length (fit lim es)"
proof (induction lim es arbitrary: xs rule: fit.induct)
  case (2 lim e es)
  show ?case
  proof (cases xs)
    case (Cons x ys)
    with "2.prems" have "charge e \<le> lim" "es = ys @ rest" "sum_list (map charge ys) \<le> lim - charge e"
      using sum_charge_nonneg [of ys] by (simp_all del: sum_charge_nonneg)
    with "2.IH" Cons show ?thesis by simp
  qed simp
qed simp

lemma set_fit: "set (fit lim es) \<subseteq> set es"
  by (induction lim es rule: fit.induct) auto

lemma map_of_fit:
  assumes "distinct (map fst es)" and "map_of (fit lim es) k = Some v"
  shows "map_of es k = Some v"
  using fit_prefix [of es lim] assms by (metis map_add_Some_iff map_of_append map_of_SomeD
      map_of_eq_Some_iff in_set_conv_decomp Un_iff set_append)

lemma sizes_contents: "cache_ok c \<Longrightarrow> cc_bytes c = sum_list (map charge (contents c))"
proof -
  assume ok: "cache_ok c"
  have "map (\<lambda>el. be_size (cc_heap c el)) (cc_lru c) = map charge (contents c)"
    using cache_okD(4) [OF ok] by (simp add: contents_def charge_def)
  then show ?thesis using cache_okD(5) [OF ok] by (simp add: sizes_def)
qed

lemma contents_keys_distinct: "cache_ok c \<Longrightarrow> distinct (map fst (contents c))"
proof -
  assume ok: "cache_ok c"
  have "inj_on (\<lambda>el. be_key (cc_heap c el)) (set (cc_lru c))"
  proof (rule inj_onI)
    fix i j
    assume "i \<in> set (cc_lru c)" "j \<in> set (cc_lru c)" "be_key (cc_heap c i) = be_key (cc_heap c j)"
    then show "i = j"
      using cache_okD(3) [OF ok, of "be_key (cc_heap c i)"] by (metis option.inject)
  qed
  then show ?thesis using cache_okD(1) [OF ok] by (simp add: contents_def distinct_map comp_def)
qed

lemma blobs_contents:
  assumes ok: "cache_ok c"
  shows "map_of (contents c) k = map_option (\<lambda>el. be_blob (cc_heap c el)) (cc_blobs c k)"
proof (cases "cc_blobs c k")
  case None
  then have "\<forall>el \<in> set (cc_lru c). be_key (cc_heap c el) \<noteq> k"
    using cache_okD(3) [OF ok, of k] by simp
  then have "k \<notin> fst ` set (contents c)"
    by (auto simp: contents_def)
  then show ?thesis using None by (simp add: map_of_eq_None_iff)
next
  case (Some el)
  then have "(k, be_blob (cc_heap c el)) \<in> set (contents c)"
    using cache_okD(3) [OF ok, of k el] by (auto simp: contents_def)
  then show ?thesis using contents_keys_distinct [OF ok] Some by (simp add: map_of_eq_Some_iff)
qed

section \<open>The operations refine the abstract ones\<close>

lemma drop_key_contents:
  assumes ok: "cache_ok c" and el: "cc_blobs c k = Some el"
  shows "drop_key k (contents c) =
    map (\<lambda>i. (be_key (cc_heap c i), be_blob (cc_heap c i))) (remove1 el (cc_lru c))"
proof -
  have "remove1 el (cc_lru c) = filter (\<lambda>i. be_key (cc_heap c i) \<noteq> k) (cc_lru c)"
    unfolding distinct_remove1_removeAll [OF cache_okD(1) [OF ok]] removeAll_filter_not_eq
  proof (rule filter_cong)
    fix i
    assume i: "i \<in> set (cc_lru c)"
    then show "el \<noteq> i \<longleftrightarrow> be_key (cc_heap c i) \<noteq> k"
      using el cache_okD(3) [OF ok, of k el] cache_okD(3) [OF ok, of k i] by auto
  qed simp
  then show ?thesis by (simp add: drop_key_def contents_def filter_map comp_def)
qed

lemma drop_key_absent: "map_of es k = None \<Longrightarrow> drop_key k es = es"
  by (auto simp: drop_key_def map_of_eq_None_iff intro!: filter_True)

lemma blob_contents:
  assumes ok: "cache_ok c"
  shows "(fst (blob k c), contents (snd (blob k c))) = abs_get k (contents c)"
proof (cases "cc_blobs c k")
  case None
  then show ?thesis by (simp add: blob_def abs_get_def blobs_contents [OF ok])
next
  case (Some el)
  then have "be_key (cc_heap c el) = k" using cache_okD(3) [OF ok, of k el] by simp
  then show ?thesis
    by (simp add: blob_def abs_get_def blobs_contents [OF ok] Some drop_key_contents [OF ok Some])
      (simp add: contents_def move_to_front_def)
qed

lemma store_contents:
  assumes ok: "cache_ok c"
  shows "contents (store_blob k b c) = (k, b) # drop_key k (contents c)"
proof (cases "cc_blobs c k")
  case None
  then have "drop_key k (contents c) = contents c"
    by (intro drop_key_absent) (simp add: blobs_contents [OF ok])
  moreover have "cc_next c \<notin> set (cc_lru c)" using cache_okD(2) [OF ok] by blast
  ultimately show ?thesis by (auto simp: store_blob_def None contents_def)
next
  case (Some el)
  then have "be_key (cc_heap c el) = k" using cache_okD(3) [OF ok, of k el] by simp
  moreover have "el \<notin> set (remove1 el (cc_lru c))" using cache_okD(1) [OF ok] by simp
  ultimately show ?thesis
    unfolding drop_key_contents [OF ok Some]
    by (auto simp: store_blob_def Some contents_def move_to_front_def)
qed

lemma evict_contents: "cache_ok c \<Longrightarrow> contents (evict c) = fit (cc_limit c) (contents c)"
proof (induction c rule: evict.induct)
  case (1 c)
  show ?case
  proof (cases "cc_bytes c > cc_limit c \<and> length (cc_lru c) > 0")
    case True
    then obtain l el where l: "cc_lru c = l @ [el]" by (metis length_greater_0_conv rev_exhaust)
    have parts: "contents c = contents (evict_back c) @
        [(be_key (cc_heap c el), be_blob (cc_heap c el))]"
      by (simp add: contents_def evict_back_def Let_def l)
    have "contents (evict c) = fit (cc_limit c) (contents (evict_back c))"
      using True "1.IH" [OF True] cache_ok_evict_back [OF "1.prems"]
      by (subst evict.simps) (auto simp: evict_back_def Let_def)
    also have "\<dots> = fit (cc_limit c) (contents c)"
      using True sizes_contents [OF "1.prems"] unfolding parts by (subst fit_drop_last) auto
    finally show ?thesis .
  next
    case False
    have "sum_list (map charge (contents c)) \<le> cc_limit c" if "cc_lru c \<noteq> []"
      using False that sizes_contents [OF "1.prems"] by simp
    then have "fit (cc_limit c) (contents c) = contents c"
      by (cases "cc_lru c = []") (simp_all add: fit_all contents_def)
    with False show ?thesis by (subst evict.simps) auto
  qed
qed

lemma evict_limit [simp]: "cc_limit (evict c) = cc_limit c"
proof (induction c rule: evict.induct)
  case (1 c)
  show ?case
    by (subst evict.simps) (simp add: 1, simp add: evict_back_def Let_def)
qed

lemma store_limit [simp]: "cc_limit (store_blob k b c) = cc_limit c"
  by (simp add: store_blob_def split: option.split)

lemma put_contents:
  "cache_ok c \<Longrightarrow> contents (putBlob k b c) = abs_put (cc_limit c) k b (contents c)"
  by (simp add: putBlob_store evict_contents cache_ok_store store_contents abs_put_def)

lemma put_limit [simp]: "cc_limit (putBlob k b c) = cc_limit c"
  by (simp add: putBlob_store)

lemma blob_limit [simp]: "cc_limit (snd (blob k c)) = cc_limit c"
  by (simp add: blob_def split: option.split)

lemma clear_limit [simp]: "cc_limit (clearAll c) = cc_limit c"
  by (simp add: clearAll_def)

lemma clear_contents [simp]: "contents (clearAll c) = []"
  by (simp add: clearAll_def contents_def)

lemma put_bytes: "cache_ok c \<Longrightarrow> 0 \<le> cc_limit c \<Longrightarrow> cc_bytes (putBlob k b c) \<le> cc_limit c"
  using sizes_contents [of "putBlob k b c"]
  by (simp add: cache_ok_put put_contents abs_put_def fit_fits del: fit.simps)

section \<open>What a memo promises its client\<close>

text \<open>
  The interface the client relies on: a lookup answers what the memo holds and changes nothing
  it holds; a store may drop entries but never invents one.  \<open>known P\<close> says that every entry
  satisfies \<open>P\<close>; a history lists the operations, newest first.
\<close>

definition known :: "('s \<Rightarrow> bool) \<Rightarrow> ('s \<Rightarrow> 'k \<Rightarrow> 'v option) \<Rightarrow> ('k \<Rightarrow> 'v \<Rightarrow> bool) \<Rightarrow> 's \<Rightarrow> bool" where
  "known ok look P s \<longleftrightarrow> ok s \<and> (\<forall>k v. look s k = Some v \<longrightarrow> P k v)"

datatype ('k, 'v) memo_op = OpGet 'k | OpPut 'k 'v | OpClear

fun run_ops ::
  "('k \<Rightarrow> 's \<Rightarrow> 'v option \<times> 's) \<Rightarrow> ('k \<Rightarrow> 'v \<Rightarrow> 's \<Rightarrow> 's) \<Rightarrow> ('s \<Rightarrow> 's) \<Rightarrow>
    ('k, 'v) memo_op list \<Rightarrow> 's \<Rightarrow> 's" where
  "run_ops get put clr [] s = s"
| "run_ops get put clr (OpGet k # h) s = snd (get k (run_ops get put clr h s))"
| "run_ops get put clr (OpPut k v # h) s = put k v (run_ops get put clr h s)"
| "run_ops get put clr (OpClear # h) s = clr (run_ops get put clr h s)"

fun last_put :: "('k, 'v) memo_op list \<Rightarrow> 'k \<Rightarrow> 'v option" where
  "last_put [] k = None"
| "last_put (OpGet k' # h) k = last_put h k"
| "last_put (OpPut k' v # h) k = (if k' = k then Some v else last_put h k)"
| "last_put (OpClear # h) k = None"

lemma history_induct [case_names Nil Get Put Clear]:
  assumes "P []" and "\<And>k h. P h \<Longrightarrow> P (OpGet k # h)"
    and "\<And>k v h. P h \<Longrightarrow> P (OpPut k v # h)" and "\<And>h. P h \<Longrightarrow> P (OpClear # h)"
  shows "P h"
proof (induction h)
  case (Cons a h)
  then show ?case by (cases a) (auto simp: assms)
qed (rule assms)

locale memo =
  fixes get :: "'k \<Rightarrow> 's \<Rightarrow> 'v option \<times> 's"
    and put :: "'k \<Rightarrow> 'v \<Rightarrow> 's \<Rightarrow> 's"
    and clr :: "'s \<Rightarrow> 's"
    and ok :: "'s \<Rightarrow> bool"
    and look :: "'s \<Rightarrow> 'k \<Rightarrow> 'v option"
  assumes get_result: "ok s \<Longrightarrow> fst (get k s) = look s k"
    and get_ok: "ok s \<Longrightarrow> ok (snd (get k s))"
    and get_look: "ok s \<Longrightarrow> look (snd (get k s)) = look s"
    and put_ok: "ok s \<Longrightarrow> ok (put k v s)"
    and put_look: "ok s \<Longrightarrow> look (put k v s) k' = Some w \<Longrightarrow>
      (k' = k \<and> w = v) \<or> (k' \<noteq> k \<and> look s k' = Some w)"
    and clr_ok: "ok s \<Longrightarrow> ok (clr s)"
    and clr_look: "ok s \<Longrightarrow> look (clr s) k = None"
begin

lemma known_get: "known ok look P s \<Longrightarrow> known ok look P (snd (get k s))"
  by (simp add: known_def get_ok get_look)

lemma get_known: "known ok look P s \<Longrightarrow> get k s = (Some v, s') \<Longrightarrow> P k v"
  using get_result [of s k] by (simp add: known_def)

lemma known_put: "known ok look P s \<Longrightarrow> P k v \<Longrightarrow> known ok look P (put k v s)"
  by (auto simp: known_def put_ok dest: put_look)

lemma known_clr: "known ok look P s \<Longrightarrow> known ok look P (clr s)"
  by (simp add: known_def clr_ok clr_look)

lemma known_run:
  assumes "ok s" and "\<And>k. look s k = None"
  shows "known ok look (\<lambda>k v. last_put h k = Some v) (run_ops get put clr h s)"
proof (induction h rule: history_induct)
  case Nil
  then show ?case using assms by (simp add: known_def)
next
  case (Get k' h)
  then show ?case by (simp add: known_get)
next
  case (Put k' v h)
  then show ?case by (auto simp: known_def put_ok dest: put_look)
next
  case (Clear h)
  then show ?case by (simp add: known_def clr_ok clr_look)
qed

lemma hit_is_last_put:
  assumes "ok s" and "\<And>k. look s k = None"
  shows "fst (get k (run_ops get put clr h s)) = Some v \<Longrightarrow> last_put h k = Some v"
  using known_run [OF assms, of h] by (auto simp: known_def get_result)

end

lemma map_of_drop_key: "map_of (drop_key k es) k' = (if k' = k then None else map_of es k')"
  by (induction es) (auto simp: drop_key_def)

lemma drop_key_distinct: "distinct (map fst es) \<Longrightarrow> distinct (map fst (drop_key k es))"
  by (simp add: drop_key_def distinct_map_filter)

lemma put_map_of:
  assumes ok: "cache_ok c" and hit: "map_of (contents (putBlob k b c)) k' = Some w"
  shows "(k' = k \<and> w = b) \<or> (k' \<noteq> k \<and> map_of (contents c) k' = Some w)"
proof -
  have "distinct (map fst ((k, b) # drop_key k (contents c)))"
    using drop_key_distinct [OF contents_keys_distinct [OF ok]] by (auto simp: drop_key_def)
  from map_of_fit [OF this, of "cc_limit c" k' w] hit
  have "map_of ((k, b) # drop_key k (contents c)) k' = Some w"
    by (simp add: put_contents [OF ok] abs_put_def del: fit.simps)
  then show ?thesis by (auto simp: map_of_drop_key split: if_splits)
qed

definition cached :: "cache \<Rightarrow> string \<Rightarrow> FileBlob option" where
  "cached c k = map_of (contents c) k"

lemma abs_get_look: "map_of (snd (abs_get k es)) = map_of es"
  by (auto simp: abs_get_def map_of_drop_key fun_eq_iff split: option.splits)

interpretation blob_memo: memo blob putBlob clearAll cache_ok cached
proof
  fix c k
  assume ok: "cache_ok c"
  have eq: "fst (blob k c) = fst (abs_get k (contents c))"
    "contents (snd (blob k c)) = snd (abs_get k (contents c))"
    using blob_contents [OF ok, of k] by (simp_all add: prod_eq_iff)
  show "fst (blob k c) = cached c k"
    by (auto simp: eq cached_def abs_get_def split: option.splits)
  show "cached (snd (blob k c)) = cached c"
    by (simp add: cached_def eq abs_get_look fun_eq_iff)
  show "cached (clearAll c) k = None" by (simp add: cached_def)
qed (auto simp: cache_ok_blob cache_ok_put cache_ok_clear cached_def dest: put_map_of)

lemma cached_new: "cached newCache k = None"
  by (simp add: cached_def newCache_def contents_def)

lemma run_cache_ok: "cache_ok (run_ops blob putBlob clearAll h newCache)"
  using blob_memo.known_run [OF cache_ok_new, of h]
  by (simp add: known_def cached_new)

lemma new_limit [simp]: "cc_limit newCache = maxBlobBytes"
  by (simp add: newCache_def)

lemma run_cache_limit: "cc_limit (run_ops blob putBlob clearAll h newCache) = maxBlobBytes"
  by (induction h rule: history_induct) simp_all

lemma blob_bytes [simp]: "cc_bytes (snd (blob k c)) = cc_bytes c"
  by (simp add: blob_def split: option.split)

lemma blobKey_inj:
  assumes "CHR ''/'' \<notin> set o1 \<union> set r1 \<union> set f1 \<union> set o2 \<union> set r2 \<union> set f2"
    and "blobKey o1 r1 f1 p1 = blobKey o2 r2 f2 p2"
  shows "o1 = o2 \<and> r1 = r2 \<and> f1 = f2 \<and> p1 = p2"
proof -
  have "split_on CHR ''/'' (blobKey o1 r1 f1 p1) = split_on CHR ''/'' (blobKey o2 r2 f2 p2)"
    using assms(2) by simp
  then have "o1 = o2 \<and> r1 = r2 \<and> f1 = f2 \<and> split_on CHR ''/'' p1 = split_on CHR ''/'' p2"
    using assms(1) by (simp add: blobKey_def split_on_append)
  then show ?thesis using assms(2) by (simp add: blobKey_def)
qed

section \<open>Properties\<close>

text \<open>C15: Whatever sequence of lookups, stores and flushes the cache has been through, its list
  holds each element once, the map and the list agree, the byte counter is the sum of what the
  entries are charged, and that sum is within the 64 MiB cap.\<close>

theorem cache_bounded:
  "cache_ok (run_ops blob putBlob clearAll h newCache) \<and>
   0 \<le> cc_bytes (run_ops blob putBlob clearAll h newCache) \<and>
   cc_bytes (run_ops blob putBlob clearAll h newCache) \<le> maxBlobBytes"
proof (induction h rule: history_induct)
  case (Put k v h)
  then show ?case
    using put_bytes [OF run_cache_ok, of h k v] run_cache_ok [of "OpPut k v # h"]
      sizes_contents [OF run_cache_ok, of "OpPut k v # h"]
    by (simp add: run_cache_limit maxBlobBytes_def)
qed (auto simp: cache_ok_new cache_ok_clear cache_ok_blob, auto simp: newCache_def clearAll_def
      maxBlobBytes_def)

text \<open>C10: The pointer structure implements its abstract specification: after any history the
  entries, most recent first, are those of an association list on which a hit moves its entry
  to the front and a store keeps the longest prefix that fits the cap, and a lookup answers as
  that list does.\<close>

theorem cache_refines_lru:
  "contents (run_ops blob putBlob clearAll h newCache) =
     run_ops abs_get (abs_put maxBlobBytes) (\<lambda>_. []) h [] \<and>
   fst (blob k (run_ops blob putBlob clearAll h newCache)) =
     fst (abs_get k (run_ops abs_get (abs_put maxBlobBytes) (\<lambda>_. []) h []))"
proof -
  have "contents (run_ops blob putBlob clearAll h newCache) =
     run_ops abs_get (abs_put maxBlobBytes) (\<lambda>_. []) h []"
  proof (induction h rule: history_induct)
    case Nil
    then show ?case by (simp add: newCache_def contents_def)
  next
    case (Get k' h)
    then show ?case
      using blob_contents [OF run_cache_ok, of k' h] by (simp add: prod_eq_iff)
  next
    case (Put k' v h)
    then show ?case by (simp add: put_contents run_cache_ok run_cache_limit)
  next
    case (Clear h)
    then show ?case by simp
  qed
  then show ?thesis using blob_contents [OF run_cache_ok, of k h] by (simp add: prod_eq_iff)
qed

text \<open>C23: A hit is never stale: what a lookup returns is what was last stored under its key,
  with no flush in between.\<close>

theorem cache_hit_is_last_put:
  "fst (blob k (run_ops blob putBlob clearAll h newCache)) = Some b \<Longrightarrow> last_put h k = Some b"
  by (rule blob_memo.hit_is_last_put) (simp_all add: cache_ok_new cached_new)

theorem cache_hit_is_last_put_witness:
  "last_put [OpGet ''b'', OpPut ''a'' \<lparr>fb_Content = ''new'', fb_Missing = False\<rparr>,
     OpPut ''a'' \<lparr>fb_Content = ''old'', fb_Missing = False\<rparr>] ''a'' =
   Some \<lparr>fb_Content = ''new'', fb_Missing = False\<rparr>"
  by (rule cache_hit_is_last_put)
    (simp add: putBlob_def blob_def newCache_def evict.simps blobSize_def maxBlobBytes_def
      move_to_front_def)

text \<open>A store keeps what it stores, as the most recent entry, whenever the blob and its key
  fit the cap at all; one that cannot fit leaves the cache empty instead of over its cap.\<close>

theorem put_then_get:
  assumes "cache_ok c"
  shows "if blobSize k b \<le> cc_limit c
    then fst (blob k (putBlob k b c)) = Some b \<and> hd (contents (putBlob k b c)) = (k, b)
    else contents (putBlob k b c) = [] \<and> fst (blob k (putBlob k b c)) = None"
proof -
  have "fst (blob k (putBlob k b c)) = map_of (contents (putBlob k b c)) k"
    using blob_memo.get_result [OF cache_ok_put [OF assms]] by (simp add: cached_def)
  then show ?thesis
    by (simp add: put_contents [OF assms] abs_put_def charge_def)
qed

theorem put_then_get_witness:
  "if blobSize ''k'' zero_FileBlob \<le> cc_limit newCache
    then fst (blob ''k'' (putBlob ''k'' zero_FileBlob newCache)) = Some zero_FileBlob \<and>
      hd (contents (putBlob ''k'' zero_FileBlob newCache)) = (''k'', zero_FileBlob)
    else contents (putBlob ''k'' zero_FileBlob newCache) = [] \<and>
      fst (blob ''k'' (putBlob ''k'' zero_FileBlob newCache)) = None"
  by (rule put_then_get) (rule cache_ok_new)

text \<open>Two blobs share a cache key only if they are the same path at the same ref of the same
  repository, as long as owner, repository and ref have no slash (GitHub names and the commit
  SHAs the client resolves have none).\<close>

theorem blobKey_injective:
  assumes "CHR ''/'' \<notin> set o1 \<union> set r1 \<union> set f1 \<union> set o2 \<union> set r2 \<union> set f2"
  shows "blobKey o1 r1 f1 p1 = blobKey o2 r2 f2 p2 \<longleftrightarrow> o1 = o2 \<and> r1 = r2 \<and> f1 = f2 \<and> p1 = p2"
  using blobKey_inj [of o1 r1 f1 o2 r2 f2 p1 p2] assms by auto

theorem blobKey_injective_witness:
  "blobKey ''undont'' ''differ'' ''abc'' ''a/b'' \<noteq> blobKey ''undont'' ''differ'' ''ab'' ''c/a/b''"
  by (subst blobKey_injective) simp_all

end
