(* ===== verification/Dtos.thy ===== *)
theory Dtos
  imports Protocol
begin

text \<open>
  \<open>internal/github/dtos.go\<close>: GitHub's wire shapes.  A record holds the leaves of a struct, and
  its decoder walks the same nesting of \<open>json:\<close> names the struct has: \<open>nest\<close> for a struct that
  only wraps one field, \<open>dec_struct\<close> with the field table for the rest.
\<close>

definition in_pull :: "'r upd \<Rightarrow> 'r upd" where
  "in_pull d = nest ''repository'' (nest ''pullRequest'' d)"

section \<open>REST\<close>

record loginDTO =
  lg_Login :: string

definition zero_login :: loginDTO where "zero_login = \<lparr>lg_Login = []\<rparr>"

definition loginDTO_dec :: "loginDTO upd" where
  "loginDTO_dec = dec_struct [fld ''login'' lg_Login lg_Login_update dec_string]"

record pullDTO =
  pl_Number :: int
  pl_Title :: string
  pl_User :: loginDTO
  pl_HeadRef :: string
  pl_UpdatedAt :: string
  pl_Draft :: bool
  pl_Reviewers :: "loginDTO list"

definition zero_pull :: pullDTO where
  "zero_pull =
     \<lparr>pl_Number = 0, pl_Title = [], pl_User = zero_login, pl_HeadRef = [], pl_UpdatedAt = [],
      pl_Draft = False, pl_Reviewers = []\<rparr>"

definition pullDTO_dec :: "pullDTO upd" where
  "pullDTO_dec = dec_struct
     [fld ''number'' pl_Number pl_Number_update dec_int,
      fld ''title'' pl_Title pl_Title_update dec_string,
      fld ''user'' pl_User pl_User_update loginDTO_dec,
      fld ''head'' pl_HeadRef pl_HeadRef_update (nest ''ref'' dec_string),
      fld ''updated_at'' pl_UpdatedAt pl_UpdatedAt_update dec_string,
      fld ''draft'' pl_Draft pl_Draft_update dec_bool,
      fld ''requested_reviewers'' pl_Reviewers pl_Reviewers_update
        (dec_slice loginDTO_dec zero_login)]"

record userDTO =
  us_Login :: string

definition zero_user :: userDTO where "zero_user = \<lparr>us_Login = []\<rparr>"

definition userDTO_dec :: "userDTO upd" where
  "userDTO_dec = dec_struct [fld ''login'' us_Login us_Login_update dec_string]"

record fileDTO =
  fd_Filename :: string
  fd_Status :: string
  fd_Additions :: int
  fd_Deletions :: int
  fd_PreviousFilename :: string

definition zero_file :: fileDTO where
  "zero_file =
     \<lparr>fd_Filename = [], fd_Status = [], fd_Additions = 0, fd_Deletions = 0, fd_PreviousFilename = []\<rparr>"

definition fileDTO_dec :: "fileDTO upd" where
  "fileDTO_dec = dec_struct
     [fld ''filename'' fd_Filename fd_Filename_update dec_string,
      fld ''status'' fd_Status fd_Status_update dec_string,
      fld ''additions'' fd_Additions fd_Additions_update dec_int,
      fld ''deletions'' fd_Deletions fd_Deletions_update dec_int,
      fld ''previous_filename'' fd_PreviousFilename fd_PreviousFilename_update dec_string]"

record prRefsDTO =
  rf_Base :: string
  rf_Head :: string

definition zero_refs :: prRefsDTO where "zero_refs = \<lparr>rf_Base = [], rf_Head = []\<rparr>"

definition prRefsDTO_dec :: "prRefsDTO upd" where
  "prRefsDTO_dec = dec_struct
     [fld ''base'' rf_Base rf_Base_update (nest ''sha'' dec_string),
      fld ''head'' rf_Head rf_Head_update (nest ''sha'' dec_string)]"

section \<open>GraphQL pages\<close>

record pageInfoGQL =
  pg_HasNextPage :: bool
  pg_EndCursor :: string

definition zero_pageInfo :: pageInfoGQL where
  "zero_pageInfo = \<lparr>pg_HasNextPage = False, pg_EndCursor = []\<rparr>"

definition pageInfoGQL_dec :: "pageInfoGQL upd" where
  "pageInfoGQL_dec = dec_struct
     [fld ''hasNextPage'' pg_HasNextPage pg_HasNextPage_update dec_bool,
      fld ''endCursor'' pg_EndCursor pg_EndCursor_update dec_string]"

text \<open>A connection: the \<open>nodes\<close> and \<open>pageInfo\<close> pair of the paginated fields.\<close>

record 'n connection =
  cn_Nodes :: "'n list"
  cn_PageInfo :: pageInfoGQL

definition zero_connection :: "'n connection" where
  "zero_connection = \<lparr>cn_Nodes = [], cn_PageInfo = zero_pageInfo\<rparr>"

definition connection_dec :: "'n upd \<Rightarrow> 'n \<Rightarrow> 'n connection upd" where
  "connection_dec d z = dec_struct
     [fld ''nodes'' cn_Nodes cn_Nodes_update (dec_slice d z),
      fld ''pageInfo'' cn_PageInfo cn_PageInfo_update pageInfoGQL_dec]"

record fileNodeGQL =
  fn_Path :: string
  fn_ViewerViewedState :: string

definition zero_fileNode :: fileNodeGQL where
  "zero_fileNode = \<lparr>fn_Path = [], fn_ViewerViewedState = []\<rparr>"

definition fileNodeGQL_dec :: "fileNodeGQL upd" where
  "fileNodeGQL_dec = dec_struct
     [fld ''path'' fn_Path fn_Path_update dec_string,
      fld ''viewerViewedState'' fn_ViewerViewedState fn_ViewerViewedState_update dec_string]"

record prDetailGQL =
  gd_Title :: string
  gd_Body :: string
  gd_URL :: string
  gd_State :: string
  gd_IsDraft :: bool
  gd_Mergeable :: string
  gd_BaseRefOid :: string
  gd_HeadRefOid :: string
  gd_HeadRefName :: string
  gd_Author :: loginDTO
  gd_Files :: "fileNodeGQL connection"

definition zero_prDetail :: prDetailGQL where
  "zero_prDetail =
     \<lparr>gd_Title = [], gd_Body = [], gd_URL = [], gd_State = [], gd_IsDraft = False,
      gd_Mergeable = [], gd_BaseRefOid = [], gd_HeadRefOid = [], gd_HeadRefName = [],
      gd_Author = zero_login, gd_Files = zero_connection\<rparr>"

definition prDetailGQL_dec :: "prDetailGQL upd" where
  "prDetailGQL_dec = in_pull (dec_struct
     [fld ''title'' gd_Title gd_Title_update dec_string,
      fld ''body'' gd_Body gd_Body_update dec_string,
      fld ''url'' gd_URL gd_URL_update dec_string,
      fld ''state'' gd_State gd_State_update dec_string,
      fld ''isDraft'' gd_IsDraft gd_IsDraft_update dec_bool,
      fld ''mergeable'' gd_Mergeable gd_Mergeable_update dec_string,
      fld ''baseRefOid'' gd_BaseRefOid gd_BaseRefOid_update dec_string,
      fld ''headRefOid'' gd_HeadRefOid gd_HeadRefOid_update dec_string,
      fld ''headRefName'' gd_HeadRefName gd_HeadRefName_update dec_string,
      fld ''author'' gd_Author gd_Author_update loginDTO_dec,
      fld ''files'' gd_Files gd_Files_update (connection_dec fileNodeGQL_dec zero_fileNode)])"

section \<open>Threads, drafts, timeline and checks\<close>

record commentGQL =
  cg_ID :: string
  cg_FullDatabaseID :: string
  cg_Author :: loginDTO
  cg_Body :: string
  cg_CreatedAt :: string
  cg_State :: string
  cg_DiffHunk :: string

definition zero_comment :: commentGQL where
  "zero_comment =
     \<lparr>cg_ID = [], cg_FullDatabaseID = [], cg_Author = zero_login, cg_Body = [], cg_CreatedAt = [],
      cg_State = [], cg_DiffHunk = []\<rparr>"

definition commentGQL_dec :: "commentGQL upd" where
  "commentGQL_dec = dec_struct
     [fld ''id'' cg_ID cg_ID_update dec_string,
      fld ''fullDatabaseId'' cg_FullDatabaseID cg_FullDatabaseID_update dec_string,
      fld ''author'' cg_Author cg_Author_update loginDTO_dec,
      fld ''body'' cg_Body cg_Body_update dec_string,
      fld ''createdAt'' cg_CreatedAt cg_CreatedAt_update dec_string,
      fld ''state'' cg_State cg_State_update dec_string,
      fld ''diffHunk'' cg_DiffHunk cg_DiffHunk_update dec_string]"

record newestGQL =
  nw_ID :: string
  nw_Body :: string

definition zero_newest :: newestGQL where "zero_newest = \<lparr>nw_ID = [], nw_Body = []\<rparr>"

definition newestGQL_dec :: "newestGQL upd" where
  "newestGQL_dec = dec_struct
     [fld ''id'' nw_ID nw_ID_update dec_string, fld ''body'' nw_Body nw_Body_update dec_string]"

record threadNodeGQL =
  tn_ID :: string
  tn_IsResolved :: bool
  tn_IsOutdated :: bool
  tn_Path :: string
  tn_Line :: "int option"
  tn_StartLine :: "int option"
  tn_OriginalLine :: "int option"
  tn_DiffSide :: string
  tn_StartSide :: string
  tn_Comments :: "commentGQL list"
  tn_NewestComment :: "newestGQL list"

definition zero_threadNode :: threadNodeGQL where
  "zero_threadNode =
     \<lparr>tn_ID = [], tn_IsResolved = False, tn_IsOutdated = False, tn_Path = [], tn_Line = None,
      tn_StartLine = None, tn_OriginalLine = None, tn_DiffSide = [], tn_StartSide = [],
      tn_Comments = [], tn_NewestComment = []\<rparr>"

definition threadNodeGQL_dec :: "threadNodeGQL upd" where
  "threadNodeGQL_dec = dec_struct
     [fld ''id'' tn_ID tn_ID_update dec_string,
      fld ''isResolved'' tn_IsResolved tn_IsResolved_update dec_bool,
      fld ''isOutdated'' tn_IsOutdated tn_IsOutdated_update dec_bool,
      fld ''path'' tn_Path tn_Path_update dec_string,
      fld ''line'' tn_Line tn_Line_update (dec_ptr dec_int 0),
      fld ''startLine'' tn_StartLine tn_StartLine_update (dec_ptr dec_int 0),
      fld ''originalLine'' tn_OriginalLine tn_OriginalLine_update (dec_ptr dec_int 0),
      fld ''diffSide'' tn_DiffSide tn_DiffSide_update dec_string,
      fld ''startDiffSide'' tn_StartSide tn_StartSide_update dec_string,
      fld ''comments'' tn_Comments tn_Comments_update
        (nest ''nodes'' (dec_slice commentGQL_dec zero_comment)),
      fld ''newestComment'' tn_NewestComment tn_NewestComment_update
        (nest ''nodes'' (dec_slice newestGQL_dec zero_newest))]"

type_synonym threadsGQL = "threadNodeGQL connection"

definition threadsGQL_dec :: "threadsGQL upd" where
  "threadsGQL_dec =
     in_pull (nest ''reviewThreads'' (connection_dec threadNodeGQL_dec zero_threadNode))"

record draftNodeGQL =
  dn_FullDatabaseID :: string
  dn_Path :: string
  dn_Line :: "int option"
  dn_StartLine :: "int option"
  dn_Body :: string

definition zero_draftNode :: draftNodeGQL where
  "zero_draftNode =
     \<lparr>dn_FullDatabaseID = [], dn_Path = [], dn_Line = None, dn_StartLine = None, dn_Body = []\<rparr>"

definition draftNodeGQL_dec :: "draftNodeGQL upd" where
  "draftNodeGQL_dec = dec_struct
     [fld ''fullDatabaseId'' dn_FullDatabaseID dn_FullDatabaseID_update dec_string,
      fld ''path'' dn_Path dn_Path_update dec_string,
      fld ''line'' dn_Line dn_Line_update (dec_ptr dec_int 0),
      fld ''startLine'' dn_StartLine dn_StartLine_update (dec_ptr dec_int 0),
      fld ''body'' dn_Body dn_Body_update dec_string]"

record pendingNodeGQL =
  pn_ID :: string
  pn_Comments :: "draftNodeGQL list"

definition zero_pendingNode :: pendingNodeGQL where
  "zero_pendingNode = \<lparr>pn_ID = [], pn_Comments = []\<rparr>"

definition pendingNodeGQL_dec :: "pendingNodeGQL upd" where
  "pendingNodeGQL_dec = dec_struct
     [fld ''id'' pn_ID pn_ID_update dec_string,
      fld ''comments'' pn_Comments pn_Comments_update
        (nest ''nodes'' (dec_slice draftNodeGQL_dec zero_draftNode))]"

type_synonym pendingReviewGQL = "pendingNodeGQL list"

definition pendingReviewGQL_dec :: "pendingReviewGQL upd" where
  "pendingReviewGQL_dec =
     in_pull (nest ''reviews'' (nest ''nodes'' (dec_slice pendingNodeGQL_dec zero_pendingNode)))"

record issueNodeGQL =
  is_Author :: loginDTO
  is_Body :: string
  is_CreatedAt :: string

definition zero_issueNode :: issueNodeGQL where
  "zero_issueNode = \<lparr>is_Author = zero_login, is_Body = [], is_CreatedAt = []\<rparr>"

definition issueNodeGQL_dec :: "issueNodeGQL upd" where
  "issueNodeGQL_dec = dec_struct
     [fld ''author'' is_Author is_Author_update loginDTO_dec,
      fld ''body'' is_Body is_Body_update dec_string,
      fld ''createdAt'' is_CreatedAt is_CreatedAt_update dec_string]"

record reviewNodeGQL =
  rn_Author :: loginDTO
  rn_State :: string
  rn_Body :: string
  rn_SubmittedAt :: string

definition zero_reviewNode :: reviewNodeGQL where
  "zero_reviewNode = \<lparr>rn_Author = zero_login, rn_State = [], rn_Body = [], rn_SubmittedAt = []\<rparr>"

definition reviewNodeGQL_dec :: "reviewNodeGQL upd" where
  "reviewNodeGQL_dec = dec_struct
     [fld ''author'' rn_Author rn_Author_update loginDTO_dec,
      fld ''state'' rn_State rn_State_update dec_string,
      fld ''body'' rn_Body rn_Body_update dec_string,
      fld ''submittedAt'' rn_SubmittedAt rn_SubmittedAt_update dec_string]"

record timelineGQL =
  tg_Comments :: "issueNodeGQL connection"
  tg_Reviews :: "reviewNodeGQL list"

definition zero_timeline :: timelineGQL where
  "zero_timeline = \<lparr>tg_Comments = zero_connection, tg_Reviews = []\<rparr>"

definition timelineGQL_dec :: "timelineGQL upd" where
  "timelineGQL_dec = in_pull (dec_struct
     [fld ''comments'' tg_Comments tg_Comments_update
        (connection_dec issueNodeGQL_dec zero_issueNode),
      fld ''reviews'' tg_Reviews tg_Reviews_update
        (nest ''nodes'' (dec_slice reviewNodeGQL_dec zero_reviewNode))])"

record checkContextGQL =
  cx_Typename :: string
  cx_Name :: string
  cx_Status :: string
  cx_Conclusion :: string
  cx_DetailsURL :: string
  cx_StartedAt :: string
  cx_Context :: string
  cx_State :: string
  cx_TargetURL :: string
  cx_CreatedAt :: string

definition zero_checkContext :: checkContextGQL where
  "zero_checkContext =
     \<lparr>cx_Typename = [], cx_Name = [], cx_Status = [], cx_Conclusion = [], cx_DetailsURL = [],
      cx_StartedAt = [], cx_Context = [], cx_State = [], cx_TargetURL = [], cx_CreatedAt = []\<rparr>"

definition checkContextGQL_dec :: "checkContextGQL upd" where
  "checkContextGQL_dec = dec_struct
     [fld ''__typename'' cx_Typename cx_Typename_update dec_string,
      fld ''name'' cx_Name cx_Name_update dec_string,
      fld ''status'' cx_Status cx_Status_update dec_string,
      fld ''conclusion'' cx_Conclusion cx_Conclusion_update dec_string,
      fld ''detailsUrl'' cx_DetailsURL cx_DetailsURL_update dec_string,
      fld ''startedAt'' cx_StartedAt cx_StartedAt_update dec_string,
      fld ''context'' cx_Context cx_Context_update dec_string,
      fld ''state'' cx_State cx_State_update dec_string,
      fld ''targetUrl'' cx_TargetURL cx_TargetURL_update dec_string,
      fld ''createdAt'' cx_CreatedAt cx_CreatedAt_update dec_string]"

record rollupGQL =
  ro_State :: string
  ro_Contexts :: "checkContextGQL list"

definition zero_rollup :: rollupGQL where
  "zero_rollup = \<lparr>ro_State = [], ro_Contexts = []\<rparr>"

definition rollupGQL_dec :: "rollupGQL upd" where
  "rollupGQL_dec = dec_struct
     [fld ''state'' ro_State ro_State_update dec_string,
      fld ''contexts'' ro_Contexts ro_Contexts_update
        (nest ''nodes'' (dec_slice checkContextGQL_dec zero_checkContext))]"

text \<open>The commits' rollups: \<open>None\<close> where \<open>statusCheckRollup\<close> is null.\<close>

type_synonym checksGQL = "rollupGQL option list"

definition checksGQL_dec :: "checksGQL upd" where
  "checksGQL_dec =
     in_pull (nest ''commits'' (nest ''nodes'' (dec_slice
       (nest ''commit'' (nest ''statusCheckRollup'' (dec_ptr rollupGQL_dec zero_rollup))) None)))"

section \<open>Mutation answers\<close>

record startReviewLookupGQL =
  sl_ID :: string
  sl_Reviews :: "string list"

definition zero_startReviewLookup :: startReviewLookupGQL where
  "zero_startReviewLookup = \<lparr>sl_ID = [], sl_Reviews = []\<rparr>"

definition startReviewLookupGQL_dec :: "startReviewLookupGQL upd" where
  "startReviewLookupGQL_dec = in_pull (dec_struct
     [fld ''id'' sl_ID sl_ID_update dec_string,
      fld ''reviews'' sl_Reviews sl_Reviews_update
        (nest ''nodes'' (dec_slice (nest ''id'' dec_string) []))])"

definition addReviewGQL_dec :: "string upd" where
  "addReviewGQL_dec =
     nest ''addPullRequestReview'' (nest ''pullRequestReview'' (nest ''id'' dec_string))"

definition submitReviewGQL_dec :: "string upd" where
  "submitReviewGQL_dec =
     nest ''submitPullRequestReview''
       (nest ''pullRequestReview'' (nest ''fullDatabaseId'' dec_string))"

definition publishCommentGQL_dec :: "string list upd" where
  "publishCommentGQL_dec =
     nest ''addPullRequestReview'' (nest ''pullRequestReview'' (nest ''comments''
       (nest ''nodes'' (dec_slice (nest ''fullDatabaseId'' dec_string) []))))"

definition prNodeIDGQL_dec :: "string upd" where
  "prNodeIDGQL_dec = in_pull (nest ''id'' dec_string)"

record addThreadGQL =
  at_ID :: string
  at_Comments :: "string list"

definition zero_addThread :: addThreadGQL where
  "zero_addThread = \<lparr>at_ID = [], at_Comments = []\<rparr>"

definition addThreadGQL_dec :: "addThreadGQL upd" where
  "addThreadGQL_dec =
     nest ''addPullRequestReviewThread'' (nest ''thread'' (dec_struct
       [fld ''id'' at_ID at_ID_update dec_string,
        fld ''comments'' at_Comments at_Comments_update
          (nest ''nodes'' (dec_slice (nest ''fullDatabaseId'' dec_string) []))]))"

definition addReplyGQL_dec :: "string upd" where
  "addReplyGQL_dec =
     nest ''addPullRequestReviewThreadReply'' (nest ''comment'' (nest ''fullDatabaseId'' dec_string))"

definition addIssueCommentGQL_dec :: "string upd" where
  "addIssueCommentGQL_dec =
     nest ''addComment'' (nest ''commentEdge'' (nest ''node'' (nest ''fullDatabaseId'' dec_string)))"

definition resolveThreadGQL_dec :: "bool upd" where
  "resolveThreadGQL_dec = nest ''result'' (nest ''thread'' (nest ''isResolved'' dec_bool))"

record mergeLookupGQL =
  ml_ID :: string
  ml_Merged :: bool
  ml_Mergeable :: string
  ml_MergeStateStatus :: string
  ml_HeadRefID :: string

definition zero_mergeLookup :: mergeLookupGQL where
  "zero_mergeLookup =
     \<lparr>ml_ID = [], ml_Merged = False, ml_Mergeable = [], ml_MergeStateStatus = [], ml_HeadRefID = []\<rparr>"

definition mergeLookupGQL_dec :: "mergeLookupGQL upd" where
  "mergeLookupGQL_dec = in_pull (dec_struct
     [fld ''id'' ml_ID ml_ID_update dec_string,
      fld ''merged'' ml_Merged ml_Merged_update dec_bool,
      fld ''mergeable'' ml_Mergeable ml_Mergeable_update dec_string,
      fld ''mergeStateStatus'' ml_MergeStateStatus ml_MergeStateStatus_update dec_string,
      fld ''headRef'' ml_HeadRefID ml_HeadRefID_update (nest ''id'' dec_string)])"

record mergePRGQL =
  mp_Merged :: bool
  mp_Oid :: string

definition zero_mergePR :: mergePRGQL where "zero_mergePR = \<lparr>mp_Merged = False, mp_Oid = []\<rparr>"

definition mergePRGQL_dec :: "mergePRGQL upd" where
  "mergePRGQL_dec =
     nest ''mergePullRequest'' (nest ''pullRequest'' (dec_struct
       [fld ''merged'' mp_Merged mp_Merged_update dec_bool,
        fld ''mergeCommit'' mp_Oid mp_Oid_update (nest ''oid'' dec_string)]))"

record setPRStateGQL =
  st_State :: string
  st_IsDraft :: bool

definition zero_setPRState :: setPRStateGQL where
  "zero_setPRState = \<lparr>st_State = [], st_IsDraft = False\<rparr>"

definition setPRStateGQL_dec :: "setPRStateGQL upd" where
  "setPRStateGQL_dec =
     nest ''result'' (nest ''pullRequest'' (dec_struct
       [fld ''state'' st_State st_State_update dec_string,
        fld ''isDraft'' st_IsDraft st_IsDraft_update dec_bool]))"

end
