(* ===== verification/Api_Errors.thy ===== *)
theory Api_Errors
  imports Dtos
begin

text \<open>
  \<open>internal/github/errors.go\<close>: how an HTTP response and a GraphQL error list become an error of
  the closed set, or none.
\<close>

section \<open>Responses\<close>

text \<open>
  What the sidecar reads of an HTTP response: the status code and line, the headers in order
  (\<open>Header.Get\<close> takes the first of a name, in any case), the bytes the body delivers, and the
  error that ends it when it does not end well.
\<close>

record http_response =
  hr_StatusCode :: int
  hr_Status :: string
  hr_Header :: "(string \<times> string) list"
  hr_Body :: string
  hr_BodyErr :: "string option"

definition same_name :: "string \<Rightarrow> string \<Rightarrow> bool" where
  "same_name a b \<longleftrightarrow> map lower_char a = map lower_char b"

definition header_get :: "http_response \<Rightarrow> string \<Rightarrow> string" where
  "header_get resp name =
     (case List.find (\<lambda>h. same_name (fst h) name) (hr_Header resp) of
        None \<Rightarrow> [] | Some h \<Rightarrow> snd h)"

definition is_2xx :: "http_response \<Rightarrow> bool" where
  "is_2xx resp \<longleftrightarrow> 200 \<le> hr_StatusCode resp \<and> hr_StatusCode resp < 300"

section \<open>REST\<close>

definition githubMessage :: "string \<Rightarrow> string \<Rightarrow> string" where
  "githubMessage body fallback =
     (case unmarshal body (dec_struct [(''message'', dec_string)]) [] of
        Some m \<Rightarrow> if m \<noteq> [] then m else fallback
      | None \<Rightarrow> fallback)"

definition secondaryLimit :: "string \<Rightarrow> bool" where
  "secondaryLimit msg =
     (let l = to_lower msg
      in contains_sub ''secondary rate limit'' l \<or> contains_sub ''abuse detection'' l)"

text \<open>The reset hint: \<open>Some\<close> positive seconds when the header holds a time in the future.\<close>

definition reset_hint :: "int \<Rightarrow> string \<Rightarrow> int option" where
  "reset_hint now reset =
     (if reset = [] then None
      else case parse_int64 reset of
             NumOk epoch \<Rightarrow>
               (let secs = wrap_int64 (epoch - now) in if secs > 0 then Some secs else None)
           | _ \<Rightarrow> None)"

definition rateLimited :: "int \<Rightarrow> http_response \<Rightarrow> int \<times> bool" where
  "rateLimited now resp =
     (let v = header_get resp ''Retry-After'';
          spent =
            (if header_get resp ''X-RateLimit-Remaining'' = ''0''
             then (case reset_hint now (header_get resp ''X-RateLimit-Reset'') of
                     Some secs \<Rightarrow> (secs, True) | None \<Rightarrow> (0, True))
             else (0, False))
      in if v \<noteq> [] then (case parse_int64 v of NumOk n \<Rightarrow> (n, True) | _ \<Rightarrow> spent) else spent)"

definition mapHTTP :: "int \<Rightarrow> http_response \<Rightarrow> string \<Rightarrow> perror option" where
  "mapHTTP now resp body =
     (if 200 \<le> hr_StatusCode resp \<and> hr_StatusCode resp < 300 then None
      else
        let msg = githubMessage body (hr_Status resp) in
        Some
          (if hr_StatusCode resp = 401 then NewError CodeAuth msg
           else if hr_StatusCode resp = 403 then
             (case rateLimited now resp of (ra, ok) \<Rightarrow>
                if ok then RateLimited msg ra
                else if secondaryLimit msg then RateLimited msg 0
                else NewError CodeAuth msg)
           else if hr_StatusCode resp = 429 then RateLimited msg (fst (rateLimited now resp))
           else if hr_StatusCode resp = 404 then NewError CodeNotFound msg
           else if hr_StatusCode resp = 409 then NewError CodeConflict msg
           else if hr_StatusCode resp = 422 then NewError CodeBadRequest msg
           else NewError CodeInternal msg))"

section \<open>GraphQL\<close>

record gqlError =
  ge_Type :: string
  ge_Message :: string

definition zero_gqlError :: gqlError where
  "zero_gqlError = \<lparr>ge_Type = [], ge_Message = []\<rparr>"

definition gqlError_dec :: "gqlError upd" where
  "gqlError_dec = dec_struct
     [fld ''type'' ge_Type ge_Type_update dec_string,
      fld ''message'' ge_Message ge_Message_update dec_string]"

definition gql_code :: "string \<Rightarrow> string" where
  "gql_code t =
     (if t = ''NOT_FOUND'' then CodeNotFound
      else if t = ''FORBIDDEN'' \<or> t = ''INSUFFICIENT_SCOPES'' then CodeAuth
      else if t = ''RATE_LIMITED'' then CodeRateLimited
      else if t = ''UNPROCESSABLE'' then CodeBadRequest
      else CodeInternal)"

definition mapGraphQL :: "gqlError list \<Rightarrow> perror option" where
  "mapGraphQL errs =
     (case errs of
        [] \<Rightarrow> None
      | e # _ \<Rightarrow>
          let msg = (if ge_Message e = [] then ''graphql error'' else ge_Message e);
              t = ge_Type e
          in Some
            (if t = ''NOT_FOUND'' then NewError CodeNotFound msg
             else if t = ''FORBIDDEN'' \<or> t = ''INSUFFICIENT_SCOPES'' then NewError CodeAuth msg
             else if t = ''RATE_LIMITED'' then RateLimited msg 0
             else if t = ''UNPROCESSABLE'' then NewError CodeBadRequest msg
             else NewError CodeInternal msg))"

section \<open>Lemmas\<close>

lemma mapHTTP_None: "mapHTTP now resp body = None \<longleftrightarrow> is_2xx resp"
  by (auto simp: mapHTTP_def is_2xx_def Let_def)

lemma mapHTTP_2xx [simp]: "is_2xx resp \<Longrightarrow> mapHTTP now resp body = None"
  by (simp add: mapHTTP_None)

lemma mapHTTP_closed: "mapHTTP now resp body = Some p \<Longrightarrow> pe_Code p \<in> set closed_codes"
  by (auto simp: mapHTTP_def Let_def split: if_splits prod.splits)

lemma mapGraphQL_None [simp]: "mapGraphQL errs = None \<longleftrightarrow> errs = []"
  by (auto simp: mapGraphQL_def Let_def split: list.splits)

lemma mapGraphQL_closed: "mapGraphQL errs = Some p \<Longrightarrow> pe_Code p \<in> set closed_codes"
  by (auto simp: mapGraphQL_def Let_def split: list.splits if_splits)

lemma mapGraphQL_code:
  "mapGraphQL (e # es) = Some p \<Longrightarrow> pe_Code p = gql_code (ge_Type e)"
  by (auto simp: mapGraphQL_def gql_code_def Let_def split: if_splits)

lemma mapGraphQL_message: "mapGraphQL errs = Some p \<Longrightarrow> pe_Message p \<noteq> []"
  by (auto simp: mapGraphQL_def Let_def split: list.splits if_splits)

lemma reset_hint_pos: "reset_hint now s = Some n \<Longrightarrow> 0 < n"
  by (auto simp: reset_hint_def Let_def split: if_splits num_parse.splits)

text \<open>Whether a response is a rate limit, by what its headers and its message say.\<close>

definition header_limit :: "http_response \<Rightarrow> bool" where
  "header_limit resp \<longleftrightarrow>
     (\<exists>n. parse_int64 (header_get resp ''Retry-After'') = NumOk n) \<or>
     header_get resp ''X-RateLimit-Remaining'' = ''0''"

lemma rateLimited_ok: "snd (rateLimited now resp) = header_limit resp"
  by (auto simp: rateLimited_def header_limit_def Let_def split: num_parse.splits option.splits)

lemma rateLimited_retry:
  "parse_int64 (header_get resp ''Retry-After'') = NumOk n \<Longrightarrow> rateLimited now resp = (n, True)"
  by (cases "header_get resp ''Retry-After'' = []") (auto simp: rateLimited_def Let_def)

lemma rateLimited_hint_nonneg:
  "(\<And>n. parse_int64 (header_get resp ''Retry-After'') = NumOk n \<Longrightarrow> 0 \<le> n) \<Longrightarrow>
    0 \<le> fst (rateLimited now resp)"
  by (auto simp: rateLimited_def Let_def dest!: reset_hint_pos
      split: num_parse.splits option.splits)

text \<open>The retry hint: a numeric \<open>Retry-After\<close> wins; else, with the budget spent, the seconds to a reset
  that lies in the future; else none.\<close>

definition retry_hint :: "int \<Rightarrow> http_response \<Rightarrow> int" where
  "retry_hint now resp =
     (case parse_int64 (header_get resp ''Retry-After'') of
        NumOk n \<Rightarrow> n
      | _ \<Rightarrow>
          if header_get resp ''X-RateLimit-Remaining'' \<noteq> ''0'' then 0
          else (case parse_int64 (header_get resp ''X-RateLimit-Reset'') of
                  NumOk epoch \<Rightarrow> max 0 (wrap_int64 (epoch - now)) | _ \<Rightarrow> 0))"

lemma rate_limit_hint: "fst (rateLimited now resp) = retry_hint now resp"
proof -
  have hint: "(case reset_hint now s of Some secs \<Rightarrow> (secs, True) | None \<Rightarrow> (0, True)) =
      ((case parse_int64 s of NumOk e \<Rightarrow> max 0 (wrap_int64 (e - now)) | _ \<Rightarrow> 0), True)" for s
    by (auto simp: reset_hint_def Let_def split: num_parse.splits)
  show ?thesis
    by (auto simp: rateLimited_def retry_hint_def Let_def hint split: num_parse.splits)
qed

text \<open>A rate limit is a 429, or a 403 whose headers or wording say so.\<close>

definition limited :: "http_response \<Rightarrow> string \<Rightarrow> bool" where
  "limited resp msg \<longleftrightarrow>
     hr_StatusCode resp = 429 \<or>
     hr_StatusCode resp = 403 \<and>
       (header_limit resp \<or>
        contains_sub ''secondary rate limit'' (to_lower msg) \<or> contains_sub ''abuse detection'' (to_lower msg))"

section \<open>Properties\<close>

text \<open>C30: How a response becomes an error.  A 2xx status, and no other, is none.  Any other is an error of
  the closed set with the body's message, or the status line when it has none.  A rate limit is a 429,
  and a 403 that says so with a numeric \<open>Retry-After\<close>, a spent budget or its wording; a 401 and every
  other 403 are \<open>auth\<close>; a 404 is \<open>not_found\<close>, a 409 \<open>conflict\<close>, a 422 \<open>bad_request\<close>, and everything else
  \<open>internal\<close>.  Only a rate limit has a retry hint: \<open>Retry-After\<close>, or with a spent budget the seconds to
  its reset, or 0; and 0 for one told by its wording alone.\<close>

theorem mapHTTP_classifies:
  "(mapHTTP now resp body = None \<longleftrightarrow> 200 \<le> hr_StatusCode resp \<and> hr_StatusCode resp < 300) \<and>
   (\<forall>p. mapHTTP now resp body = Some p \<longrightarrow>
      pe_Message p = githubMessage body (hr_Status resp) \<and>
      (pe_Code p = ''rate_limited'' \<longleftrightarrow> limited resp (pe_Message p)) \<and>
      (pe_Code p = ''auth'' \<longleftrightarrow>
         hr_StatusCode resp = 401 \<or> hr_StatusCode resp = 403 \<and> \<not> limited resp (pe_Message p)) \<and>
      (pe_Code p = ''not_found'' \<longleftrightarrow> hr_StatusCode resp = 404) \<and>
      (pe_Code p = ''conflict'' \<longleftrightarrow> hr_StatusCode resp = 409) \<and>
      (pe_Code p = ''bad_request'' \<longleftrightarrow> hr_StatusCode resp = 422) \<and>
      (pe_Code p = ''internal'' \<longleftrightarrow> hr_StatusCode resp \<notin> {401, 403, 404, 409, 422, 429}) \<and>
      pe_RetryAfter p = (if limited resp (pe_Message p) then retry_hint now resp else 0))"
proof (intro conjI allI impI)
  show "mapHTTP now resp body = None \<longleftrightarrow> 200 \<le> hr_StatusCode resp \<and> hr_StatusCode resp < 300"
    using mapHTTP_None by (simp add: is_2xx_def)
  fix p
  assume p: "mapHTTP now resp body = Some p"
  have ok: "snd (rateLimited now resp) = header_limit resp" by (rule rateLimited_ok)
  have none: "x = 0" if "rateLimited now resp = (x, False)" for x
    using that by (auto simp: rateLimited_def Let_def split: if_splits num_parse.splits option.splits)
  note split_up = mapHTTP_def Let_def secondaryLimit_def limited_def code_defs
    rate_limit_hint [symmetric] ok [symmetric]
  show "pe_Message p = githubMessage body (hr_Status resp)"
    using p by (auto simp: split_up split: if_splits prod.splits)
  show "pe_Code p = ''rate_limited'' \<longleftrightarrow> limited resp (pe_Message p)"
    "pe_Code p = ''auth'' \<longleftrightarrow>
         hr_StatusCode resp = 401 \<or> hr_StatusCode resp = 403 \<and> \<not> limited resp (pe_Message p)"
    "pe_Code p = ''not_found'' \<longleftrightarrow> hr_StatusCode resp = 404"
    "pe_Code p = ''conflict'' \<longleftrightarrow> hr_StatusCode resp = 409"
    "pe_Code p = ''bad_request'' \<longleftrightarrow> hr_StatusCode resp = 422"
    "pe_Code p = ''internal'' \<longleftrightarrow> hr_StatusCode resp \<notin> {401, 403, 404, 409, 422, 429}"
    "pe_RetryAfter p = (if limited resp (pe_Message p) then retry_hint now resp else 0)"
    using p by (auto simp: split_up dest: none split: if_splits prod.splits)
qed

text \<open>A 409, and a 403 that only its wording tells from a refusal.\<close>

theorem mapHTTP_classifies_witness:
  "(\<exists>p. mapHTTP 0 \<lparr>hr_StatusCode = 409, hr_Status = ''409 Conflict'', hr_Header = [],
      hr_Body = [], hr_BodyErr = None\<rparr> [] = Some p \<and> pe_Code p = ''conflict'') \<and>
   (\<exists>p. mapHTTP 0 \<lparr>hr_StatusCode = 403, hr_Status = ''Secondary rate limit'', hr_Header = [],
      hr_Body = [], hr_BodyErr = None\<rparr> [] = Some p \<and> pe_Code p = ''rate_limited'')"
proof -
  let ?r = "\<lparr>hr_StatusCode = 409, hr_Status = ''409 Conflict'', hr_Header = [], hr_Body = [], hr_BodyErr = None\<rparr>"
  let ?l = "\<lparr>hr_StatusCode = 403, hr_Status = ''Secondary rate limit'', hr_Header = [], hr_Body = [], hr_BodyErr = None\<rparr>"
  obtain p q where pq: "mapHTTP 0 ?r [] = Some p" "mapHTTP 0 ?l [] = Some q"
    using mapHTTP_classifies [of 0 ?r "[]"] mapHTTP_classifies [of 0 ?l "[]"] by fastforce
  have "parse_json [] = None" by code_simp
  then have "githubMessage [] s = s" for s by (simp add: githubMessage_def unmarshal_def)
  then have q: "pe_Message q = ''Secondary rate limit''"
    using mapHTTP_classifies [of 0 ?l "[]"] pq(2) by simp
  have "contains_sub ''secondary rate limit'' (to_lower ''Secondary rate limit'')" by code_simp
  then have "limited ?l (pe_Message q)" unfolding limited_def q by simp
  then have "pe_Code q = ''rate_limited''"
    using mapHTTP_classifies [of 0 ?l "[]"] pq(2) by blast
  moreover have "pe_Code p = ''conflict''"
    using mapHTTP_classifies [of 0 ?r "[]"] pq(1) by simp
  ultimately show ?thesis using pq by blast
qed

end
