(* ===== verification/Logx.thy ===== *)
theory Logx
  imports Go_Strings
begin

text \<open>
  \<open>internal/logx\<close>: the log levels and their order, the level the environment asks for, and the lines
  a logger writes to standard error.
\<close>

datatype level = LevelDebug | LevelInfo | LevelWarn | LevelError

text \<open>\<open>slog\<close>'s numeric levels, which order them.\<close>

fun level_rank :: "level \<Rightarrow> int" where
  "level_rank LevelDebug = -4"
| "level_rank LevelInfo = 0"
| "level_rank LevelWarn = 4"
| "level_rank LevelError = 8"

lemma level_rank_inj: "level_rank l = level_rank m \<Longrightarrow> l = m"
  by (cases l; cases m) auto

instantiation level :: linorder
begin

definition less_eq_level :: "level \<Rightarrow> level \<Rightarrow> bool" where
  "less_eq_level l m \<longleftrightarrow> level_rank l \<le> level_rank m"

definition less_level :: "level \<Rightarrow> level \<Rightarrow> bool" where
  "less_level l m \<longleftrightarrow> level_rank l < level_rank m"

instance
  by standard (auto simp: less_eq_level_def less_level_def intro: level_rank_inj)

end

definition LevelEnv :: string where "LevelEnv = ''DIFFER_LOG_LEVEL''"

definition ParseLevel :: "string \<Rightarrow> level \<times> bool" where
  "ParseLevel s =
     (let t = to_lower (trim_space s) in
      if t = [] then (LevelInfo, True)
      else if t = ''debug'' then (LevelDebug, True)
      else if t = ''info'' then (LevelInfo, True)
      else if t = ''warn'' \<or> t = ''warning'' then (LevelWarn, True)
      else if t = ''error'' then (LevelError, True)
      else (LevelInfo, False))"

text \<open>A line of the log: its level, its message and its attributes, times left out.\<close>

record log_entry =
  lg_Level :: level
  lg_Msg :: string
  lg_Attrs :: "(string \<times> string) list"

text \<open>What the logger \<open>New\<close> builds lets through.\<close>

definition logged :: "level \<Rightarrow> log_entry list \<Rightarrow> log_entry list" where
  "logged level es = filter (\<lambda>e. level \<le> lg_Level e) es"

end
