(* ===== verification/Transport.thy ===== *)
theory Transport
  imports Cache Api_Errors Logx
begin

text \<open>
  \<open>client.go\<close>, \<open>rest.go\<close> and \<open>graphql.go\<close> of \<open>internal/github\<close>: the client's configuration
  and state, one HTTP call, authenticated REST reads, pages behind \<open>Link\<close> headers, GraphQL
  calls and the cursor walk.  The HTTP client, the clock, the URL parser's verdict and the text a
  parsed URL prints as, the text of a decoding error, which depends on the type decoded into and the
  body, and the order in which the scheduler runs two goroutines are not under \<open>src/\<close>: they are the fields of \<open>env\<close>, over any type of world, and no theorem assumes anything
  of them beyond what it says.
\<close>

section \<open>The client\<close>

record http_request =
  hq_Method :: string
  hq_URL :: string
  hq_Header :: "(string \<times> string) list"
  hq_Body :: string

record 'w env =
  http_do :: "http_request \<Rightarrow> 'w \<Rightarrow> (string + http_response) \<times> 'w"
  now_unix :: "'w \<Rightarrow> int"
  url_err :: "string \<Rightarrow> string option"
  url_string :: "string \<Rightarrow> string"
  json_err :: "string \<Rightarrow> string \<Rightarrow> string"
  go_sched :: "'w \<Rightarrow> bool list"

record client_cfg =
  cf_token :: string
  cf_tokenErr :: "gerr option"
  cf_restURL :: string
  cf_gqlURL :: string

text \<open>The mutable part, with the calls made and the lines logged in their order.\<close>

record 'w client_st =
  cs_viewer :: string
  cs_cache :: cache
  cs_net :: 'w
  cs_calls :: "http_request list"
  cs_log :: "log_entry list"

definition defaultREST :: string where "defaultREST = ''https://api.github.com''"
definition defaultGQL :: string where "defaultGQL = ''https://api.github.com/graphql''"
definition apiVersion :: string where "apiVersion = ''2022-11-28''"

definition New :: "string \<Rightarrow> gerr option \<Rightarrow> 'w \<Rightarrow> client_cfg \<times> 'w client_st" where
  "New token tokenErr w =
     (\<lparr>cf_token = token, cf_tokenErr = tokenErr, cf_restURL = defaultREST, cf_gqlURL = defaultGQL\<rparr>,
      \<lparr>cs_viewer = [], cs_cache = newCache, cs_net = w, cs_calls = [], cs_log = []\<rparr>)"

type_synonym ('w, 'a) gh = "('w client_st, gerr, 'a) sem"

definition ClearCache :: "'w client_st \<Rightarrow> 'w client_st" where
  "ClearCache s = s\<lparr>cs_cache := clearAll (cs_cache s)\<rparr>"

section \<open>One call (rest.go, send)\<close>

definition maxResponse :: nat where "maxResponse = 32 * 1024 * 1024"

text \<open>\<open>io.ReadAll(io.LimitReader(resp.Body, maxResponse))\<close>: past the limit the reader ends as if
  the body did, so an error behind it is never seen.\<close>

definition read_body :: "http_response \<Rightarrow> string \<times> string option" where
  "read_body resp =
     (take maxResponse (hr_Body resp),
      if maxResponse \<le> length (hr_Body resp) then None else hr_BodyErr resp)"

text \<open>The three shapes of what \<open>send\<close> returns: no response, a response with a mapped error, and
  a response without one.\<close>

datatype sent = NoResponse gerr | Failed http_response string gerr | Received http_response string

text \<open>
  \<open>URL.Redacted\<close>: the password of a URL's user is masked.  The authority lies between the scheme's
  slashes and the path, and the user before its last at sign.
\<close>

definition redacted :: "string \<Rightarrow> string" where
  "redacted u =
     (let scheme = takeWhile (\<lambda>c. c \<noteq> CHR '':'') u; r = drop (length scheme + 3) u;
          auth = takeWhile (\<lambda>c. c \<notin> {CHR ''/'', CHR ''?'', CHR ''#''}) r;
          host = rev (takeWhile (\<lambda>c. c \<noteq> CHR ''@'') (rev auth));
          user = take (length auth - length host - 1) auth
      in if is_prefix ''://'' (drop (length scheme) u) \<and> CHR ''@'' \<in> set auth \<and> CHR '':'' \<in> set user
         then scheme @ ''://'' @ takeWhile (\<lambda>c. c \<noteq> CHR '':'') user @ '':xxxxx@'' @ host @
           drop (length auth) r
         else u)"

lemma redacted_samples:
  "redacted ''https://u:p@h/a'' = ''https://u:xxxxx@h/a''" "redacted ''https://h/a@b:c'' = ''https://h/a@b:c''"
  by code_simp+

text \<open>The one line \<open>send\<close> logs of a call, without its duration.\<close>

definition call_entry :: "'w env \<Rightarrow> http_request \<Rightarrow> string + http_response \<Rightarrow> log_entry" where
  "call_entry env req r =
     (case r of
        Inl e \<Rightarrow>
          \<lparr>lg_Level = LevelDebug, lg_Msg = ''github call failed'',
           lg_Attrs = [(''verb'', hq_Method req), (''url'', redacted (url_string env (hq_URL req))), (''err'', e)]\<rparr>
      | Inr resp \<Rightarrow>
          \<lparr>lg_Level = LevelDebug, lg_Msg = ''github call'',
           lg_Attrs = [(''verb'', hq_Method req), (''url'', redacted (url_string env (hq_URL req))),
             (''status'', itoa (hr_StatusCode resp)),
             (''ratelimit_remaining'', header_get resp ''X-RateLimit-Remaining'')]\<rparr>)"

definition send :: "'w env \<Rightarrow> http_request \<Rightarrow> 'w client_st \<Rightarrow> sent \<times> 'w client_st" where
  "send env req s =
     (case http_do env req (cs_net s) of (r, w) \<Rightarrow>
        (let s' = s\<lparr>cs_net := w, cs_calls := cs_calls s @ [req], cs_log := cs_log s @ [call_entry env req r]\<rparr>
         in case r of
              Inl e \<Rightarrow> (NoResponse (newError CodeNetwork (''network error: '' @ e)), s')
            | Inr resp \<Rightarrow>
                (case read_body resp of (body, rerr) \<Rightarrow>
                   (case mapHTTP (now_unix env w) resp body of
                      Some perr \<Rightarrow> (Failed resp body (Coded perr), s')
                    | None \<Rightarrow>
                        (case rerr of
                           Some e \<Rightarrow>
                             (Failed resp body (newError CodeNetwork (''reading response: '' @ e)), s')
                         | None \<Rightarrow> (Received resp body, s'))))))"

text \<open>The \<open>if err != nil { return err }\<close> of the callers that do not look at a failed response.\<close>

definition call :: "'w env \<Rightarrow> http_request \<Rightarrow> ('w, http_response \<times> string) gh" where
  "call env req s =
     (case send env req s of
        (NoResponse e, s') \<Rightarrow> (Inl e, s')
      | (Failed resp body e, s') \<Rightarrow> (Inl e, s')
      | (Received resp body, s') \<Rightarrow> (Inr (resp, body), s'))"

definition with_token :: "client_cfg \<Rightarrow> ('w, 'a) gh \<Rightarrow> ('w, 'a) gh" where
  "with_token cfg m = (case cf_tokenErr cfg of Some e \<Rightarrow> failE e | None \<Rightarrow> m)"

text \<open>\<open>http.NewRequestWithContext\<close>, which fails on a URL that does not parse.\<close>

definition NewRequest ::
  "'w env \<Rightarrow> string \<Rightarrow> string \<Rightarrow> (string \<times> string) list \<Rightarrow> string \<Rightarrow> ('w, http_request) gh" where
  "NewRequest env meth url header body =
     (case url_err env url of
        Some e \<Rightarrow> failE (newError CodeInternal e)
      | None \<Rightarrow> retE \<lparr>hq_Method = meth, hq_URL = url, hq_Header = header, hq_Body = body\<rparr>)"

text \<open>
  What the text of a decoding error depends on is the type decoded into, by its name \<open>ty\<close>, and the
  body.
\<close>

definition decode_err :: "'w env \<Rightarrow> string \<Rightarrow> string \<Rightarrow> string \<Rightarrow> gerr" where
  "decode_err env ty what body = newError CodeInternal (what @ json_err env ty body)"

definition or_decode_err :: "'w env \<Rightarrow> string \<Rightarrow> string \<Rightarrow> string \<Rightarrow> 'a option \<Rightarrow> ('w, 'a) gh" where
  "or_decode_err env ty what body r =
     (case r of None \<Rightarrow> failE (decode_err env ty what body) | Some x \<Rightarrow> retE x)"

section \<open>REST (rest.go)\<close>

definition RESTHeaders :: "client_cfg \<Rightarrow> (string \<times> string) list" where
  "RESTHeaders cfg =
     [(''Authorization'', ''Bearer '' @ cf_token cfg),
      (''Accept'', ''application/vnd.github+json''),
      (''X-GitHub-Api-Version'', apiVersion)]"

definition getJSON :: "'w env \<Rightarrow> client_cfg \<Rightarrow> string \<Rightarrow> string \<Rightarrow> 'a upd \<Rightarrow> 'a \<Rightarrow> ('w, 'a) gh" where
  "getJSON env cfg ty rawURL d zero =
     with_token cfg
       (bindE (NewRequest env ''GET'' rawURL (RESTHeaders cfg) []) (\<lambda>req.
        bindE (call env req) (\<lambda>(resp, body).
        or_decode_err env ty ''decoding response: '' body (unmarshal body d zero))))"

text \<open>
  \<open>linkNextRe\<close> matches \<open><\<close>, a run without \<open>>\<close>, \<open>>\<close>, white space, a semicolon, white space and
  \<open>rel="next"\<close>; \<open>FindStringSubmatch\<close> takes the leftmost match.
\<close>

definition re_space :: "char \<Rightarrow> bool" where
  "re_space c \<longleftrightarrow> c \<in> {CHR 0x09, CHR 0x0A, CHR 0x0C, CHR 0x0D, CHR '' ''}"

definition rel_next :: string where
  "rel_next = ''rel='' @ [CHR 0x22] @ ''next'' @ [CHR 0x22]"

definition link_at :: "string \<Rightarrow> string option" where
  "link_at s =
     (case s of
        [] \<Rightarrow> None
      | c # t \<Rightarrow>
          if c \<noteq> CHR ''<'' then None
          else
            let u = takeWhile (\<lambda>x. x \<noteq> CHR ''>'') t;
                r = dropWhile (\<lambda>x. x \<noteq> CHR ''>'') t
            in if u = [] \<or> r = [] then None
               else (case dropWhile re_space (tl r) of
                       [] \<Rightarrow> None
                     | d # r' \<Rightarrow>
                         if d = CHR '';'' \<and> is_prefix rel_next (dropWhile re_space r')
                         then Some u else None))"

fun nextLink :: "string \<Rightarrow> string" where
  "nextLink [] = []"
| "nextLink (c # cs) = (case link_at (c # cs) of Some u \<Rightarrow> u | None \<Rightarrow> nextLink cs)"

definition maxPages :: nat where "maxPages = 100"

text \<open>\<open>getPaged_from n\<close> is the loop with \<open>n\<close> pages of its cap left.\<close>

fun getPaged_from ::
  "nat \<Rightarrow> 'w env \<Rightarrow> client_cfg \<Rightarrow> string \<Rightarrow> 'a upd \<Rightarrow> 'a \<Rightarrow> string \<Rightarrow> 'a list \<Rightarrow> ('w, 'a list) gh" where
  "getPaged_from 0 env cfg ty d zero rawURL all = retE all"
| "getPaged_from (Suc n) env cfg ty d zero rawURL all =
     (if rawURL = [] then retE all
      else
        bindE (NewRequest env ''GET'' rawURL (RESTHeaders cfg) []) (\<lambda>req.
        bindE (call env req) (\<lambda>(resp, body).
        bindE (or_decode_err env ty ''decoding response: '' body (unmarshal body (dec_slice d zero) []))
          (\<lambda>items.
             getPaged_from n env cfg ty d zero (nextLink (header_get resp ''Link'')) (all @ items)))))"

definition getPaged :: "'w env \<Rightarrow> client_cfg \<Rightarrow> string \<Rightarrow> 'a upd \<Rightarrow> 'a \<Rightarrow> string \<Rightarrow> ('w, 'a list) gh" where
  "getPaged env cfg ty d zero rawURL = with_token cfg (getPaged_from maxPages env cfg ty d zero rawURL [])"

text \<open>Keys in the byte order Go sorts them by, for \<open>url.Values.Encode\<close> and for marshalled maps.\<close>

fun key_le :: "string \<Rightarrow> string \<Rightarrow> bool" where
  "key_le [] t = True"
| "key_le (c # cs) [] = False"
| "key_le (c # cs) (d # ds) =
     ((of_char c :: nat) < of_char d \<or> (c = d \<and> key_le cs ds))"

fun insert_key :: "string \<times> 'a \<Rightarrow> (string \<times> 'a) list \<Rightarrow> (string \<times> 'a) list" where
  "insert_key kv [] = [kv]"
| "insert_key kv (x # xs) = (if key_le (fst kv) (fst x) then kv # x # xs else x # insert_key kv xs)"

definition sort_keys :: "(string \<times> 'a) list \<Rightarrow> (string \<times> 'a) list" where
  "sort_keys kvs = foldr insert_key kvs []"

definition query :: "(string \<times> string) list \<Rightarrow> string" where
  "query kv =
     join_with ''&'' (map (\<lambda>(k, v). query_escape k @ ''='' @ query_escape v) (sort_keys kv))"

section \<open>GraphQL (graphql.go)\<close>

record envelope =
  ev_Data :: "json option"
  ev_Errors :: "gqlError list"

definition zero_envelope :: envelope where
  "zero_envelope = \<lparr>ev_Data = None, ev_Errors = []\<rparr>"

definition envelope_dec :: "envelope upd" where
  "envelope_dec = dec_struct
     [fld ''data'' ev_Data ev_Data_update dec_raw,
      fld ''errors'' ev_Errors ev_Errors_update (dec_slice gqlError_dec zero_gqlError)]"

text \<open>A \<open>map[string]any\<close> marshals with its keys sorted.\<close>

definition json_map :: "(string \<times> json) list \<Rightarrow> json" where
  "json_map kvs = JObj (sort_keys kvs)"

definition payload :: "string \<Rightarrow> (string \<times> json) list \<Rightarrow> string" where
  "payload q vars = json_text (json_map [(''query'', JStr q), (''variables'', json_map vars)])"

definition GQLHeaders :: "client_cfg \<Rightarrow> (string \<times> string) list" where
  "GQLHeaders cfg =
     [(''Authorization'', ''Bearer '' @ cf_token cfg),
      (''Content-Type'', ''application/json''),
      (''X-GitHub-Api-Version'', apiVersion)]"

text \<open>The call up to the decoded envelope, with the errors of the envelope mapped.\<close>

definition graphql_data ::
  "'w env \<Rightarrow> client_cfg \<Rightarrow> string \<Rightarrow> (string \<times> json) list \<Rightarrow> ('w, string \<times> json option) gh" where
  "graphql_data env cfg q vars =
     with_token cfg
       (bindE (NewRequest env ''POST'' (cf_gqlURL cfg) (GQLHeaders cfg) (payload q vars)) (\<lambda>req.
        bindE (call env req) (\<lambda>(resp, body).
        bindE (or_decode_err env ''envelope'' ''decoding graphql response: '' body
                 (unmarshal body envelope_dec zero_envelope)) (\<lambda>envl.
        case mapGraphQL (ev_Errors envl) of
          Some perr \<Rightarrow> failE (Coded perr)
        | None \<Rightarrow> retE (body, ev_Data envl)))))"

text \<open>With a target to decode \<open>data\<close> into; an absent \<open>data\<close> is an empty message, which does not
  decode, and a null one leaves the target at its zero value.\<close>

definition graphql ::
  "'w env \<Rightarrow> client_cfg \<Rightarrow> string \<Rightarrow> string \<Rightarrow> (string \<times> json) list \<Rightarrow> 'a upd \<Rightarrow> 'a \<Rightarrow> ('w, 'a) gh" where
  "graphql env cfg ty q vars d zero =
     bindE (graphql_data env cfg q vars) (\<lambda>(body, data).
       or_decode_err env ty ''decoding graphql data: '' body
         (case data of None \<Rightarrow> None | Some v \<Rightarrow> d v zero))"

text \<open>With \<open>out == nil\<close>.\<close>

definition graphql_nil ::
  "'w env \<Rightarrow> client_cfg \<Rightarrow> string \<Rightarrow> (string \<times> json) list \<Rightarrow> ('w, unit) gh" where
  "graphql_nil env cfg q vars = bindE (graphql_data env cfg q vars) (\<lambda>_. retE ())"

definition gqlMaxPages :: nat where "gqlMaxPages = 100"

definition nextCursor :: "string \<Rightarrow> pageInfoGQL \<Rightarrow> string \<times> bool" where
  "nextCursor prev info =
     (if \<not> pg_HasNextPage info \<or> pg_EndCursor info = [] \<or> pg_EndCursor info = prev
      then ([], False) else (pg_EndCursor info, True))"

text \<open>
  The loop the paginated reads share, \<open>for range gqlMaxPages\<close>: fetch the page at the cursor, fold
  it into what is collected, and go on while there is a next cursor.  The first argument is how
  many rounds are left.
\<close>

fun cursor_walk ::
  "nat \<Rightarrow> (string \<Rightarrow> ('w, 'p) gh) \<Rightarrow> ('p \<Rightarrow> pageInfoGQL) \<Rightarrow> (string \<Rightarrow> 'p \<Rightarrow> 'acc \<Rightarrow> 'acc) \<Rightarrow>
    string \<Rightarrow> 'acc \<Rightarrow> ('w, 'acc) gh" where
  "cursor_walk 0 fetch info collect cursor acc = retE acc"
| "cursor_walk (Suc n) fetch info collect cursor acc =
     bindE (fetch cursor) (\<lambda>page.
       let acc' = collect cursor page acc
       in case nextCursor cursor (info page) of
            (next', goes_on) \<Rightarrow>
              if \<not> goes_on then retE acc'
              else cursor_walk n fetch info collect next' acc')"

text \<open>The variables of a query on one pull request, and those of a page behind a cursor.\<close>

definition pr_vars :: "string \<Rightarrow> string \<Rightarrow> int \<Rightarrow> (string \<times> json) list" where
  "pr_vars owner repo number =
     [(''owner'', JStr owner), (''repo'', JStr repo), (''number'', json_int number)]"

definition page_vars :: "string \<Rightarrow> string \<Rightarrow> int \<Rightarrow> string \<Rightarrow> (string \<times> json) list" where
  "page_vars owner repo number cursor =
     pr_vars owner repo number @ (if cursor = [] then [] else [(''cursor'', JStr cursor)])"

section \<open>What every computation of the client respects\<close>

text \<open>
  \<open>emits P k m\<close>: \<open>m\<close> makes at most \<open>k\<close> calls, each satisfying \<open>P\<close>, and appends them to the
  calls made.
\<close>

named_theorems emits_intro \<open>bounds on the calls a computation makes\<close>

definition emits :: "(http_request \<Rightarrow> bool) \<Rightarrow> nat \<Rightarrow> ('w, 'a) gh \<Rightarrow> bool" where
  "emits P k m \<longleftrightarrow>
     (\<forall>s. \<exists>rs. cs_calls (snd (m s)) = cs_calls s @ rs \<and> length rs \<le> k \<and> (\<forall>r \<in> set rs. P r))"

lemma emitsD:
  assumes "emits P k m" and "m s = (r, s')"
  obtains rs where "cs_calls s' = cs_calls s @ rs" "length rs \<le> k" "\<forall>r \<in> set rs. P r"
  using assms unfolding emits_def by (metis snd_conv)

lemma emits_mono: "emits P j m \<Longrightarrow> j \<le> k \<Longrightarrow> emits P k m"
  unfolding emits_def by (meson le_trans)

lemma emits_weaken: "emits P j m \<Longrightarrow> (\<And>r. P r \<Longrightarrow> Q r) \<Longrightarrow> emits Q j m"
  unfolding emits_def by meson

lemma emits_retE [emits_intro]: "emits P 0 (retE a)"
  by (simp add: emits_def)

lemma emits_failE [emits_intro]: "emits P 0 (failE e)"
  by (simp add: emits_def)

lemma emits_bindE [emits_intro]:
  assumes m: "emits P j m" and f: "\<And>a. emits P k (f a)"
  shows "emits P (j + k) (bindE m f)"
  unfolding emits_def
proof
  fix s
  obtain r s1 where ms: "m s = (r, s1)" by fastforce
  from emitsD [OF m ms] obtain rs where rs: "cs_calls s1 = cs_calls s @ rs" "length rs \<le> j"
    "\<forall>r \<in> set rs. P r" .
  show "\<exists>rs. cs_calls (snd (bindE m f s)) = cs_calls s @ rs \<and> length rs \<le> j + k \<and> (\<forall>r \<in> set rs. P r)"
  proof (cases r)
    case (Inl e)
    with ms rs show ?thesis by (auto simp: bindE_def intro: exI [of _ rs])
  next
    case (Inr a)
    obtain r2 s2 where fs: "f a s1 = (r2, s2)" by fastforce
    from emitsD [OF f fs] obtain rs2 where "cs_calls s2 = cs_calls s1 @ rs2" "length rs2 \<le> k"
      "\<forall>r \<in> set rs2. P r" .
    with ms rs fs Inr show ?thesis by (auto simp: bindE_def intro!: exI [of _ "rs @ rs2"])
  qed
qed

lemma emits_max:
  "emits P j m \<Longrightarrow> emits P (max j k) m" "emits P k m \<Longrightarrow> emits P (max j k) m"
  by (auto elim: emits_mono)

lemma emits_if [emits_intro]:
  "emits P j m \<Longrightarrow> emits P k n \<Longrightarrow> emits P (max j k) (if b then m else n)"
  by (simp add: emits_max)

lemma emits_option [emits_intro]:
  "emits P j m \<Longrightarrow> (\<And>y. emits P k (f y)) \<Longrightarrow>
    emits P (max j k) (case x of None \<Rightarrow> m | Some y \<Rightarrow> f y)"
  by (cases x) (simp_all add: emits_max)

lemma emits_prod [emits_intro]:
  "(\<And>y z. emits P k (f y z)) \<Longrightarrow> emits P k (case x of (y, z) \<Rightarrow> f y z)"
  by (cases x) auto

lemma emits_list [emits_intro]:
  "emits P j m \<Longrightarrow> (\<And>y ys. emits P k (f y ys)) \<Longrightarrow>
    emits P (max j k) (case xs of [] \<Rightarrow> m | y # ys \<Rightarrow> f y ys)"
  by (cases xs) (simp_all add: emits_max)

lemma emits_Let [emits_intro]: "emits P k (f x) \<Longrightarrow> emits P k (let y = x in f y)"
  by simp

text \<open>Computations that touch neither the cache nor the memoised login.\<close>

named_theorems net_only_intro \<open>this computation leaves the cache and the login alone\<close>

definition net_only :: "('w, 'a) gh \<Rightarrow> bool" where
  "net_only m \<longleftrightarrow> (\<forall>s. cs_cache (snd (m s)) = cs_cache s \<and> cs_viewer (snd (m s)) = cs_viewer s)"

lemma net_only_retE [net_only_intro]: "net_only (retE a)"
  by (simp add: net_only_def)

lemma net_only_failE [net_only_intro]: "net_only (failE e)"
  by (simp add: net_only_def)

lemma net_only_bindE [net_only_intro]:
  "net_only m \<Longrightarrow> (\<And>a. net_only (f a)) \<Longrightarrow> net_only (bindE m f)"
  by (auto simp: net_only_def bindE_def split: prod.splits sum.splits) (metis snd_conv)+

lemma net_only_if [net_only_intro]:
  "net_only m \<Longrightarrow> net_only n \<Longrightarrow> net_only (if b then m else n)"
  by simp

lemma net_only_option [net_only_intro]:
  "net_only m \<Longrightarrow> (\<And>y. net_only (f y)) \<Longrightarrow> net_only (case x of None \<Rightarrow> m | Some y \<Rightarrow> f y)"
  by (cases x) auto

lemma net_only_prod [net_only_intro]:
  "(\<And>y z. net_only (f y z)) \<Longrightarrow> net_only (case x of (y, z) \<Rightarrow> f y z)"
  by (cases x) auto

lemma net_only_list [net_only_intro]:
  "net_only m \<Longrightarrow> (\<And>y ys. net_only (f y ys)) \<Longrightarrow> net_only (case xs of [] \<Rightarrow> m | y # ys \<Rightarrow> f y ys)"
  by (cases xs) auto

lemma net_only_Let [net_only_intro]: "net_only (f x) \<Longrightarrow> net_only (let y = x in f y)"
  by simp

lemma net_only_keeps:
  "net_only m \<Longrightarrow> keeps (\<lambda>s. I (cs_cache s) (cs_viewer s)) m"
  by (simp add: net_only_def keeps_def)

section \<open>One call\<close>

definition token_ok :: "client_cfg \<Rightarrow> bool" where
  "token_ok cfg \<longleftrightarrow> (\<forall>e. cf_tokenErr cfg = Some e \<longrightarrow> closed_err e)"

lemma errs_in_call [errs_intro]: "errs_in closed_err (call env req)"
  by (auto simp: errs_in_def call_def send_def Let_def
      split: prod.splits sum.splits option.splits sent.splits dest: mapHTTP_closed)

lemma errs_in_with_token [errs_intro]:
  "token_ok cfg \<Longrightarrow> errs_in closed_err m \<Longrightarrow> errs_in closed_err (with_token cfg m)"
  by (cases "cf_tokenErr cfg") (auto simp: with_token_def token_ok_def intro: errs_intro)

lemma errs_in_NewRequest [errs_intro]: "errs_in closed_err (NewRequest env meth url h b)"
  by (auto simp: NewRequest_def intro!: errs_intro)

lemma errs_in_or_decode_err [errs_intro]: "errs_in closed_err (or_decode_err env ty what b r)"
  by (auto simp: or_decode_err_def decode_err_def intro!: errs_intro)

lemma errs_in_getJSON [errs_intro]: "token_ok cfg \<Longrightarrow> errs_in closed_err (getJSON env cfg ty u d z)"
  unfolding getJSON_def by (intro errs_intro)

lemma errs_in_getPaged_from [errs_intro]:
  "errs_in closed_err (getPaged_from n env cfg ty d z url all)"
  by (induction n arbitrary: url all) (auto intro!: errs_intro)

lemma errs_in_getPaged [errs_intro]: "token_ok cfg \<Longrightarrow> errs_in closed_err (getPaged env cfg ty d z u)"
  unfolding getPaged_def by (intro errs_intro)

lemma errs_in_graphql_data [errs_intro]:
  "token_ok cfg \<Longrightarrow> errs_in closed_err (graphql_data env cfg q vars)"
  unfolding graphql_data_def by (intro errs_intro) (simp_all add: mapGraphQL_closed)

lemma errs_in_graphql [errs_intro]:
  "token_ok cfg \<Longrightarrow> errs_in closed_err (graphql env cfg ty q vars d z)"
  unfolding graphql_def by (intro errs_intro)

lemma errs_in_graphql_nil [errs_intro]:
  "token_ok cfg \<Longrightarrow> errs_in closed_err (graphql_nil env cfg q vars)"
  unfolding graphql_nil_def by (intro errs_intro)

lemma errs_in_cursor_walk [errs_intro]:
  "(\<And>c. errs_in closed_err (fetch c)) \<Longrightarrow> errs_in closed_err (cursor_walk n fetch info f c acc)"
proof (induction n arbitrary: c acc)
  case (Suc n)
  then show ?case
    unfolding cursor_walk.simps
    by (intro errs_in_bindE errs_in_Let) (auto split: prod.split intro: errs_intro)
qed (simp add: errs_intro)

lemma send_calls: "send env req s = (r, s') \<Longrightarrow> cs_calls s' = cs_calls s @ [req]"
  by (auto simp: send_def Let_def split: prod.splits sum.splits option.splits)

lemma send_net_only:
  "send env req s = (r, s') \<Longrightarrow> cs_cache s' = cs_cache s \<and> cs_viewer s' = cs_viewer s"
  by (auto simp: send_def Let_def split: prod.splits sum.splits option.splits)

lemma call_net_only [net_only_intro]: "net_only (call env req)"
  unfolding net_only_def call_def
  by (auto split: prod.splits sent.splits dest!: send_net_only)

lemma with_token_net_only [net_only_intro]: "net_only m \<Longrightarrow> net_only (with_token cfg m)"
  unfolding with_token_def by (intro net_only_intro)

lemma NewRequest_net_only [net_only_intro]: "net_only (NewRequest env meth url h b)"
  unfolding NewRequest_def by (intro net_only_intro)

lemma or_decode_err_net_only [net_only_intro]: "net_only (or_decode_err env ty what b r)"
  unfolding or_decode_err_def by (intro net_only_intro)

lemma getJSON_net_only [net_only_intro]: "net_only (getJSON env cfg ty u d z)"
  unfolding getJSON_def by (intro net_only_intro)

lemma getPaged_from_net_only [net_only_intro]: "net_only (getPaged_from n env cfg ty d z url all)"
  by (induction n arbitrary: url all) (auto intro!: net_only_intro)

lemma getPaged_net_only [net_only_intro]: "net_only (getPaged env cfg ty d z u)"
  unfolding getPaged_def by (intro net_only_intro)

lemma graphql_data_net_only [net_only_intro]: "net_only (graphql_data env cfg q vars)"
  unfolding graphql_data_def by (intro net_only_intro)

lemma graphql_net_only [net_only_intro]: "net_only (graphql env cfg ty q vars d z)"
  unfolding graphql_def by (intro net_only_intro)

lemma graphql_nil_net_only [net_only_intro]: "net_only (graphql_nil env cfg q vars)"
  unfolding graphql_nil_def by (intro net_only_intro)

lemma cursor_walk_net_only [net_only_intro]:
  "(\<And>c. net_only (fetch c)) \<Longrightarrow> net_only (cursor_walk n fetch info f c acc)"
proof (induction n arbitrary: c acc)
  case (Suc n)
  then show ?case
    unfolding cursor_walk.simps
    by (intro net_only_bindE net_only_Let) (auto split: prod.split intro: net_only_intro)
qed (simp add: net_only_intro)

section \<open>The calls a computation makes\<close>

text \<open>
  The variables a GraphQL document declares, read off the parenthesis behind the operation's
  name: each with whether its type is non-null, so that the call must give it.  A call is well
  formed when it gives only declared variables and all of the required ones.
\<close>

definition decl_of :: "string \<Rightarrow> string \<times> bool" where
  "decl_of t =
     (let v = tl (dropWhile (\<lambda>c. c \<noteq> CHR ''$'') t)
      in (takeWhile (\<lambda>c. c \<noteq> CHR '':'') v, last v = CHR ''!''))"

definition declared :: "string \<Rightarrow> (string \<times> bool) list" where
  "declared q =
     map decl_of (split_on CHR '',''
       (takeWhile (\<lambda>c. c \<noteq> CHR '')'') (tl (dropWhile (\<lambda>c. c \<noteq> CHR ''('') q))))"

definition vars_ok :: "string \<Rightarrow> (string \<times> json) list \<Rightarrow> bool" where
  "vars_ok q vars \<longleftrightarrow>
     list_all (\<lambda>(k, v). k \<in> fst ` set (declared q)) vars \<and>
     list_all (\<lambda>(k, required). required \<longrightarrow> k \<in> fst ` set vars) (declared q)"

text \<open>
  A REST read, and a GraphQL call of the document \<open>q\<close>; both carry the token, as a bearer token
  in the \<open>Authorization\<close> header.  \<open>sends cfg docs\<close>: made with a resolved token, and a REST read or
  a call of one of the documents.
\<close>

definition is_get :: "client_cfg \<Rightarrow> http_request \<Rightarrow> bool" where
  "is_get cfg r \<longleftrightarrow>
     hq_Method r = ''GET'' \<and> hq_Body r = [] \<and>
     map_of (hq_Header r) ''Authorization'' = Some (''Bearer '' @ cf_token cfg)"

definition is_gql :: "client_cfg \<Rightarrow> string \<Rightarrow> http_request \<Rightarrow> bool" where
  "is_gql cfg q r \<longleftrightarrow>
     hq_Method r = ''POST'' \<and> hq_URL r = cf_gqlURL cfg \<and> 
     (\<exists>vars. hq_Body r = payload q vars \<and> vars_ok q vars) \<and>
     map_of (hq_Header r) ''Authorization'' = Some (''Bearer '' @ cf_token cfg)"

definition sends :: "client_cfg \<Rightarrow> string list \<Rightarrow> http_request \<Rightarrow> bool" where
  "sends cfg docs r \<longleftrightarrow>
     cf_tokenErr cfg = None \<and> (is_get cfg r \<or> (\<exists>q \<in> set docs. is_gql cfg q r))"

lemma sends_mono: "sends cfg ds r \<Longrightarrow> set ds \<subseteq> set es \<Longrightarrow> sends cfg es r"
  by (auto simp: sends_def)

lemma emits_sends_mono: "emits (sends cfg ds) k m \<Longrightarrow> set ds \<subseteq> set es \<Longrightarrow> emits (sends cfg es) k m"
  by (erule emits_weaken) (rule sends_mono)

lemma emits_call: "P req \<Longrightarrow> emits P 1 (call env req)"
  unfolding emits_def call_def
  by (auto split: prod.splits sent.splits dest!: send_calls)

lemma emits_request:
  assumes "P \<lparr>hq_Method = meth, hq_URL = url, hq_Header = h, hq_Body = b\<rparr>"
    and "\<And>a. emits P k (f a)"
  shows "emits P (1 + k) (bindE (NewRequest env meth url h b) (\<lambda>req. bindE (call env req) f))"
proof (cases "url_err env url")
  case None
  then show ?thesis
    using emits_bindE [OF emits_call [of P, OF assms(1)] assms(2)] by (simp add: NewRequest_def)
next
  case (Some e)
  then show ?thesis by (simp add: NewRequest_def emits_def)
qed

lemma emits_with_token:
  "(cf_tokenErr cfg = None \<Longrightarrow> emits P k m) \<Longrightarrow> emits P k (with_token cfg m)"
  by (cases "cf_tokenErr cfg") (auto simp: with_token_def emits_def)

lemma emits_or_decode_err [emits_intro]: "emits P 0 (or_decode_err env ty what b r)"
  by (simp add: or_decode_err_def emits_def split: option.split)

lemma is_get_RESTHeaders:
  "is_get cfg \<lparr>hq_Method = ''GET'', hq_URL = url, hq_Header = RESTHeaders cfg, hq_Body = []\<rparr>"
  by (simp add: is_get_def RESTHeaders_def)

lemma emits_getJSON [emits_intro]: "emits (sends cfg docs) 1 (getJSON env cfg ty url d z)"
  unfolding getJSON_def
proof (rule emits_with_token)
  assume "cf_tokenErr cfg = None"
  then have P: "sends cfg docs \<lparr>hq_Method = ''GET'', hq_URL = url, hq_Header = RESTHeaders cfg, hq_Body = []\<rparr>"
    by (simp add: sends_def is_get_RESTHeaders)
  show "emits (sends cfg docs) 1
      (bindE (NewRequest env ''GET'' url (RESTHeaders cfg) []) (\<lambda>req. bindE (call env req)
        (\<lambda>(resp, body). or_decode_err env ty ''decoding response: '' body (unmarshal body d z))))"
    by (rule emits_mono, rule emits_request, rule P, (rule emits_intro)+, simp)
qed

lemma emits_getPaged_from:
  assumes "cf_tokenErr cfg = None"
  shows "emits (sends cfg docs) n (getPaged_from n env cfg ty d z url all)"
proof (induction n arbitrary: url all)
  case 0
  show ?case by (simp only: getPaged_from.simps emits_retE)
next
  case (Suc n)
  have P: "sends cfg docs \<lparr>hq_Method = ''GET'', hq_URL = u, hq_Header = RESTHeaders cfg, hq_Body = []\<rparr>" for u
    using assms by (simp add: sends_def is_get_RESTHeaders)
  show ?case
  proof (cases "url = []")
    case False
    have "emits (sends cfg docs) (1 + (0 + n)) (getPaged_from (Suc n) env cfg ty d z url all)"
      using False by (simp only: getPaged_from.simps if_False)
        (intro emits_request P emits_prod emits_bindE emits_or_decode_err Suc)
    then show ?thesis by simp
  qed (auto simp: emits_def)
qed

lemma emits_getPaged [emits_intro]: "emits (sends cfg docs) 100 (getPaged env cfg ty d z url)"
  unfolding getPaged_def
  by (rule emits_with_token) (use emits_getPaged_from [of cfg docs maxPages] in \<open>simp add: maxPages_def\<close>)

lemma emits_graphql_data:
  assumes "q \<in> set docs" and "vars_ok q vars"
  shows "emits (sends cfg docs) 1 (graphql_data env cfg q vars)"
  unfolding graphql_data_def
proof (rule emits_with_token)
  assume "cf_tokenErr cfg = None"
  then have P: "sends cfg docs \<lparr>hq_Method = ''POST'', hq_URL = cf_gqlURL cfg,
      hq_Header = GQLHeaders cfg, hq_Body = payload q vars\<rparr>"
    using assms by (auto simp: sends_def is_gql_def GQLHeaders_def)
  show "emits (sends cfg docs) 1
      (bindE (NewRequest env ''POST'' (cf_gqlURL cfg) (GQLHeaders cfg) (payload q vars)) (\<lambda>req.
        bindE (call env req) (\<lambda>(resp, body).
        bindE (or_decode_err env ''envelope'' ''decoding graphql response: '' body
                 (unmarshal body envelope_dec zero_envelope)) (\<lambda>envl.
        case mapGraphQL (ev_Errors envl) of
          Some perr \<Rightarrow> failE (Coded perr)
        | None \<Rightarrow> retE (body, ev_Data envl)))))"
    by (rule emits_mono, rule emits_request, rule P, (rule emits_intro)+, simp)
qed

lemma emits_graphql [emits_intro]:
  "q \<in> set docs \<Longrightarrow> vars_ok q vars \<Longrightarrow> emits (sends cfg docs) 1 (graphql env cfg ty q vars d z)"
  unfolding graphql_def
  by (rule emits_mono, rule emits_bindE, erule (1) emits_graphql_data, (rule emits_intro)+, simp)

lemma emits_graphql_nil [emits_intro]:
  "q \<in> set docs \<Longrightarrow> vars_ok q vars \<Longrightarrow> emits (sends cfg docs) 1 (graphql_nil env cfg q vars)"
  unfolding graphql_nil_def
  by (rule emits_mono, rule emits_bindE, erule (1) emits_graphql_data, rule emits_retE, simp)

lemma emits_cursor_walk:
  "(\<And>c. emits P 1 (fetch c)) \<Longrightarrow> emits P n (cursor_walk n fetch info f c acc)"
proof (induction n arbitrary: c acc)
  case 0
  show ?case by (simp only: cursor_walk.simps emits_retE)
next
  case (Suc n)
  have "emits P (1 + n) (cursor_walk (Suc n) fetch info f c acc)"
    unfolding cursor_walk.simps
    by (intro emits_bindE Suc.prems emits_Let emits_prod)
      (auto intro: Suc emits_mono [OF emits_retE])
  then show ?case by simp
qed

section \<open>Link headers\<close>

text \<open>The header GitHub writes: \<open><url>; rel="name"\<close> entries, separated by a comma and a space.\<close>

definition fmt_link :: "string \<times> string \<Rightarrow> string" where
  "fmt_link l = ''<'' @ fst l @ ''>; rel='' @ [CHR 0x22] @ snd l @ [CHR 0x22]"

definition link_ok :: "string \<times> string \<Rightarrow> bool" where
  "link_ok l \<longleftrightarrow> fst l \<noteq> [] \<and> CHR ''<'' \<notin> set (fst l) \<and> CHR ''>'' \<notin> set (fst l) \<and>
     CHR ''<'' \<notin> set (snd l) \<and> CHR 0x22 \<notin> set (snd l)"

lemma nextLink_skip: "CHR ''<'' \<notin> set xs \<Longrightarrow> nextLink (xs @ rest) = nextLink rest"
  by (induction xs) (auto simp: link_at_def)

lemma is_prefix_quoted:
  "CHR 0x22 \<notin> set q \<Longrightarrow> CHR 0x22 \<notin> set p \<Longrightarrow>
    is_prefix (p @ [CHR 0x22]) (q @ CHR 0x22 # rest) \<longleftrightarrow> p = q"
proof (induction p arbitrary: q)
  case Nil
  then show ?case by (cases q) auto
next
  case (Cons a p)
  then show ?case by (cases q) auto
qed

lemma link_at_fmt:
  assumes "link_ok l"
  shows "link_at (fmt_link l @ rest) = (if snd l = ''next'' then Some (fst l) else None)"
proof -
  obtain u rel where l: "l = (u, rel)" by fastforce
  have tw: "takeWhile (\<lambda>x. x \<noteq> CHR ''>'') (u @ CHR ''>'' # t) = u"
    "dropWhile (\<lambda>x. x \<noteq> CHR ''>'') (u @ CHR ''>'' # t) = CHR ''>'' # t" for t
    using assms by (auto simp: l link_ok_def takeWhile_append dropWhile_append)
  have "CHR 0x22 \<notin> set rel" using assms by (simp add: l link_ok_def)
  from is_prefix_quoted [OF this, of "''next''" rest]
  have "is_prefix (''next'' @ [CHR 0x22]) (rel @ CHR 0x22 # rest) \<longleftrightarrow> rel = ''next''" by auto
  then show ?thesis
    using assms by (simp add: l link_at_def fmt_link_def tw Let_def link_ok_def re_space_def rel_next_def)
qed

lemma nextLink_fmt:
  assumes "link_ok l"
  shows "nextLink (fmt_link l @ rest) = (if snd l = ''next'' then fst l else nextLink rest)"
proof -
  have cons: "fmt_link l @ rest = CHR ''<'' # (fst l @ ''>; rel='' @ [CHR 0x22] @ snd l @ [CHR 0x22]) @ rest"
    by (simp add: fmt_link_def)
  have skip: "nextLink ((fst l @ ''>; rel='' @ [CHR 0x22] @ snd l @ [CHR 0x22]) @ rest) = nextLink rest"
    using assms by (intro nextLink_skip) (auto simp: link_ok_def)
  show ?thesis
    unfolding cons nextLink.simps
    by (simp only: cons [symmetric] link_at_fmt [OF assms] skip split: if_splits option.splits) auto
qed

section \<open>The cursor walk against a server that keeps its pages\<close>

text \<open>
  The pages behind a connection, each with the cursor it is fetched by: a page names the cursor
  of the one behind it, and the last says there is none.
\<close>

fun chain :: "('p \<Rightarrow> pageInfoGQL) \<Rightarrow> (string \<times> 'p) list \<Rightarrow> bool" where
  "chain info [] = False"
| "chain info [(c, p)] = (\<not> snd (nextCursor c (info p)))"
| "chain info ((c, p) # (c', p') # ps) =
     (nextCursor c (info p) = (c', True) \<and> chain info ((c', p') # ps))"

text \<open>The calls the walk makes in turn are answered with these pages.\<close>

fun answered ::
  "(string \<Rightarrow> ('s, 'e, 'p) sem) \<Rightarrow> (string \<times> 'p) list \<Rightarrow> 's \<Rightarrow> 's \<Rightarrow> bool" where
  "answered fetch [] s s' = (s' = s)"
| "answered fetch ((c, p) # ps) s s' =
     (case fetch c s of
        (Inl e, s1) \<Rightarrow> False
      | (Inr q, s1) \<Rightarrow> q = p \<and> answered fetch ps s1 s')"

lemma cursor_walk_complete:
  assumes "chain info ((c, p) # ps)" and "answered fetch (take n ((c, p) # ps)) s s'"
  shows "cursor_walk n fetch info f c acc s =
    (Inr (fold (\<lambda>(c, p). f c p) (take n ((c, p) # ps)) acc), s')"
  using assms
proof (induction ps arbitrary: c p n acc s)
  case Nil
  then show ?case
    by (cases n) (auto simp: bindE_def Let_def split: prod.splits sum.splits)
next
  case (Cons cp ps)
  obtain c' p' where cp: "cp = (c', p')" by fastforce
  show ?case
  proof (cases n)
    case 0
    then show ?thesis using Cons.prems by simp
  next
    case (Suc m)
    with Cons.prems(2) obtain s1 where s1: "fetch c s = (Inr p, s1)"
      "answered fetch (take m ((c', p') # ps)) s1 s'"
      by (auto simp: cp split: prod.splits sum.splits)
    have "chain info ((c', p') # ps)" "nextCursor c (info p) = (c', True)"
      using Cons.prems(1) by (simp_all add: cp)
    with Cons.IH [of c' p' m s1 "f c p acc"] s1 show ?thesis
      by (simp add: Suc cp bindE_def)
  qed
qed

section \<open>Properties\<close>

text \<open>C36: Following a \<open>Link\<close> header: on a header of the form GitHub writes, \<open>nextLink\<close> gives the
  URL of the first entry whose relation is exactly \<open>next\<close>, and the empty string when there is
  none, so paging goes on exactly while the server names a next page.\<close>

theorem nextLink_finds_next:
  assumes "\<forall>l \<in> set ls. link_ok l"
  shows "nextLink (join_with '', '' (map fmt_link ls)) =
    (case List.find (\<lambda>l. snd l = ''next'') ls of None \<Rightarrow> [] | Some l \<Rightarrow> fst l)"
  using assms
proof (induction ls rule: induct_list012)
  case 1
  then show ?case by simp
next
  case (2 l)
  then show ?case using nextLink_fmt [of l "[]"] by simp
next
  case (3 l m ls)
  have "nextLink ('', '' @ r) = nextLink r" for r by (rule nextLink_skip) simp
  then show ?case using 3 nextLink_fmt [of l] by (simp del: nextLink.simps)
qed

theorem nextLink_finds_next_witness:
  "nextLink (join_with '', '' (map fmt_link [(''http://a?page=1'', ''prev''), (''http://a?page=3'', ''next'')])) =
   ''http://a?page=3''"
  by (subst nextLink_finds_next) (simp_all add: link_ok_def)

text \<open>C35: A REST read follows at most a hundred pages, and each of its calls is a GET that carries
  the token; without a token it makes no call and returns the resolution error.\<close>

theorem getPaged_bounded:
  "(\<exists>rs. cs_calls (snd (getPaged env cfg ty d zero url s)) = cs_calls s @ rs \<and> length rs \<le> 100 \<and>
      list_all (is_get cfg) rs \<and> (cf_tokenErr cfg = None \<or> rs = [])) \<and>
   (case cf_tokenErr cfg of Some e \<Rightarrow> getPaged env cfg ty d zero url s = (Inl e, s) | None \<Rightarrow> True)"
proof -
  obtain r s' where rs: "getPaged env cfg ty d zero url s = (r, s')" by fastforce
  obtain calls where calls: "cs_calls s' = cs_calls s @ calls" "length calls \<le> 100"
    "\<forall>r \<in> set calls. sends cfg [] r"
    by (rule emitsD [OF emits_getPaged rs])
  then have "list_all (is_get cfg) calls" by (auto simp: list_all_iff sends_def)
  moreover have "cf_tokenErr cfg = None \<or> calls = []"
    using calls(3) by (cases calls) (auto simp: sends_def)
  moreover have "case cf_tokenErr cfg of Some e \<Rightarrow> getPaged env cfg ty d zero url s = (Inl e, s) | None \<Rightarrow> True"
    by (simp add: getPaged_def with_token_def split: option.split)
  ultimately show ?thesis using calls rs by auto
qed

end
