(* ===== verification/Queries.thy ===== *)
theory Queries
  imports Transport
begin

text \<open>
  \<open>queries.go\<close> and \<open>mutations.go\<close> of \<open>internal/github\<close>: the GraphQL documents, byte for byte,
  and what each declares of its variables.
\<close>

section \<open>Reads (queries.go)\<close>

definition getPRQuery :: string where
  "getPRQuery = ''
query GetPR($owner: String!, $repo: String!, $number: Int!, $cursor: String) {
  repository(owner: $owner, name: $repo) {
    pullRequest(number: $number) {
      title
      body
      url
      state
      isDraft
      mergeable
      baseRefOid
      headRefOid
      headRefName
      author { login }
      files(first: 100, after: $cursor) {
        nodes {
          path
          viewerViewedState
        }
        pageInfo {
          hasNextPage
          endCursor
        }
      }
    }
  }
}''"

definition getThreadsQuery :: string where
  "getThreadsQuery = ''
query GetThreads($owner: String!, $repo: String!, $number: Int!, $cursor: String) {
  repository(owner: $owner, name: $repo) {
    pullRequest(number: $number) {
      reviewThreads(first: 100, after: $cursor) {
        nodes {
          id
          isResolved
          isOutdated
          path
          line
          startLine
          originalLine
          diffSide
          startDiffSide
          comments(first: 100) {
            nodes {
              id
              fullDatabaseId
              author { login }
              body
              createdAt
              state
              diffHunk
            }
          }
          newestComment: comments(last: 1) {
            nodes {
              id
              body
            }
          }
        }
        pageInfo {
          hasNextPage
          endCursor
        }
      }
    }
  }
}''"

definition getPendingReviewQuery :: string where
  "getPendingReviewQuery = ''
query GetPendingReview($owner: String!, $repo: String!, $number: Int!) {
  repository(owner: $owner, name: $repo) {
    pullRequest(number: $number) {
      reviews(first: 1, states: [PENDING]) {
        nodes {
          id
          comments(first: 100) {
            nodes {
              fullDatabaseId
              path
              line
              startLine
              body
            }
          }
        }
      }
    }
  }
}''"

definition getTimelineQuery :: string where
  "getTimelineQuery = ''
query GetTimeline($owner: String!, $repo: String!, $number: Int!, $cursor: String) {
  repository(owner: $owner, name: $repo) {
    pullRequest(number: $number) {
      comments(first: 100, after: $cursor) {
        nodes {
          author { login }
          body
          createdAt
        }
        pageInfo { hasNextPage endCursor }
      }
      reviews(first: 100) {
        nodes {
          author { login }
          state
          body
          submittedAt
        }
      }
    }
  }
}''"

definition getChecksQuery :: string where
  "getChecksQuery = ''
query GetChecks($owner: String!, $repo: String!, $number: Int!) {
  repository(owner: $owner, name: $repo) {
    pullRequest(number: $number) {
      commits(last: 1) {
        nodes {
          commit {
            statusCheckRollup {
              state
              contexts(first: 100) {
                nodes {
                  __typename
                  ... on CheckRun {
                    name
                    status
                    conclusion
                    detailsUrl
                    startedAt
                  }
                  ... on StatusContext {
                    context
                    state
                    targetUrl
                    createdAt
                  }
                }
              }
            }
          }
        }
      }
    }
  }
}''"

definition threadCommentsPage :: nat where
  "threadCommentsPage = 100"

section \<open>Mutations and their lookups (mutations.go)\<close>

definition startReviewLookupQuery :: string where
  "startReviewLookupQuery = ''
query StartReviewLookup($owner: String!, $repo: String!, $number: Int!) {
  repository(owner: $owner, name: $repo) {
    pullRequest(number: $number) {
      id
      reviews(first: 1, states: [PENDING]) {
        nodes { id }
      }
    }
  }
}''"

definition addReviewMutation :: string where
  "addReviewMutation = ''
mutation AddReview($prId: ID!) {
  addPullRequestReview(input: {pullRequestId: $prId}) {
    pullRequestReview { id }
  }
}''"

definition publishCommentMutation :: string where
  "publishCommentMutation = ''
mutation PublishComment($prId: ID!, $threads: [DraftPullRequestReviewThread!]) {
  addPullRequestReview(input: {pullRequestId: $prId, event: COMMENT, threads: $threads}) {
    pullRequestReview {
      comments(first: 1) { nodes { fullDatabaseId } }
    }
  }
}''"

definition submitReviewMutation :: string where
  "submitReviewMutation = ''
mutation SubmitReview($reviewId: ID!, $event: PullRequestReviewEvent!, $body: String) {
  submitPullRequestReview(input: {pullRequestReviewId: $reviewId, event: $event, body: $body}) {
    pullRequestReview { fullDatabaseId }
  }
}''"

definition deleteReviewMutation :: string where
  "deleteReviewMutation = ''
mutation DeleteReview($reviewId: ID!) {
  deletePullRequestReview(input: {pullRequestReviewId: $reviewId}) {
    pullRequestReview { id }
  }
}''"

definition prNodeIDQuery :: string where
  "prNodeIDQuery = ''
query PRNodeID($owner: String!, $repo: String!, $number: Int!) {
  repository(owner: $owner, name: $repo) {
    pullRequest(number: $number) { id }
  }
}''"

definition addThreadMutation :: string where
  "addThreadMutation = ''
mutation AddThread($reviewId: ID!, $path: String!, $body: String!, $line: Int!, $side: DiffSide!, $startLine: Int, $startSide: DiffSide) {
  addPullRequestReviewThread(input: {pullRequestReviewId: $reviewId, path: $path, body: $body, line: $line, side: $side, startLine: $startLine, startSide: $startSide}) {
    thread {
      id
      comments(first: 1) { nodes { fullDatabaseId } }
    }
  }
}''"

definition deleteCommentMutation :: string where
  "deleteCommentMutation = ''
mutation DeleteComment($id: ID!) {
  deletePullRequestReviewComment(input: {id: $id}) {
    pullRequestReview { id }
  }
}''"

definition addThreadReplyMutation :: string where
  "addThreadReplyMutation = ''
mutation AddThreadReply($threadId: ID!, $reviewId: ID, $body: String!) {
  addPullRequestReviewThreadReply(input: {pullRequestReviewThreadId: $threadId, pullRequestReviewId: $reviewId, body: $body}) {
    comment { fullDatabaseId }
  }
}''"

definition addIssueCommentMutation :: string where
  "addIssueCommentMutation = ''
mutation AddIssueComment($subjectId: ID!, $body: String!) {
  addComment(input: {subjectId: $subjectId, body: $body}) {
    commentEdge { node { fullDatabaseId } }
  }
}''"

definition resolveThreadMutation :: string where
  "resolveThreadMutation = ''
mutation Resolve($threadId: ID!) {
  result: resolveReviewThread(input: {threadId: $threadId}) {
    thread { isResolved }
  }
}''"

definition unresolveThreadMutation :: string where
  "unresolveThreadMutation = ''
mutation Unresolve($threadId: ID!) {
  result: unresolveReviewThread(input: {threadId: $threadId}) {
    thread { isResolved }
  }
}''"

definition markFileViewedMutation :: string where
  "markFileViewedMutation = ''
mutation MarkViewed($prId: ID!, $path: String!) {
  markFileAsViewed(input: {pullRequestId: $prId, path: $path}) { clientMutationId }
}''"

definition unmarkFileViewedMutation :: string where
  "unmarkFileViewedMutation = ''
mutation UnmarkViewed($prId: ID!, $path: String!) {
  unmarkFileAsViewed(input: {pullRequestId: $prId, path: $path}) { clientMutationId }
}''"

definition mergeLookupQuery :: string where
  "mergeLookupQuery = ''
query MergeLookup($owner: String!, $repo: String!, $number: Int!) {
  repository(owner: $owner, name: $repo) {
    pullRequest(number: $number) {
      id
      merged
      mergeable
      mergeStateStatus
      headRef { id }
    }
  }
}''"

definition mergePRMutation :: string where
  "mergePRMutation = ''
mutation Merge($prId: ID!, $method: PullRequestMergeMethod!, $headline: String, $body: String) {
  mergePullRequest(input: {pullRequestId: $prId, mergeMethod: $method, commitHeadline: $headline, commitBody: $body}) {
    pullRequest {
      merged
      mergeCommit { oid }
    }
  }
}''"

definition deleteRefMutation :: string where
  "deleteRefMutation = ''
mutation DeleteRef($refId: ID!) {
  deleteRef(input: {refId: $refId}) { clientMutationId }
}''"

definition readyForReviewMutation :: string where
  "readyForReviewMutation = ''
mutation Ready($prId: ID!) {
  result: markPullRequestReadyForReview(input: {pullRequestId: $prId}) { pullRequest { state isDraft } }
}''"

definition convertToDraftMutation :: string where
  "convertToDraftMutation = ''
mutation Draft($prId: ID!) {
  result: convertPullRequestToDraft(input: {pullRequestId: $prId}) { pullRequest { state isDraft } }
}''"

definition closePRMutation :: string where
  "closePRMutation = ''
mutation Close($prId: ID!) {
  result: closePullRequest(input: {pullRequestId: $prId}) { pullRequest { state isDraft } }
}''"

definition reopenPRMutation :: string where
  "reopenPRMutation = ''
mutation Reopen($prId: ID!) {
  result: reopenPullRequest(input: {pullRequestId: $prId}) { pullRequest { state isDraft } }
}''"

section \<open>Declared variables\<close>

lemma declared_getPRQuery [simp]:
  "declared getPRQuery = [(''owner'', True), (''repo'', True), (''number'', True), (''cursor'', False)]"
  by code_simp

lemma declared_getThreadsQuery [simp]:
  "declared getThreadsQuery = [(''owner'', True), (''repo'', True), (''number'', True), (''cursor'', False)]"
  by code_simp

lemma declared_getPendingReviewQuery [simp]:
  "declared getPendingReviewQuery = [(''owner'', True), (''repo'', True), (''number'', True)]"
  by code_simp

lemma declared_getTimelineQuery [simp]:
  "declared getTimelineQuery = [(''owner'', True), (''repo'', True), (''number'', True), (''cursor'', False)]"
  by code_simp

lemma declared_getChecksQuery [simp]:
  "declared getChecksQuery = [(''owner'', True), (''repo'', True), (''number'', True)]"
  by code_simp

lemma declared_startReviewLookupQuery [simp]:
  "declared startReviewLookupQuery = [(''owner'', True), (''repo'', True), (''number'', True)]"
  by code_simp

lemma declared_addReviewMutation [simp]:
  "declared addReviewMutation = [(''prId'', True)]"
  by code_simp

lemma declared_publishCommentMutation [simp]:
  "declared publishCommentMutation = [(''prId'', True), (''threads'', False)]"
  by code_simp

lemma declared_submitReviewMutation [simp]:
  "declared submitReviewMutation = [(''reviewId'', True), (''event'', True), (''body'', False)]"
  by code_simp

lemma declared_deleteReviewMutation [simp]:
  "declared deleteReviewMutation = [(''reviewId'', True)]"
  by code_simp

lemma declared_prNodeIDQuery [simp]:
  "declared prNodeIDQuery = [(''owner'', True), (''repo'', True), (''number'', True)]"
  by code_simp

lemma declared_addThreadMutation [simp]:
  "declared addThreadMutation = [(''reviewId'', True), (''path'', True), (''body'', True), (''line'', True), (''side'', True), (''startLine'', False), (''startSide'', False)]"
  by code_simp

lemma declared_deleteCommentMutation [simp]:
  "declared deleteCommentMutation = [(''id'', True)]"
  by code_simp

lemma declared_addThreadReplyMutation [simp]:
  "declared addThreadReplyMutation = [(''threadId'', True), (''reviewId'', False), (''body'', True)]"
  by code_simp

lemma declared_addIssueCommentMutation [simp]:
  "declared addIssueCommentMutation = [(''subjectId'', True), (''body'', True)]"
  by code_simp

lemma declared_resolveThreadMutation [simp]:
  "declared resolveThreadMutation = [(''threadId'', True)]"
  by code_simp

lemma declared_unresolveThreadMutation [simp]:
  "declared unresolveThreadMutation = [(''threadId'', True)]"
  by code_simp

lemma declared_markFileViewedMutation [simp]:
  "declared markFileViewedMutation = [(''prId'', True), (''path'', True)]"
  by code_simp

lemma declared_unmarkFileViewedMutation [simp]:
  "declared unmarkFileViewedMutation = [(''prId'', True), (''path'', True)]"
  by code_simp

lemma declared_mergeLookupQuery [simp]:
  "declared mergeLookupQuery = [(''owner'', True), (''repo'', True), (''number'', True)]"
  by code_simp

lemma declared_mergePRMutation [simp]:
  "declared mergePRMutation = [(''prId'', True), (''method'', True), (''headline'', False), (''body'', False)]"
  by code_simp

lemma declared_deleteRefMutation [simp]:
  "declared deleteRefMutation = [(''refId'', True)]"
  by code_simp

lemma declared_readyForReviewMutation [simp]:
  "declared readyForReviewMutation = [(''prId'', True)]"
  by code_simp

lemma declared_convertToDraftMutation [simp]:
  "declared convertToDraftMutation = [(''prId'', True)]"
  by code_simp

lemma declared_closePRMutation [simp]:
  "declared closePRMutation = [(''prId'', True)]"
  by code_simp

lemma declared_reopenPRMutation [simp]:
  "declared reopenPRMutation = [(''prId'', True)]"
  by code_simp

end
