(* ===== verification/Script_Server.thy ===== *)
theory Script_Server
  imports Transport
begin

text \<open>
  A server that plays back a list of responses, as the fake \<open>RoundTripper\<close> of the Go tests
  does, for the concrete instances of the theorems.  A body is the text of a JSON value, and
  what the client decodes from it comes from the round trip of the JSON theories, so no instance
  evaluates the scanner.
\<close>

definition script_env :: "http_response list env" where
  "script_env =
     \<lparr>http_do = (\<lambda>req w. case w of [] \<Rightarrow> (Inl ''end of script'', []) | r # rs \<Rightarrow> (Inr r, rs)),
      now_unix = (\<lambda>w. 0), url_err = (\<lambda>u. None), url_string = (\<lambda>u. u), json_err = (\<lambda>ty body. []),
      go_sched = (\<lambda>w. [False, True, False])\<rparr>"

definition ok_response :: "string \<Rightarrow> http_response" where
  "ok_response body =
     \<lparr>hr_StatusCode = 200, hr_Status = ''200 OK'', hr_Header = [], hr_Body = body, hr_BodyErr = None\<rparr>"

definition test_cfg :: client_cfg where
  "test_cfg = fst (New ''token'' None ())"

definition script :: "string list \<Rightarrow> http_response list client_st" where
  "script bodies = snd (New ''token'' None (map ok_response bodies))"

definition data_body :: "json \<Rightarrow> string" where
  "data_body j = json_text (JObj [(''data'', j)])"

section \<open>How long a text is\<close>

fun text_bound :: "json \<Rightarrow> nat" where
  "text_bound JNull = 4"
| "text_bound (JBool b) = 5"
| "text_bound (JNum l) = length l"
| "text_bound (JStr s) = 6 * length s + 2"
| "text_bound (JArr vs) = 2 + sum_list (map (\<lambda>v. text_bound v + 1) vs)"
| "text_bound (JObj kvs) = 2 + sum_list (map (\<lambda>(k, v). 6 * length k + 4 + text_bound v) kvs)"

lemma escape_string_length: "length (escape_string s) \<le> 6 * length s"
proof (induction s rule: escape_string.induct)
  case (2 c cs)
  have u: "length (u_escape n) = 6" for n by (simp add: u_escape_def)
  have a: "length (escape_ascii c) \<le> 6" by (simp add: escape_ascii_def u)
  have d: "n \<le> 6 * (length cs - 2) \<Longrightarrow> n \<le> 6 * length cs" for n by simp
  show ?case
    using 2 a
    by (subst escape_string.simps, cases "is_prefix [CHR 0x80, CHR 0xA8] cs")
      (auto simp: u min_def intro: d)
qed (simp add: escape_string.simps)

lemma quote_string_length: "length (quote_string s) \<le> 6 * length s + 2"
  using escape_string_length [of s] by (simp add: quote_string_def)

lemma join_with_length:
  "length (join_with sep ws) \<le> sum_list (map (\<lambda>w. length w + length sep) ws)"
  by (induction sep ws rule: join_with.induct) auto

lemma json_text_length: "length (json_text j) \<le> text_bound j"
proof (induction j)
  case (JStr s)
  then show ?case using quote_string_length by simp
next
  case (JArr vs)
  have "length (join_with '','' (map json_text vs)) \<le>
      sum_list (map (\<lambda>w. length w + length '','') (map json_text vs))"
    by (rule join_with_length)
  also have "\<dots> \<le> sum_list (map (\<lambda>v. text_bound v + 1) vs)"
    unfolding map_map by (rule sum_list_mono) (use JArr in auto)
  finally show ?case by simp
next
  case (JObj kvs)
  let ?f = "\<lambda>(k, v). quote_string k @ '':'' @ json_text v"
  have "length (join_with '','' (map ?f kvs)) \<le> sum_list (map (\<lambda>w. length w + length '','') (map ?f kvs))"
    by (rule join_with_length)
  also have "\<dots> \<le> sum_list (map (\<lambda>(k, v). 6 * length k + 4 + text_bound v) kvs)"
    unfolding map_map
  proof (rule sum_list_mono)
    fix kv
    assume kv: "kv \<in> set kvs"
    obtain k v where "kv = (k, v)" by fastforce
    with kv show "((\<lambda>w. length w + length '','') \<circ> ?f) kv \<le> (\<lambda>(k, v). 6 * length k + 4 + text_bound v) kv"
      using JObj [of kv v] quote_string_length [of k] by simp
  qed
  finally show ?case by simp
qed auto

section \<open>What the client makes of a scripted answer\<close>

lemma unmarshal_text:
  "json_ok j \<Longrightarrow> json_depth j \<le> max_nesting \<Longrightarrow> unmarshal (json_text j) d z = d j z"
  using parse_json_text [of j "[]"] by (simp add: unmarshal_def sep_end_def)

lemma script_call:
  assumes "cs_net s = ok_response body # rs" and "length body \<le> maxResponse"
  shows "call script_env req s =
    (Inr (ok_response body, body),
     s\<lparr>cs_net := rs, cs_calls := cs_calls s @ [req],
       cs_log := cs_log s @ [call_entry script_env req (Inr (ok_response body))]\<rparr>)"
  using assms
  by (simp add: call_def send_def script_env_def ok_response_def read_body_def is_2xx_def Let_def)

text \<open>An answer whose text is surely short enough, well formed and shallow.\<close>

definition scripted :: "json \<Rightarrow> bool" where
  "scripted j \<longleftrightarrow> json_ok j \<and> json_depth j < max_nesting \<and> text_bound j + 40 \<le> maxResponse"

definition gql_request :: "client_cfg \<Rightarrow> string \<Rightarrow> (string \<times> json) list \<Rightarrow> http_request" where
  "gql_request cfg q vars =
     \<lparr>hq_Method = ''POST'', hq_URL = cf_gqlURL cfg, hq_Header = GQLHeaders cfg,
      hq_Body = payload q vars\<rparr>"

lemma test_cfg_simps [simp]: "cf_tokenErr test_cfg = None" "cf_gqlURL test_cfg = defaultGQL"
  "cf_restURL test_cfg = defaultREST" "token_ok test_cfg"
  by (simp_all add: test_cfg_def New_def token_ok_def)

lemma script_url [simp]: "url_err script_env u = None"
  by (simp add: script_env_def)

lemma graphql_script:
  assumes "cf_tokenErr cfg = None" and "cs_net s = ok_response (data_body j) # rs"
    and "scripted j" and "d j zero = Some x"
  shows "graphql script_env cfg ty q vars d zero s =
    (Inr x, s\<lparr>cs_net := rs, cs_calls := cs_calls s @ [gql_request cfg q vars],
       cs_log := cs_log s @ [call_entry script_env (gql_request cfg q vars) (Inr (ok_response (data_body j)))]\<rparr>)"
proof -
  have "json_ok (JObj [(''data'', j)])" "json_depth (JObj [(''data'', j)]) \<le> max_nesting"
    using assms(3) unfolding scripted_def by (simp_all, code_simp)
  note ok = this
  have env: "unmarshal (data_body j) envelope_dec zero_envelope = Some \<lparr>ev_Data = Some j, ev_Errors = []\<rparr>"
    unfolding data_body_def unmarshal_text [OF ok]
    by (simp add: envelope_dec_def zero_envelope_def find_field_def fld_def dec_raw_def)
  have "length (data_body j) \<le> maxResponse"
    using json_text_length [of "JObj [(''data'', j)]"] assms(3)
    by (simp add: data_body_def scripted_def)
  with assms(1,2,4) env show ?thesis
    by (simp add: graphql_def graphql_data_def with_token_def NewRequest_def bindE_def script_call
        or_decode_err_def mapGraphQL_def gql_request_def)
qed

text \<open>The same with the state written out, as a rewrite rule for runs of several calls.\<close>

lemma graphql_script_step:
  assumes "cf_tokenErr cfg = None" and "scripted j" and "d j zero = Some x"
  shows "graphql script_env cfg ty q vars d zero
      \<lparr>cs_viewer = v, cs_cache = c, cs_net = ok_response (data_body j) # rs, cs_calls = cs, cs_log = lg\<rparr> =
    (Inr x, \<lparr>cs_viewer = v, cs_cache = c, cs_net = rs, cs_calls = cs @ [gql_request cfg q vars],
       cs_log = lg @ [call_entry script_env (gql_request cfg q vars) (Inr (ok_response (data_body j)))]\<rparr>)"
  by (subst graphql_script [of cfg _ j rs d zero x]) (use assms in simp_all)

lemma script_eq:
  "script bodies = \<lparr>cs_viewer = [], cs_cache = newCache, cs_net = map ok_response bodies, cs_calls = [],
     cs_log = []\<rparr>"
  by (simp add: script_def New_def)

lemma header_ok_response [simp]: "header_get (ok_response body) n = []"
  by (simp add: header_get_def ok_response_def)

text \<open>A paged read of one page, whose response names no next one.\<close>

lemma getPaged_script:
  assumes "cf_tokenErr cfg = None" "url \<noteq> []" "scripted j" "dec_slice d zero j [] = Some xs"
  shows "getPaged script_env cfg ty d zero url
      \<lparr>cs_viewer = v, cs_cache = c, cs_net = ok_response (json_text j) # rs, cs_calls = cs, cs_log = lg\<rparr> =
    (Inr xs, \<lparr>cs_viewer = v, cs_cache = c, cs_net = rs,
       cs_calls = cs @ [\<lparr>hq_Method = ''GET'', hq_URL = url, hq_Header = RESTHeaders cfg, hq_Body = []\<rparr>],
       cs_log = lg @ [call_entry script_env \<lparr>hq_Method = ''GET'', hq_URL = url, hq_Header = RESTHeaders cfg, hq_Body = []\<rparr>
         (Inr (ok_response (json_text j)))]\<rparr>)"
proof -
  have len: "length (json_text j) \<le> maxResponse"
    using assms(3) json_text_length [of j] by (simp add: scripted_def)
  have u: "unmarshal (json_text j) (dec_slice d zero) [] = Some xs"
    using assms(3,4) by (simp add: scripted_def unmarshal_text)
  have m: "maxPages = Suc (Suc 98)" by (simp add: maxPages_def)
  show ?thesis
    unfolding getPaged_def with_token_def m getPaged_from.simps
    using assms(1,2) len u
    by (simp add: bindE_def NewRequest_def script_call or_decode_err_def)
qed

text \<open>A REST read of one object.\<close>

lemma getJSON_script:
  assumes "cf_tokenErr cfg = None" "scripted j" "d j zero = Some x"
  shows "getJSON script_env cfg ty url d zero
      \<lparr>cs_viewer = v, cs_cache = c, cs_net = ok_response (json_text j) # rs, cs_calls = cs, cs_log = lg\<rparr> =
    (Inr x, \<lparr>cs_viewer = v, cs_cache = c, cs_net = rs,
       cs_calls = cs @ [\<lparr>hq_Method = ''GET'', hq_URL = url, hq_Header = RESTHeaders cfg, hq_Body = []\<rparr>],
       cs_log = lg @ [call_entry script_env \<lparr>hq_Method = ''GET'', hq_URL = url, hq_Header = RESTHeaders cfg, hq_Body = []\<rparr>
         (Inr (ok_response (json_text j)))]\<rparr>)"
proof -
  have len: "length (json_text j) \<le> maxResponse"
    using assms(2) json_text_length [of j] by (simp add: scripted_def)
  have u: "unmarshal (json_text j) d zero = Some x"
    using assms(2,3) by (simp add: scripted_def unmarshal_text)
  show ?thesis
    unfolding getJSON_def with_token_def
    using assms(1) len u by (simp add: bindE_def NewRequest_def script_call or_decode_err_def)
qed

end
