(* ===== verification/Github_Server.thy ===== *)
theory Github_Server
  imports Script_Server
begin

text \<open>
  The other side of a call: the requests the client may send, written out as the server reads them, and
  what a server's answer means to the client, said of \<open>http_do\<close> alone.  The theorems on what an
  operation does to the server's own state take such a server as a hypothesis.
\<close>

section \<open>Requests\<close>

text \<open>A query or mutation with its variables, and a read, both with the client's credentials.\<close>

definition post :: "client_cfg \<Rightarrow> string \<Rightarrow> (string \<times> json) list \<Rightarrow> http_request" where
  "post cfg doc vars =
     \<lparr>hq_Method = ''POST'', hq_URL = cf_gqlURL cfg,
      hq_Header =
        [(''Authorization'', ''Bearer '' @ cf_token cfg), (''Content-Type'', ''application/json''),
         (''X-GitHub-Api-Version'', ''2022-11-28'')],
      hq_Body = json_text (JObj [(''query'', JStr doc), (''variables'', JObj vars)])\<rparr>"

definition rest_get :: "client_cfg \<Rightarrow> string \<Rightarrow> http_request" where
  "rest_get cfg url =
     \<lparr>hq_Method = ''GET'', hq_URL = url,
      hq_Header =
        [(''Authorization'', ''Bearer '' @ cf_token cfg), (''Accept'', ''application/vnd.github+json''),
         (''X-GitHub-Api-Version'', ''2022-11-28'')],
      hq_Body = []\<rparr>"

lemma gql_request_post: "gql_request cfg doc vars = post cfg doc (sort_keys vars)"
  by (simp add: gql_request_def post_def GQLHeaders_def apiVersion_def payload_def json_map_def
      sort_keys_def)

section \<open>Answers\<close>

text \<open>A whole answer: a success whose body arrives in full and below the client's bound.\<close>

definition whole :: "http_response \<Rightarrow> bool" where
  "whole resp \<longleftrightarrow>
     200 \<le> hr_StatusCode resp \<and> hr_StatusCode resp < 300 \<and> hr_BodyErr resp = None \<and>
     length (hr_Body resp) < maxResponse"

text \<open>The GraphQL answers: with data alone, or with errors, whether there is data beside them or not.\<close>

definition has_data :: "http_response \<Rightarrow> json \<Rightarrow> bool" where
  "has_data resp d \<longleftrightarrow> whole resp \<and> parse_json (hr_Body resp) = Some (JObj [(''data'', d)])"

definition has_errors :: "http_response \<Rightarrow> bool" where
  "has_errors resp \<longleftrightarrow>
     (\<exists>e es. parse_json (hr_Body resp) = Some (JObj [(''errors'', JArr (e # es))]) \<or>
       (\<exists>d. parse_json (hr_Body resp) = Some (JObj [(''data'', d), (''errors'', JArr (e # es))])))"

text \<open>A call that is answered with this data.\<close>

definition answers_data :: "'w env \<Rightarrow> http_request \<Rightarrow> 'w \<Rightarrow> json \<Rightarrow> bool" where
  "answers_data env req w d \<longleftrightarrow> (\<exists>resp w'. http_do env req w = (Inr resp, w') \<and> has_data resp d)"

text \<open>If the call succeeds at all, and its body arrives, it has this data or is refused.\<close>

definition tells :: "http_response \<Rightarrow> json \<Rightarrow> bool" where
  "tells resp d \<longleftrightarrow>
     (200 \<le> hr_StatusCode resp \<and> hr_StatusCode resp < 300 \<longrightarrow>
        length (hr_Body resp) < maxResponse \<and>
        (hr_BodyErr resp = None \<longrightarrow>
           has_errors resp \<or> parse_json (hr_Body resp) = Some (JObj [(''data'', d)])))"

text \<open>A server that neither fails nor refuses a call, and a client with a token for it.\<close>

definition willing :: "'w env \<Rightarrow> client_cfg \<Rightarrow> bool" where
  "willing env cfg \<longleftrightarrow>
     cf_tokenErr cfg = None \<and> url_err env (cf_gqlURL cfg) = None \<and>
     (\<forall>req w. \<exists>resp w'. http_do env req w = (Inr resp, w') \<and> whole resp \<and> \<not> has_errors resp)"

section \<open>What the client makes of them\<close>

lemma envelope_data: "envelope_dec (JObj [(''data'', d)]) zero_envelope = Some \<lparr>ev_Data = Some d, ev_Errors = []\<rparr>"
  by (simp add: envelope_dec_def zero_envelope_def find_field_def fld_def dec_raw_def)

lemma dec_elems_Cons: "dec_elems d z old (v # vs) = Some xs \<Longrightarrow> xs \<noteq> []"
  by (auto split: option.splits)

lemma envelope_errors:
  assumes "has_errors resp" and "unmarshal (hr_Body resp) envelope_dec zero_envelope = Some envl"
  shows "ev_Errors envl \<noteq> []"
  using assms
  by (auto simp: has_errors_def unmarshal_def envelope_dec_def zero_envelope_def find_field_def fld_def
      dec_raw_def dec_slice_def split: option.splits dest: dec_elems_Cons)

text \<open>A call to the endpoint that parses is made once, whatever comes of it.\<close>

lemma graphql_data_calls:
  assumes "cf_tokenErr cfg = None" and "url_err env (cf_gqlURL cfg) = None"
    and "graphql_data env cfg q vars s = (r, s')"
  shows "cs_calls s' = cs_calls s @ [gql_request cfg q vars] \<and>
    cs_net s' = snd (http_do env (gql_request cfg q vars) (cs_net s))"
proof -
  let ?req = "gql_request cfg q vars"
  obtain snt s1 where snd: "send env ?req s = (snt, s1)" by fastforce
  then have s1: "cs_calls s1 = cs_calls s @ [?req]" "cs_net s1 = snd (http_do env ?req (cs_net s))"
    by (auto simp: send_def Let_def split: prod.splits sum.splits option.splits)
  have "s' = s1"
    using assms snd
    by (auto simp: graphql_data_def with_token_def NewRequest_def bindE_def call_def or_decode_err_def
        gql_request_def failE_def retE_def split: sent.splits option.splits sum.splits prod.splits)
  with s1 show ?thesis by simp
qed

lemma graphql_calls:
  assumes "cf_tokenErr cfg = None" and "url_err env (cf_gqlURL cfg) = None"
    and "graphql env cfg ty q vars d zero s = (r, s')"
  shows "cs_calls s' = cs_calls s @ [gql_request cfg q vars] \<and>
    cs_net s' = snd (http_do env (gql_request cfg q vars) (cs_net s))"
proof -
  obtain r1 s1 where data: "graphql_data env cfg q vars s = (r1, s1)" by fastforce
  with assms(3) have "s' = s1"
    by (auto simp: graphql_def bindE_def or_decode_err_def failE_def retE_def
        split: sum.splits option.splits prod.splits)
  with graphql_data_calls [OF assms(1,2) data] show ?thesis by simp
qed

text \<open>Data comes from an answer that has it, decoded.\<close>

lemma graphql_returns:
  assumes "graphql env cfg ty q vars d zero s = (Inr x, s')"
  obtains resp where "cf_tokenErr cfg = None" and "url_err env (cf_gqlURL cfg) = None"
    and "http_do env (gql_request cfg q vars) (cs_net s) = (Inr resp, cs_net s')"
    and "\<And>D. tells resp D \<Longrightarrow> has_data resp D \<and> d D zero = Some x"
proof -
  have cfg: "cf_tokenErr cfg = None" "url_err env (cf_gqlURL cfg) = None"
    using assms by (auto simp: graphql_def graphql_data_def with_token_def NewRequest_def bindE_def failE_def
        split: option.splits)
  let ?req = "gql_request cfg q vars"
  obtain r w where do: "http_do env ?req (cs_net s) = (r, w)" by fastforce
  have net: "cs_net s' = w" using graphql_calls [OF cfg assms] do by simp
  obtain resp where r: "r = Inr resp"
    using assms do cfg
    by (cases r) (auto simp: graphql_def graphql_data_def with_token_def NewRequest_def bindE_def call_def
        send_def gql_request_def failE_def)
  let ?body = "take maxResponse (hr_Body resp)"
  have ok: "is_2xx resp" "snd (read_body resp) = None"
    "\<exists>envl v. unmarshal ?body envelope_dec zero_envelope = Some envl \<and> ev_Errors envl = [] \<and>
       ev_Data envl = Some v \<and> d v zero = Some x"
    using assms do cfg mapHTTP_None [of "now_unix env w" resp ?body]
    by (auto simp: r graphql_def graphql_data_def with_token_def NewRequest_def bindE_def call_def or_decode_err_def
        send_def gql_request_def failE_def retE_def read_body_def Let_def
        split: option.splits sum.splits prod.splits if_splits)
  have "has_data resp D \<and> d D zero = Some x" if t: "tells resp D" for D
  proof -
    have short: "length (hr_Body resp) < maxResponse" using t ok(1) by (simp add: tells_def is_2xx_def)
    moreover from this have full: "hr_BodyErr resp = None" using ok(2) by (simp add: read_body_def)
    ultimately have "has_errors resp \<or> parse_json (hr_Body resp) = Some (JObj [(''data'', D)])"
      "?body = hr_Body resp"
      using t ok(1) by (simp_all add: tells_def is_2xx_def)
    with ok(1,3) short full show ?thesis
      using envelope_errors [of resp] by (auto simp: unmarshal_def envelope_data has_data_def whole_def is_2xx_def)
  qed
  with that cfg do net r show ?thesis by blast
qed

text \<open>An answer that has the data is returned, decoded.\<close>

lemma graphql_answered:
  assumes "cf_tokenErr cfg = None" and "url_err env (cf_gqlURL cfg) = None"
    and "http_do env (gql_request cfg q vars) (cs_net s) = (Inr resp, w)" and "has_data resp D"
  shows "fst (graphql env cfg ty q vars d zero s) =
    (case d D zero of Some x \<Rightarrow> Inr x
     | None \<Rightarrow> Inl (decode_err env ty ''decoding graphql data: '' (hr_Body resp)))"
proof -
  have "is_2xx resp" "length (hr_Body resp) < maxResponse" "hr_BodyErr resp = None"
    using assms(4) by (simp_all add: has_data_def whole_def is_2xx_def)
  moreover have "unmarshal (hr_Body resp) envelope_dec zero_envelope = Some \<lparr>ev_Data = Some D, ev_Errors = []\<rparr>"
    using assms(4) by (simp add: has_data_def unmarshal_def envelope_data)
  ultimately show ?thesis
    using assms(1-3)
    by (simp add: graphql_def graphql_data_def with_token_def NewRequest_def bindE_def call_def send_def
        read_body_def or_decode_err_def gql_request_def mapGraphQL_def Let_def failE_def retE_def split: option.split)
qed

text \<open>The same of a read.\<close>

lemma send_received:
  assumes "send env req s = (Received resp body, s')"
  shows "http_do env req (cs_net s) = (Inr resp, cs_net s') \<and> is_2xx resp \<and>
    (length (hr_Body resp) < maxResponse \<longrightarrow> hr_BodyErr resp = None \<and> body = hr_Body resp)"
  using assms mapHTTP_None
  by (auto simp: send_def read_body_def Let_def split: prod.splits sum.splits option.splits if_splits)

lemma send_whole:
  assumes "http_do env req (cs_net s) = (Inr resp, w)" and "whole resp"
  shows "fst (send env req s) = Received resp (hr_Body resp)"
proof -
  have "is_2xx resp" using assms(2) by (simp add: whole_def is_2xx_def)
  with assms show ?thesis by (simp add: send_def read_body_def whole_def Let_def)
qed

lemma send_state: "cs_viewer (snd (send env req s)) = cs_viewer s \<and> cs_calls (snd (send env req s)) = cs_calls s @ [req]"
  by (auto simp: send_def Let_def split: prod.splits sum.splits option.splits)

lemma getJSON_send:
  assumes "cf_tokenErr cfg = None" and "url_err env url = None"
  shows "getJSON env cfg ty url d zero s =
    (case send env (rest_get cfg url) s of
       (NoResponse e, s') \<Rightarrow> (Inl e, s')
     | (Failed resp body e, s') \<Rightarrow> (Inl e, s')
     | (Received resp body, s') \<Rightarrow>
         (case unmarshal body d zero of
            None \<Rightarrow> (Inl (decode_err env ty ''decoding response: '' body), s') | Some x \<Rightarrow> (Inr x, s')))"
proof -
  have "RESTHeaders cfg = hq_Header (rest_get cfg url)"
    by (simp add: RESTHeaders_def rest_get_def apiVersion_def)
  then have "\<lparr>hq_Method = ''GET'', hq_URL = url, hq_Header = RESTHeaders cfg, hq_Body = []\<rparr> = rest_get cfg url"
    by (simp add: rest_get_def)
  with assms show ?thesis
    by (auto simp: getJSON_def with_token_def NewRequest_def bindE_def call_def or_decode_err_def failE_def retE_def
        split: sent.splits prod.splits option.splits)
qed

lemma willing_answers:
  assumes "willing env cfg" and "\<And>resp w'. http_do env req w = (Inr resp, w') \<Longrightarrow> tells resp D"
  shows "answers_data env req w D"
proof -
  from assms(1) obtain resp w' where "http_do env req w = (Inr resp, w')" "whole resp" "\<not> has_errors resp"
    unfolding willing_def by blast
  with assms(2) [OF this(1)] show ?thesis
    by (auto simp: answers_data_def has_data_def tells_def whole_def)
qed

text \<open>The text of a value, as a whole answer.\<close>

lemma parse_text: "json_ok j \<Longrightarrow> json_depth j \<le> max_nesting \<Longrightarrow> parse_json (json_text j) = Some j"
  using parse_json_text [of j "[]"] by (simp add: sep_end_def)

lemma has_data_body: "scripted d \<Longrightarrow> has_data (ok_response (data_body d)) d"
proof -
  assume s: "scripted d"
  then have "json_ok (JObj [(''data'', d)])" "json_depth (JObj [(''data'', d)]) \<le> max_nesting"
    unfolding scripted_def by (simp_all, code_simp)
  then have "parse_json (data_body d) = Some (JObj [(''data'', d)])"
    unfolding data_body_def by (rule parse_text)
  moreover have "length (data_body d) < maxResponse"
    using json_text_length [of "JObj [(''data'', d)]"] s by (simp add: data_body_def scripted_def)
  ultimately show ?thesis by (simp add: has_data_def whole_def ok_response_def)
qed

text \<open>A paged read of one page.\<close>

lemma getPaged_page:
  assumes "cf_tokenErr cfg = None" and "url \<noteq> []" and "url_err env url = None"
    and "http_do env (rest_get cfg url) (cs_net s) = (Inr (ok_response (json_text j)), w)"
    and "scripted j" and "dec_slice d zero j [] = Some xs"
  shows "\<exists>s1. getPaged env cfg ty d zero url s = (Inr xs, s1) \<and> cs_viewer s1 = cs_viewer s \<and> cs_net s1 = w \<and>
    cs_calls s1 = cs_calls s @ [rest_get cfg url]"
proof -
  have len: "length (json_text j) \<le> maxResponse"
    using assms(5) json_text_length [of j] by (simp add: scripted_def)
  have u: "unmarshal (json_text j) (dec_slice d zero) [] = Some xs"
    using assms(5,6) by (simp add: scripted_def unmarshal_text)
  have m: "maxPages = Suc (Suc 98)" by (simp add: maxPages_def)
  have req: "\<lparr>hq_Method = ''GET'', hq_URL = url, hq_Header = RESTHeaders cfg, hq_Body = []\<rparr> = rest_get cfg url"
    by (simp add: RESTHeaders_def rest_get_def apiVersion_def)
  have ok: "is_2xx (ok_response b)" "read_body (ok_response (json_text j)) = (json_text j, None)" for b
    using len by (simp_all add: ok_response_def is_2xx_def read_body_def)
  show ?thesis
    unfolding getPaged_def with_token_def m getPaged_from.simps
    using assms(1-4) u
    by (simp add: bindE_def NewRequest_def call_def send_def or_decode_err_def req ok Let_def)
qed

end
