(* ===== verification/Reads.thy ===== *)
theory Reads
  imports Queries Github_Server
begin

text \<open>
  The read operations of the client: \<open>prs.go\<close>, \<open>files.go\<close>, \<open>threads.go\<close>, \<open>timeline.go\<close> and
  \<open>checks.go\<close> of \<open>internal/github\<close>.  Each is the whole method: the calls in their order, the
  state it memoises, and every early return.
\<close>

section \<open>Pull requests (prs.go)\<close>

definition viewerLogin :: "'w env \<Rightarrow> client_cfg \<Rightarrow> ('w, string) gh" where
  "viewerLogin env cfg s =
     (if cs_viewer s \<noteq> [] then (Inr (cs_viewer s), s)
      else
        bindE (getJSON env cfg ''userDTO'' (cf_restURL cfg @ ''/user'') userDTO_dec zero_user) (\<lambda>u.
          if us_Login u = []
          then failE (newError CodeAuth ''could not resolve the authenticated user'')
          else (\<lambda>s. (Inr (us_Login u), s\<lparr>cs_viewer := us_Login u\<rparr>))) s)"

definition hasReviewer :: "loginDTO list \<Rightarrow> string \<Rightarrow> bool" where
  "hasReviewer reviewers login \<longleftrightarrow> list_ex (\<lambda>r. lg_Login r = login) reviewers"

definition list_filters :: "string list" where
  "list_filters = [''open'', ''mine'', ''review_requested'']"

text \<open>Whether the loop of \<open>ListPRs\<close> gets past its \<open>continue\<close>s, and what it appends.\<close>

definition listed :: "string \<Rightarrow> string \<Rightarrow> pullDTO \<Rightarrow> bool" where
  "listed flt viewer p \<longleftrightarrow>
     (if flt = ''mine'' then lg_Login (pl_User p) = viewer
      else if flt = ''review_requested'' then hasReviewer (pl_Reviewers p) viewer
      else True)"

definition pull_PR :: "pullDTO \<Rightarrow> PR" where
  "pull_PR p =
     \<lparr>pr_Number = pl_Number p, pr_Title = pl_Title p, pr_Author = lg_Login (pl_User p),
      pr_HeadRef = pl_HeadRef p, pr_UpdatedAt = pl_UpdatedAt p, pr_Draft = pl_Draft p\<rparr>"

definition pulls_url :: "client_cfg \<Rightarrow> string \<Rightarrow> string \<Rightarrow> string" where
  "pulls_url cfg owner repo =
     cf_restURL cfg @ ''/repos/'' @ owner @ ''/'' @ repo @ ''/pulls?'' @
     query [(''state'', ''open''), (''per_page'', ''100''), (''sort'', ''updated''),
            (''direction'', ''desc'')]"

definition ListPRs ::
  "'w env \<Rightarrow> client_cfg \<Rightarrow> string \<Rightarrow> string \<Rightarrow> string \<Rightarrow> ('w, PR list) gh" where
  "ListPRs env cfg owner repo filter0 =
     (let flt = (if filter0 = [] then ''open'' else filter0) in
      if flt \<noteq> ''open'' \<and> flt \<noteq> ''mine'' \<and> flt \<noteq> ''review_requested''
      then failE (newError CodeBadRequest (''unknown filter: '' @ flt))
      else
        bindE (getPaged env cfg ''pullDTO'' pullDTO_dec zero_pull (pulls_url cfg owner repo)) (\<lambda>pulls.
        bindE (if flt \<noteq> ''open'' then viewerLogin env cfg else retE []) (\<lambda>viewer.
        retE (map pull_PR (filter (listed flt viewer) pulls)))))"

text \<open>What the page loop of \<open>GetPR\<close> collects: the viewed state of each path, a later page
  overwriting an earlier one, and the metadata of the first page.\<close>

definition add_viewed :: "fileNodeGQL list \<Rightarrow> (string \<rightharpoonup> string) \<Rightarrow> (string \<rightharpoonup> string)" where
  "add_viewed nodes viewed =
     fold (\<lambda>n m. m(fn_Path n \<mapsto> fn_ViewerViewedState n)) nodes viewed"

definition collect_pr ::
  "string \<Rightarrow> prDetailGQL \<Rightarrow> (string \<rightharpoonup> string) \<times> prDetailGQL \<Rightarrow> (string \<rightharpoonup> string) \<times> prDetailGQL" where
  "collect_pr cursor page acc =
     (add_viewed (cn_Nodes (gd_Files page)) (fst acc), if cursor = [] then page else snd acc)"

definition viewed_state :: "(string \<rightharpoonup> string) \<Rightarrow> string \<Rightarrow> string" where
  "viewed_state viewed path =
     (case viewed path of None \<Rightarrow> ''UNVIEWED'' | Some v \<Rightarrow> if v = [] then ''UNVIEWED'' else v)"

definition file_PRFile :: "(string \<rightharpoonup> string) \<Rightarrow> fileDTO \<Rightarrow> PRFile" where
  "file_PRFile viewed f =
     \<lparr>pf_Path = fd_Filename f, pf_Status = fd_Status f, pf_Additions = fd_Additions f,
      pf_Deletions = fd_Deletions f, pf_PreviousPath = fd_PreviousFilename f,
      pf_ViewedState = viewed_state viewed (fd_Filename f)\<rparr>"

definition pr_detail :: "prDetailGQL \<Rightarrow> PRFile list \<Rightarrow> PRDetail" where
  "pr_detail pr files =
     \<lparr>pd_Title = gd_Title pr, pd_Body = gd_Body pr, pd_Author = lg_Login (gd_Author pr),
      pd_BaseSHA = gd_BaseRefOid pr, pd_HeadSHA = gd_HeadRefOid pr,
      pd_HeadRef = gd_HeadRefName pr, pd_URL = gd_URL pr, pd_State = gd_State pr,
      pd_Draft = gd_IsDraft pr, pd_Mergeable = gd_Mergeable pr, pd_Files = files\<rparr>"

definition pull_url :: "client_cfg \<Rightarrow> string \<Rightarrow> string \<Rightarrow> int \<Rightarrow> string" where
  "pull_url cfg owner repo number =
     cf_restURL cfg @ ''/repos/'' @ owner @ ''/'' @ repo @ ''/pulls/'' @ itoa number"

definition GetPR ::
  "'w env \<Rightarrow> client_cfg \<Rightarrow> string \<Rightarrow> string \<Rightarrow> int \<Rightarrow> ('w, PRDetail) gh" where
  "GetPR env cfg owner repo number =
     bindE (cursor_walk gqlMaxPages
              (\<lambda>cursor. graphql env cfg ''prDetailGQL'' getPRQuery (page_vars owner repo number cursor)
                 prDetailGQL_dec zero_prDetail)
              (\<lambda>page. cn_PageInfo (gd_Files page)) collect_pr [] (Map.empty, zero_prDetail))
       (\<lambda>(viewed, meta).
     bindE (getPaged env cfg ''fileDTO'' fileDTO_dec zero_file
              (pull_url cfg owner repo number @ ''/files?per_page=100''))
       (\<lambda>restFiles.
     retE (pr_detail meta (map (file_PRFile viewed) restFiles))))"

section \<open>File versions (files.go)\<close>

definition prRefs ::
  "'w env \<Rightarrow> client_cfg \<Rightarrow> string \<Rightarrow> string \<Rightarrow> int \<Rightarrow> ('w, string \<times> string) gh" where
  "prRefs env cfg owner repo number =
     bindE (getJSON env cfg ''prRefsDTO'' (pull_url cfg owner repo number) prRefsDTO_dec zero_refs) (\<lambda>p.
       retE (rf_Base p, rf_Head p))"

definition HeadSHA ::
  "'w env \<Rightarrow> client_cfg \<Rightarrow> string \<Rightarrow> string \<Rightarrow> int \<Rightarrow> ('w, string) gh" where
  "HeadSHA env cfg owner repo number =
     bindE (prRefs env cfg owner repo number) (\<lambda>(base, head). retE head)"

definition escapePath :: "string \<Rightarrow> string" where
  "escapePath p = join_with ''/'' (map path_escape (split_on CHR ''/'' p))"

definition contents_url ::
  "client_cfg \<Rightarrow> string \<Rightarrow> string \<Rightarrow> string \<Rightarrow> string \<Rightarrow> string" where
  "contents_url cfg owner repo path ref =
     cf_restURL cfg @ ''/repos/'' @ owner @ ''/'' @ repo @ ''/contents/'' @ escapePath path @
     ''?ref='' @ query_escape ref"

definition RawHeaders :: "client_cfg \<Rightarrow> (string \<times> string) list" where
  "RawHeaders cfg =
     [(''Authorization'', ''Bearer '' @ cf_token cfg),
      (''Accept'', ''application/vnd.github.raw+json''),
      (''X-GitHub-Api-Version'', apiVersion)]"

text \<open>
  \<open>rawBlob\<close> in its three atomic parts, because two of them run at once: the lookup under the
  cache's lock, the call, and the store under the lock.  A task is where such a run stands.
\<close>

datatype task =
    Lookup
  | Fetch
  | Store FileBlob
  | Finished "gerr + FileBlob"

record blob_ref =
  br_owner :: string
  br_repo :: string
  br_path :: string
  br_ref :: string

definition ref_key :: "blob_ref \<Rightarrow> string" where
  "ref_key b = blobKey (br_owner b) (br_repo b) (br_ref b) (br_path b)"

definition ref_url :: "client_cfg \<Rightarrow> blob_ref \<Rightarrow> string" where
  "ref_url cfg b = contents_url cfg (br_owner b) (br_repo b) (br_path b) (br_ref b)"

definition raw_request :: "client_cfg \<Rightarrow> blob_ref \<Rightarrow> http_request" where
  "raw_request cfg b =
     \<lparr>hq_Method = ''GET'', hq_URL = ref_url cfg b, hq_Header = RawHeaders cfg, hq_Body = []\<rparr>"

text \<open>What a sent request means for the blob: a 404 is a missing path, before the error is
  looked at.\<close>

definition blob_of_sent :: "sent \<Rightarrow> gerr + FileBlob" where
  "blob_of_sent r =
     (case r of
        NoResponse e \<Rightarrow> Inl e
      | Failed resp body e \<Rightarrow>
          if hr_StatusCode resp = 404 then Inr \<lparr>fb_Content = [], fb_Missing = True\<rparr> else Inl e
      | Received resp body \<Rightarrow>
          if hr_StatusCode resp = 404 then Inr \<lparr>fb_Content = [], fb_Missing = True\<rparr>
          else Inr \<lparr>fb_Content = body, fb_Missing = False\<rparr>)"

definition task_step ::
  "'w env \<Rightarrow> client_cfg \<Rightarrow> blob_ref \<Rightarrow> task \<Rightarrow> 'w client_st \<Rightarrow> task \<times> 'w client_st" where
  "task_step env cfg b t s =
     (case t of
        Lookup \<Rightarrow>
          (case cf_tokenErr cfg of
             Some e \<Rightarrow> (Finished (Inl e), s)
           | None \<Rightarrow>
               (case blob (ref_key b) (cs_cache s) of
                  (Some v, c) \<Rightarrow> (Finished (Inr v), s\<lparr>cs_cache := c\<rparr>)
                | (None, c) \<Rightarrow> (Fetch, s\<lparr>cs_cache := c\<rparr>)))
      | Fetch \<Rightarrow>
          (case url_err env (ref_url cfg b) of
             Some e \<Rightarrow> (Finished (Inl (newError CodeInternal e)), s)
           | None \<Rightarrow>
               (case send env (raw_request cfg b) s of
                  (r, s') \<Rightarrow>
                    (case blob_of_sent r of
                       Inl e \<Rightarrow> (Finished (Inl e), s')
                     | Inr v \<Rightarrow> (Store v, s'))))
      | Store v \<Rightarrow>
          (Finished (Inr v), s\<lparr>cs_cache := putBlob (ref_key b) v (cs_cache s)\<rparr>)
      | Finished r \<Rightarrow> (Finished r, s))"

fun is_finished :: "task \<Rightarrow> bool" where
  "is_finished (Finished r) = True"
| "is_finished t = False"

text \<open>Running one of two tasks at a time, as the schedule says (\<open>True\<close> for the base blob); a
  finished task leaves its turn to the other, and an exhausted schedule favours the base.  Three
  steps finish a task, so six always finish both.\<close>

fun run_tasks ::
  "nat \<Rightarrow> bool list \<Rightarrow> 'w env \<Rightarrow> client_cfg \<Rightarrow> blob_ref \<Rightarrow> blob_ref \<Rightarrow> task \<Rightarrow> task \<Rightarrow>
    'w client_st \<Rightarrow> (task \<times> task) \<times> 'w client_st" where
  "run_tasks 0 sched env cfg b h tb th s = ((tb, th), s)"
| "run_tasks (Suc n) sched env cfg b h tb th s =
     (let first = (case sched of [] \<Rightarrow> True | x # xs \<Rightarrow> x); rest = tl sched in
      if is_finished tb \<and> is_finished th then ((tb, th), s)
      else if is_finished th \<or> (first \<and> \<not> is_finished tb) then
        (case task_step env cfg b tb s of (tb', s') \<Rightarrow> run_tasks n rest env cfg b h tb' th s')
      else
        (case task_step env cfg h th s of (th', s') \<Rightarrow> run_tasks n rest env cfg b h tb th' s'))"

definition both_blobs ::
  "bool list \<Rightarrow> 'w env \<Rightarrow> client_cfg \<Rightarrow> blob_ref \<Rightarrow> blob_ref \<Rightarrow> ('w, FileVersions) gh" where
  "both_blobs sched env cfg b h s =
     (case run_tasks 6 sched env cfg b h Lookup Lookup s of
        ((Finished (Inl e), _), s') \<Rightarrow> (Inl e, s')
      | ((Finished (Inr base), Finished (Inl e)), s') \<Rightarrow> (Inl e, s')
      | ((Finished (Inr base), Finished (Inr head)), s') \<Rightarrow>
          (Inr \<lparr>fv_Base = base, fv_Head = head, fv_Truncated = False\<rparr>, s')
      | ((_, _), s') \<Rightarrow> (Inl (Plain []), s'))"

definition GetFileVersions ::
  "'w env \<Rightarrow> client_cfg \<Rightarrow> string \<Rightarrow> string \<Rightarrow> int \<Rightarrow> string \<Rightarrow> string \<Rightarrow> string \<Rightarrow> string \<Rightarrow>
    ('w, FileVersions) gh" where
  "GetFileVersions env cfg owner repo number path basePath0 base0 head0 =
     (let basePath = (if basePath0 = [] then path else basePath0) in
      bindE (if base0 = [] \<or> head0 = [] then prRefs env cfg owner repo number
             else retE (base0, head0)) (\<lambda>(base, head).
      (\<lambda>s. both_blobs (go_sched env (cs_net s)) env cfg
         \<lparr>br_owner = owner, br_repo = repo, br_path = basePath, br_ref = base\<rparr>
         \<lparr>br_owner = owner, br_repo = repo, br_path = path, br_ref = head\<rparr> s)))"

section \<open>Threads (threads.go)\<close>

definition deref :: "int option \<Rightarrow> int" where
  "deref p = (case p of None \<Rightarrow> 0 | Some i \<Rightarrow> i)"

text \<open>\<open>n, _ := strconv.ParseInt(s, 10, 64)\<close>: the error is dropped, the value is kept.\<close>

definition parseID :: "string \<Rightarrow> int" where
  "parseID s = num_value (parse_int64 s)"

definition thread_comment :: "commentGQL \<Rightarrow> ThreadComment" where
  "thread_comment cm =
     \<lparr>tc_ID = parseID (cg_FullDatabaseID cm), tc_NodeID = cg_ID cm,
      tc_Author = lg_Login (cg_Author cm), tc_Body = cg_Body cm,
      tc_CreatedAt = cg_CreatedAt cm, tc_DiffHunk = cg_DiffHunk cm\<rparr>"

definition thread_of :: "threadNodeGQL \<Rightarrow> Thread" where
  "thread_of n =
     \<lparr>th_ID = (case tn_Comments n of [] \<Rightarrow> 0 | root # _ \<Rightarrow> parseID (cg_FullDatabaseID root)),
      th_ThreadID = tn_ID n, th_Path = tn_Path n, th_Side = tn_DiffSide n,
      th_Line = deref (tn_Line n), th_StartSide = tn_StartSide n,
      th_StartLine = deref (tn_StartLine n), th_Outdated = tn_IsOutdated n,
      th_OriginalLine = deref (tn_OriginalLine n), th_Resolved = tn_IsResolved n,
      th_IsPending =
        (case tn_Comments n of [] \<Rightarrow> False | root # _ \<Rightarrow> cg_State root = ''PENDING''),
      th_Comments = map thread_comment (tn_Comments n),
      th_CommentsTruncated = (length (tn_Comments n) \<ge> threadCommentsPage),
      th_NewestComment =
        (case tn_NewestComment n of
           [] \<Rightarrow> None | c # _ \<Rightarrow> Some \<lparr>nc_NodeID = nw_ID c, nc_Body = nw_Body c\<rparr>)\<rparr>"

definition collect_threads :: "string \<Rightarrow> threadsGQL \<Rightarrow> Thread list \<Rightarrow> Thread list" where
  "collect_threads cursor page out = out @ map thread_of (cn_Nodes page)"

definition GetThreads ::
  "'w env \<Rightarrow> client_cfg \<Rightarrow> string \<Rightarrow> string \<Rightarrow> int \<Rightarrow> ('w, Thread list) gh" where
  "GetThreads env cfg owner repo number =
     cursor_walk gqlMaxPages
       (\<lambda>cursor. graphql env cfg ''threadsGQL'' getThreadsQuery (page_vars owner repo number cursor)
          threadsGQL_dec zero_connection)
       cn_PageInfo collect_threads [] []"

definition pending_comment :: "draftNodeGQL \<Rightarrow> PendingComment" where
  "pending_comment cm =
     \<lparr>pc_ID = parseID (dn_FullDatabaseID cm), pc_Path = dn_Path cm, pc_Side = [],
      pc_Line = deref (dn_Line cm), pc_StartSide = [], pc_StartLine = deref (dn_StartLine cm),
      pc_Body = dn_Body cm\<rparr>"

definition GetPendingReview ::
  "'w env \<Rightarrow> client_cfg \<Rightarrow> string \<Rightarrow> string \<Rightarrow> int \<Rightarrow> ('w, PendingReview) gh" where
  "GetPendingReview env cfg owner repo number =
     bindE (graphql env cfg ''pendingReviewGQL'' getPendingReviewQuery (pr_vars owner repo number)
              pendingReviewGQL_dec []) (\<lambda>nodes.
       case nodes of
         [] \<Rightarrow> retE \<lparr>pv_ReviewID = None, pv_Comments = []\<rparr>
       | r # _ \<Rightarrow>
           retE \<lparr>pv_ReviewID = Some (pn_ID r), pv_Comments = map pending_comment (pn_Comments r)\<rparr>)"

section \<open>The timeline (timeline.go)\<close>

definition timeline_comment :: "issueNodeGQL \<Rightarrow> TimelineComment" where
  "timeline_comment n =
     \<lparr>tm_Author = lg_Login (is_Author n), tm_Body = is_Body n, tm_CreatedAt = is_CreatedAt n\<rparr>"

definition review_listed :: "reviewNodeGQL \<Rightarrow> bool" where
  "review_listed n \<longleftrightarrow>
     (if rn_SubmittedAt n = [] then False
      else if rn_Body n = [] \<and> (rn_State n = [] \<or> rn_State n = ''COMMENTED'') then False
      else True)"

definition review_summary :: "reviewNodeGQL \<Rightarrow> ReviewSummary" where
  "review_summary n =
     \<lparr>rv_Author = lg_Login (rn_Author n), rv_State = rn_State n, rv_Body = rn_Body n,
      rv_CreatedAt = rn_SubmittedAt n\<rparr>"

definition collect_timeline :: "string \<Rightarrow> timelineGQL \<Rightarrow> Timeline \<Rightarrow> Timeline" where
  "collect_timeline cursor page out =
     \<lparr>tl_Comments = tl_Comments out @ map timeline_comment (cn_Nodes (tg_Comments page)),
      tl_Reviews = tl_Reviews out @
        (if cursor = [] then map review_summary (filter review_listed (tg_Reviews page)) else [])\<rparr>"

definition GetTimeline ::
  "'w env \<Rightarrow> client_cfg \<Rightarrow> string \<Rightarrow> string \<Rightarrow> int \<Rightarrow> ('w, Timeline) gh" where
  "GetTimeline env cfg owner repo number =
     cursor_walk gqlMaxPages
       (\<lambda>cursor. graphql env cfg ''timelineGQL'' getTimelineQuery (page_vars owner repo number cursor)
          timelineGQL_dec zero_timeline)
       (\<lambda>page. cn_PageInfo (tg_Comments page)) collect_timeline []
       \<lparr>tl_Comments = [], tl_Reviews = []\<rparr>"

section \<open>Checks (checks.go)\<close>

definition normaliseCheck :: "checkContextGQL \<Rightarrow> Check" where
  "normaliseCheck n =
     (if cx_Typename n = ''StatusContext'' then
        \<lparr>ch_Name = cx_Context n,
         ch_Status =
           (if cx_State n = ''PENDING'' \<or> cx_State n = ''EXPECTED'' then ''PENDING''
            else ''COMPLETED''),
         ch_Conclusion = cx_State n, ch_URL = cx_TargetURL n, ch_StartedAt = cx_CreatedAt n\<rparr>
      else
        \<lparr>ch_Name = cx_Name n, ch_Status = cx_Status n, ch_Conclusion = cx_Conclusion n,
         ch_URL = cx_DetailsURL n, ch_StartedAt = cx_StartedAt n\<rparr>)"

definition checks_of :: "checksGQL \<Rightarrow> Checks" where
  "checks_of commits =
     (case commits of
        [] \<Rightarrow> \<lparr>ck_Rollup = [], ck_Checks = []\<rparr>
      | None # _ \<Rightarrow> \<lparr>ck_Rollup = [], ck_Checks = []\<rparr>
      | Some rollup # _ \<Rightarrow>
          \<lparr>ck_Rollup = ro_State rollup, ck_Checks = map normaliseCheck (ro_Contexts rollup)\<rparr>)"

definition GetChecks ::
  "'w env \<Rightarrow> client_cfg \<Rightarrow> string \<Rightarrow> string \<Rightarrow> int \<Rightarrow> ('w, Checks) gh" where
  "GetChecks env cfg owner repo number =
     bindE (graphql env cfg ''checksGQL'' getChecksQuery (pr_vars owner repo number) checksGQL_dec [])
       (\<lambda>commits. retE (checks_of commits))"

section \<open>The two blob tasks\<close>

fun task_rank :: "task \<Rightarrow> nat" where
  "task_rank Lookup = 3"
| "task_rank Fetch = 2"
| "task_rank (Store v) = 1"
| "task_rank (Finished r) = 0"

lemma is_finished_iff: "is_finished t \<longleftrightarrow> (\<exists>r. t = Finished r)"
  by (cases t) auto

lemma task_rank_0: "task_rank t = 0 \<longleftrightarrow> is_finished t"
  by (cases t) auto

lemma task_step_rank:
  "task_step env cfg b t s = (t', s') \<Longrightarrow> \<not> is_finished t \<Longrightarrow> task_rank t' < task_rank t"
  by (cases t) (auto simp: task_step_def split: option.splits prod.splits sum.splits)

text \<open>One turn of the pair: which task moves, and what it leaves.\<close>

lemma run_tasks_cases:
  assumes "run_tasks (Suc n) sched env cfg b h tb th s = r"
  obtains "is_finished tb" "is_finished th" "r = ((tb, th), s)"
  | tb' s1 where "\<not> is_finished tb" "task_step env cfg b tb s = (tb', s1)"
      "r = run_tasks n (tl sched) env cfg b h tb' th s1"
  | th' s1 where "\<not> is_finished th" "task_step env cfg h th s = (th', s1)"
      "r = run_tasks n (tl sched) env cfg b h tb th' s1"
proof -
  obtain tb1 s1 th2 s2 where st: "task_step env cfg b tb s = (tb1, s1)"
    "task_step env cfg h th s = (th2, s2)" by fastforce
  show thesis
    using assms that st
    by (auto simp: Let_def split: if_splits)
qed

lemma run_tasks_invariant:
  assumes run: "run_tasks n sched env cfg b h tb th s = ((tb', th'), s')"
    and init: "I s" "J b tb" "J h th"
    and step: "\<And>x t s t' s'. x = b \<or> x = h \<Longrightarrow> I s \<Longrightarrow> J x t \<Longrightarrow>
      task_step env cfg x t s = (t', s') \<Longrightarrow> I s' \<and> J x t'"
  shows "I s' \<and> J b tb' \<and> J h th'"
  using run init
proof (induction n arbitrary: sched tb th s)
  case 0
  then show ?case by simp
next
  case (Suc n)
  from Suc.prems(1) show ?case
  proof (cases rule: run_tasks_cases)
    case 1
    with Suc.prems show ?thesis by simp
  next
    case (2 tb1 s1)
    with step [of b s tb tb1 s1] Suc.prems have "I s1" "J b tb1" by auto
    with Suc.IH [OF 2(3) [symmetric]] Suc.prems show ?thesis by simp
  next
    case (3 th1 s1)
    with step [of h s th th1 s1] Suc.prems have "I s1" "J h th1" by auto
    with Suc.IH [OF 3(3) [symmetric]] Suc.prems show ?thesis by simp
  qed
qed

lemma run_tasks_finish:
  "run_tasks n sched env cfg b h tb th s = ((tb', th'), s') \<Longrightarrow>
    task_rank tb + task_rank th \<le> n \<Longrightarrow> is_finished tb' \<and> is_finished th'"
proof (induction n arbitrary: sched tb th s)
  case 0
  then show ?case by (simp add: task_rank_0)
next
  case (Suc n)
  from Suc.prems(1) show ?case
  proof (cases rule: run_tasks_cases)
    case 1
    then show ?thesis by simp
  next
    case (2 tb1 s1)
    with task_step_rank [OF 2(2,1)] Suc.IH [OF 2(3) [symmetric]] Suc.prems(2) show ?thesis by simp
  next
    case (3 th1 s1)
    with task_step_rank [OF 3(2,1)] Suc.IH [OF 3(3) [symmetric]] Suc.prems(2) show ?thesis by simp
  qed
qed

text \<open>The outcomes of the pair: \<open>both_blobs\<close> never reaches its last equation, and an
  invariant of the interleaving holds of its end.\<close>

definition versions :: "gerr + FileBlob \<Rightarrow> gerr + FileBlob \<Rightarrow> gerr + FileVersions" where
  "versions rb rh =
     (case rb of
        Inl e \<Rightarrow> Inl e
      | Inr base \<Rightarrow>
          (case rh of
             Inl e \<Rightarrow> Inl e
           | Inr head \<Rightarrow> Inr \<lparr>fv_Base = base, fv_Head = head, fv_Truncated = False\<rparr>))"

lemma both_blobs_cases:
  assumes "both_blobs sched env cfg b h s = (r, s')"
  obtains rb rh where
    "run_tasks 6 sched env cfg b h Lookup Lookup s = ((Finished rb, Finished rh), s')"
    "r = versions rb rh"
proof -
  obtain tb th s1 where run: "run_tasks 6 sched env cfg b h Lookup Lookup s = ((tb, th), s1)"
    by (metis prod.exhaust)
  then have "is_finished tb \<and> is_finished th" by (rule run_tasks_finish) simp
  then obtain rb rh where "tb = Finished rb" "th = Finished rh" by (auto simp: is_finished_iff)
  with run assms that show thesis
    by (auto simp: both_blobs_def versions_def split: sum.splits)
qed

lemma both_blobs_invariant:
  assumes "both_blobs sched env cfg b h s = (r, s')"
    and "I s" "J b Lookup" "J h Lookup"
    and "\<And>x t s t' s'. x = b \<or> x = h \<Longrightarrow> I s \<Longrightarrow> J x t \<Longrightarrow>
      task_step env cfg x t s = (t', s') \<Longrightarrow> I s' \<and> J x t'"
  shows "\<exists>rb rh. r = versions rb rh \<and> I s' \<and> J b (Finished rb) \<and> J h (Finished rh)"
  using assms(1)
proof (rule both_blobs_cases)
  fix rb rh
  assume run: "run_tasks 6 sched env cfg b h Lookup Lookup s = ((Finished rb, Finished rh), s')"
    and "r = versions rb rh"
  moreover have "I s' \<and> J b (Finished rb) \<and> J h (Finished rh)"
    by (rule run_tasks_invariant [OF run]) (fact assms(2-5))+
  ultimately show ?thesis by blast
qed

text \<open>Instances: errors are of the closed set; calls are REST reads, at most one a task.\<close>

fun task_closed :: "task \<Rightarrow> bool" where
  "task_closed (Finished (Inl e)) = closed_err e"
| "task_closed t = True"

lemma send_closed:
  "send env req s = (r, s') \<Longrightarrow> blob_of_sent r = Inl e \<Longrightarrow> closed_err e"
  by (auto simp: send_def blob_of_sent_def Let_def dest: mapHTTP_closed
      split: prod.splits sum.splits option.splits sent.splits if_splits)

lemma task_step_closed:
  "token_ok cfg \<Longrightarrow> task_closed t \<Longrightarrow> task_step env cfg b t s = (t', s') \<Longrightarrow> task_closed t'"
  by (cases t) (auto simp: task_step_def token_ok_def dest: send_closed
      split: option.splits prod.splits sum.splits)

lemma errs_in_both_blobs [errs_intro]:
  assumes "token_ok cfg"
  shows "errs_in closed_err (both_blobs sched env cfg b h)"
  unfolding errs_in_def
proof (intro allI impI)
  fix s e s'
  assume "both_blobs sched env cfg b h s = (Inl e, s')"
  then have "\<exists>rb rh. Inl e = versions rb rh \<and> True \<and> task_closed (Finished rb) \<and> task_closed (Finished rh)"
    by (rule both_blobs_invariant [where I = "\<lambda>_. True" and J = "\<lambda>_. task_closed"])
      (auto intro: task_step_closed [OF assms])
  then obtain rb rh where "Inl e = versions rb rh" "task_closed (Finished rb)" "task_closed (Finished rh)"
    by blast
  then show "closed_err e" by (cases rb; cases rh) (simp_all add: versions_def)
qed

fun task_calls :: "task \<Rightarrow> nat" where
  "task_calls Lookup = 1"
| "task_calls Fetch = 1"
| "task_calls t = 0"

definition may_call :: "client_cfg \<Rightarrow> task \<Rightarrow> bool" where
  "may_call cfg t \<longleftrightarrow> cf_tokenErr cfg = None \<or> t = Lookup \<or> is_finished t"

lemma task_step_calls:
  assumes "task_step env cfg b t s = (t', s')" and "may_call cfg t"
  shows "\<exists>rs. cs_calls s' = cs_calls s @ rs \<and> length rs + task_calls t' \<le> task_calls t \<and>
    (\<forall>r \<in> set rs. sends cfg docs r)"
    and "may_call cfg t'"
proof -
  have "is_get cfg (raw_request cfg b)"
    by (simp add: is_get_def raw_request_def RawHeaders_def)
  then show "\<exists>rs. cs_calls s' = cs_calls s @ rs \<and> length rs + task_calls t' \<le> task_calls t \<and>
      (\<forall>r \<in> set rs. sends cfg docs r)"
    using assms
    by (cases t) (auto simp: task_step_def sends_def may_call_def dest!: send_calls
        split: option.splits prod.splits sum.splits)
  show "may_call cfg t'"
    using assms
    by (cases t) (auto simp: task_step_def may_call_def split: option.splits prod.splits sum.splits)
qed

lemma run_tasks_calls:
  "run_tasks n sched env cfg b h tb th s = ((tb', th'), s') \<Longrightarrow> may_call cfg tb \<Longrightarrow> may_call cfg th \<Longrightarrow>
    \<exists>rs. cs_calls s' = cs_calls s @ rs \<and> length rs \<le> task_calls tb + task_calls th \<and>
      (\<forall>r \<in> set rs. sends cfg docs r)"
proof (induction n arbitrary: sched tb th s)
  case 0
  then show ?case by simp
next
  case (Suc n)
  from Suc.prems(1) show ?case
  proof (cases rule: run_tasks_cases)
    case 1
    then show ?thesis by simp
  next
    case (2 tb1 s1)
    from task_step_calls(1) [OF 2(2) Suc.prems(2), of docs] task_step_calls(2) [OF 2(2) Suc.prems(2)]
    obtain r1 where
      r1: "cs_calls s1 = cs_calls s @ r1" "length r1 + task_calls tb1 \<le> task_calls tb"
        "\<forall>r \<in> set r1. sends cfg docs r" "may_call cfg tb1" by blast
    from Suc.IH [OF 2(3) [symmetric] r1(4) Suc.prems(3)] obtain r2 where
      "cs_calls s' = cs_calls s1 @ r2" "length r2 \<le> task_calls tb1 + task_calls th"
        "\<forall>r \<in> set r2. sends cfg docs r" by blast
    with r1 show ?thesis by (intro exI [of _ "r1 @ r2"]) auto
  next
    case (3 th1 s1)
    from task_step_calls(1) [OF 3(2) Suc.prems(3), of docs] task_step_calls(2) [OF 3(2) Suc.prems(3)]
    obtain r1 where
      r1: "cs_calls s1 = cs_calls s @ r1" "length r1 + task_calls th1 \<le> task_calls th"
        "\<forall>r \<in> set r1. sends cfg docs r" "may_call cfg th1" by blast
    from Suc.IH [OF 3(3) [symmetric] Suc.prems(2) r1(4)] obtain r2 where
      "cs_calls s' = cs_calls s1 @ r2" "length r2 \<le> task_calls tb + task_calls th1"
        "\<forall>r \<in> set r2. sends cfg docs r" by blast
    with r1 show ?thesis by (intro exI [of _ "r1 @ r2"]) auto
  qed
qed

lemma emits_both_blobs [emits_intro]: "emits (sends cfg docs) 2 (both_blobs sched env cfg b h)"
  unfolding emits_def
proof
  fix s
  obtain r s' where both: "both_blobs sched env cfg b h s = (r, s')" by fastforce
  then show "\<exists>rs. cs_calls (snd (both_blobs sched env cfg b h s)) = cs_calls s @ rs \<and>
      length rs \<le> 2 \<and> (\<forall>r \<in> set rs. sends cfg docs r)"
  proof (rule both_blobs_cases)
    fix rb rh
    assume "run_tasks 6 sched env cfg b h Lookup Lookup s = ((Finished rb, Finished rh), s')"
    from run_tasks_calls [OF this, of docs] show ?thesis by (auto simp: may_call_def both)
  qed
qed

section \<open>What the cache may hold\<close>

text \<open>
  The server of file contents, said of its calls alone.  \<open>files\<close> is what each path is at each commit,
  and None for a path that is missing there: contents at a commit do not change.  A URL asks for a
  path at a commit when undoing the escapes of its path's segments gives the path's, and those of its
  query give the commit.  To a GET of such a URL with the raw media type a success has the content as
  its body, of which a connection that breaks leaves a part, and a 404 says the path is missing; any
  other answer may come at any time.
\<close>

definition plain_ref :: "blob_ref \<Rightarrow> bool" where
  "plain_ref b \<longleftrightarrow>
     (\<forall>c \<in> {CHR ''/'', CHR ''?'', CHR ''#'', CHR ''%''}. c \<notin> set (br_owner b) \<union> set (br_repo b)) \<and>
     CHR ''/'' \<notin> set (br_ref b)"

definition query_unescape :: "string \<Rightarrow> string option" where
  "query_unescape s = unescape (map (\<lambda>c. if c = CHR ''+'' then CHR '' '' else c) s)"

definition asks_for :: "string \<Rightarrow> string \<Rightarrow> blob_ref \<Rightarrow> bool" where
  "asks_for rest u b \<longleftrightarrow>
     (\<exists>segs q. u = rest @ ''/repos/'' @ br_owner b @ ''/'' @ br_repo b @ ''/contents/'' @ segs @ ''?ref='' @ q \<and>
        CHR ''?'' \<notin> set segs \<and>
        map unescape (split_on CHR ''/'' segs) = map Some (split_on CHR ''/'' (br_path b)) \<and>
        query_unescape q = Some (br_ref b))"

definition serves_files :: "'w env \<Rightarrow> client_cfg \<Rightarrow> (blob_ref \<Rightarrow> string option) \<Rightarrow> bool" where
  "serves_files env cfg files \<longleftrightarrow>
     (\<forall>b req w resp w'.
        plain_ref b \<longrightarrow> asks_for (cf_restURL cfg) (hq_URL req) b \<longrightarrow> hq_Method req = ''GET'' \<longrightarrow>
        (''Accept'', ''application/vnd.github.raw+json'') \<in> set (hq_Header req) \<longrightarrow>
        http_do env req w = (Inr resp, w') \<longrightarrow>
          (200 \<le> hr_StatusCode resp \<and> hr_StatusCode resp < 300 \<longrightarrow>
             (\<exists>content. files b = Some content \<and> is_prefix (hr_Body resp) content \<and>
                (hr_BodyErr resp = None \<longrightarrow> hr_Body resp = content))) \<and>
          (hr_StatusCode resp = 404 \<longrightarrow> files b = None))"

text \<open>It answers every call in full.\<close>

definition always_answers :: "'w env \<Rightarrow> client_cfg \<Rightarrow> bool" where
  "always_answers env cfg \<longleftrightarrow>
     cf_tokenErr cfg = None \<and> (\<forall>u. url_err env u = None) \<and>
     (\<forall>req w. \<exists>resp w'. http_do env req w = (Inr resp, w') \<and>
        (hr_StatusCode resp = 404 \<or>
         200 \<le> hr_StatusCode resp \<and> hr_StatusCode resp < 300 \<and> hr_BodyErr resp = None))"

text \<open>What is made of a file: its first 32 MiB.\<close>

fun file_blob :: "string option \<Rightarrow> FileBlob" where
  "file_blob None = \<lparr>fb_Content = [], fb_Missing = True\<rparr>"
| "file_blob (Some content) = \<lparr>fb_Content = take maxResponse content, fb_Missing = False\<rparr>"

subsection \<open>The URL asks for the file\<close>

lemma query_unescape_escape: "query_unescape (query_escape s) = Some s"
proof (induction s)
  case Nil
  then show ?case by (simp add: query_unescape_def query_escape_def)
next
  case (Cons c s)
  let ?f = "\<lambda>c. if c = CHR ''+'' then CHR '' '' else c"
  have hex: "hex_upper n \<noteq> CHR ''+''" if "n < 16" for n
    using below_16 [OF that] by (auto simp: hex_upper_def)
  have "map ?f (percent c) = percent c"
    using hex [OF char_div_16 [of c]] hex [of "of_char c mod 16"] by (simp add: percent_def)
  moreover have "c \<noteq> CHR ''%'' \<and> c \<noteq> CHR ''+''" if "is_unreserved c"
    using that by (auto simp: is_unreserved_def is_upper_def is_lower_def digit_val_def)
  moreover have "query_escape (c # s) =
      (if c = CHR '' '' then ''+'' else if is_unreserved c then [c] else percent c) @ query_escape s"
    by (simp add: query_escape_def)
  ultimately show ?case using Cons by (auto simp: query_unescape_def unescape_percent)
qed

lemma split_escapePath: "split_on CHR ''/'' (escapePath p) = map path_escape (split_on CHR ''/'' p)"
proof -
  have "\<forall>w \<in> set (map path_escape (split_on CHR ''/'' p)). CHR ''/'' \<notin> set w"
    using path_escape_chars url_char_no_slash by auto
  from split_join [OF _ this] show ?thesis by (simp add: escapePath_def)
qed

lemma escapePath_chars: "c \<in> set (escapePath p) \<Longrightarrow> url_char c \<or> c = CHR ''/''"
proof -
  have "\<forall>c \<in> set (join_with ''/'' (map path_escape ws)). url_char c \<or> c = CHR ''/''" for ws
  proof (induction ws rule: induct_list012)
    case (3 w v ws)
    then show ?case using path_escape_chars by auto
  qed (use path_escape_chars in auto)
  then show "c \<in> set (escapePath p) \<Longrightarrow> url_char c \<or> c = CHR ''/''" by (simp add: escapePath_def)
qed

lemma unescape_escapePath:
  "map unescape (split_on CHR ''/'' (escapePath p)) = map Some (split_on CHR ''/'' p)"
  by (simp add: split_escapePath unescape_path_escape)

lemma asks_for_ref_url: "asks_for (cf_restURL cfg) (ref_url cfg b) b"
proof -
  have "CHR ''?'' \<notin> set (escapePath p)" for p
    using escapePath_chars [of "CHR ''?''" p] url_char_no_slash by fastforce
  then show ?thesis
    unfolding asks_for_def ref_url_def contents_url_def
    by (intro exI [of _ "escapePath (br_path b)"] exI [of _ "query_escape (br_ref b)"])
      (simp add: unescape_escapePath query_unescape_escape)
qed

text \<open>A URL asks for one file only.\<close>

lemma asks_for_unique:
  assumes "asks_for rest u b" and "asks_for rest u b'" and "plain_ref b" and "plain_ref b'"
  shows "b = b'"
proof -
  obtain segs q where u: "u = rest @ ''/repos/'' @ br_owner b @ ''/'' @ br_repo b @ ''/contents/'' @ segs @ ''?ref='' @ q"
      "CHR ''?'' \<notin> set segs" "query_unescape q = Some (br_ref b)"
    and path: "map unescape (split_on CHR ''/'' segs) = map Some (split_on CHR ''/'' (br_path b))"
    using assms(1) unfolding asks_for_def by blast
  obtain segs' q' where u': "u = rest @ ''/repos/'' @ br_owner b' @ ''/'' @ br_repo b' @ ''/contents/'' @ segs' @ ''?ref='' @ q'"
      "CHR ''?'' \<notin> set segs'" "query_unescape q' = Some (br_ref b')"
    and path': "map unescape (split_on CHR ''/'' segs') = map Some (split_on CHR ''/'' (br_path b'))"
    using assms(2) unfolding asks_for_def by blast
  have cut: "as = as' \<and> zs = zs'" if "as @ d # zs = as' @ d # zs'" "d \<notin> set as" "d \<notin> set as'"
    for as as' zs zs' :: string and d
    using that by (induction as arbitrary: as') (case_tac as'; auto)+
  have "br_owner b @ CHR ''/'' # br_repo b @ ''/contents/'' @ segs @ ''?ref='' @ q =
      br_owner b' @ CHR ''/'' # br_repo b' @ ''/contents/'' @ segs' @ ''?ref='' @ q'"
    using u(1) u'(1) by simp
  then have o: "br_owner b = br_owner b'" and r: "br_repo b @ CHR ''/'' # (''contents/'' @ segs @ ''?ref='' @ q) =
      br_repo b' @ CHR ''/'' # (''contents/'' @ segs' @ ''?ref='' @ q')"
    using cut [of "br_owner b" "CHR ''/''" _ "br_owner b'"] assms(3,4) by (auto simp: plain_ref_def)
  then have "br_repo b = br_repo b'" and "segs @ CHR ''?'' # (''ref='' @ q) = segs' @ CHR ''?'' # (''ref='' @ q')"
    using cut [OF r] assms(3,4) by (auto simp: plain_ref_def)
  moreover from cut [OF this(2) u(2) u'(2)] have "segs = segs'" "q = q'" by auto
  moreover from this path path' have "split_on CHR ''/'' (br_path b) = split_on CHR ''/'' (br_path b')"
    by (metis inj_Some inj_map_eq_map)
  then have "br_path b = br_path b'" by (metis join_split)
  ultimately show ?thesis using o u(3) u'(3) by simp
qed

lemma send_refused:
  assumes "http_do env req (cs_net s) = (Inr resp, w)" and "\<not> is_2xx resp"
  shows "\<exists>body e. fst (send env req s) = Failed resp body e"
  using assms mapHTTP_None [of "now_unix env w" resp "take maxResponse (hr_Body resp)"]
  by (auto simp: send_def read_body_def Let_def)

text \<open>What a call's answer says of the file: no more than the server does.\<close>

lemma served_blob:
  assumes srv: "serves_files env cfg files" and b: "plain_ref b"
    and v: "blob_of_sent (fst (send env (raw_request cfg b) s)) = Inr v"
  shows "v = file_blob (files b)"
proof -
  obtain r w where do: "http_do env (raw_request cfg b) (cs_net s) = (r, w)" by fastforce
  show ?thesis
  proof (cases r)
    case (Inl e)
    with v do show ?thesis by (simp add: send_def blob_of_sent_def)
  next
    case (Inr resp)
    have says: "(200 \<le> hr_StatusCode resp \<and> hr_StatusCode resp < 300 \<longrightarrow>
             (\<exists>content. files b = Some content \<and> is_prefix (hr_Body resp) content \<and>
                (hr_BodyErr resp = None \<longrightarrow> hr_Body resp = content))) \<and>
          (hr_StatusCode resp = 404 \<longrightarrow> files b = None)"
      by (rule srv [unfolded serves_files_def, rule_format, OF b _ _ _ do [unfolded Inr]])
        (simp_all add: raw_request_def RawHeaders_def asks_for_ref_url)
    show ?thesis
    proof (cases "is_2xx resp")
      case True
      then obtain content where c: "files b = Some content" "is_prefix (hr_Body resp) content"
          "hr_BodyErr resp = None \<longrightarrow> hr_Body resp = content"
        using says by (auto simp: is_2xx_def)
      from True have "hr_StatusCode resp \<noteq> 404" by (simp add: is_2xx_def)
      with v do Inr True have "v = \<lparr>fb_Content = take maxResponse (hr_Body resp), fb_Missing = False\<rparr>"
          "hr_BodyErr resp = None \<or> maxResponse \<le> length (hr_Body resp)"
        by (auto simp: send_def blob_of_sent_def read_body_def Let_def split: if_splits option.splits)
      with c show ?thesis by (auto simp: is_prefix_iff)
    next
      case False
      with v send_refused [OF do [unfolded Inr]] have "hr_StatusCode resp = 404"
          "v = \<lparr>fb_Content = [], fb_Missing = True\<rparr>"
        by (auto simp: blob_of_sent_def split: if_splits)
      with says show ?thesis by simp
    qed
  qed
qed

definition true_blob :: "(blob_ref \<Rightarrow> string option) \<Rightarrow> string \<Rightarrow> FileBlob \<Rightarrow> bool" where
  "true_blob files k v \<longleftrightarrow> (\<forall>b. plain_ref b \<and> ref_key b = k \<longrightarrow> v = file_blob (files b))"

definition cache_true :: "(blob_ref \<Rightarrow> string option) \<Rightarrow> cache \<Rightarrow> bool" where
  "cache_true files c \<longleftrightarrow> known cache_ok cached (true_blob files) c"

lemma ref_key_inj: "plain_ref b \<Longrightarrow> plain_ref b' \<Longrightarrow> ref_key b = ref_key b' \<Longrightarrow> b = b'"
  using blobKey_inj [of "br_owner b" "br_repo b" "br_ref b" "br_owner b'" "br_repo b'" "br_ref b'"
      "br_path b" "br_path b'"]
  by (simp add: ref_key_def plain_ref_def)

fun task_true :: "(blob_ref \<Rightarrow> string option) \<Rightarrow> blob_ref \<Rightarrow> task \<Rightarrow> bool" where
  "task_true files b (Finished (Inr v)) = (v = file_blob (files b))"
| "task_true files b (Store v) = (v = file_blob (files b))"
| "task_true files b t = True"

lemma task_step_true:
  assumes srv: "serves_files env cfg files" and b: "plain_ref b"
    and c: "cache_true files (cs_cache s)" and t: "task_true files b t"
    and st: "task_step env cfg b t s = (t', s')"
  shows "cache_true files (cs_cache s') \<and> task_true files b t'"
proof (cases t)
  case Lookup
  note k = c [unfolded cache_true_def]
  show ?thesis
  proof (cases "cf_tokenErr cfg")
    case None
    obtain r c' where bl: "blob (ref_key b) (cs_cache s) = (r, c')" by fastforce
    have "cache_true files c'"
      using blob_memo.known_get [OF k, of "ref_key b"] by (simp add: bl cache_true_def)
    moreover have "v = file_blob (files b)" if "r = Some v" for v
      using blob_memo.get_known [OF k, of "ref_key b" v c'] that b by (simp add: bl true_blob_def)
    ultimately show ?thesis
      using st None by (auto simp: Lookup task_step_def bl split: option.splits)
  qed (use st c in \<open>auto simp: Lookup task_step_def\<close>)
next
  case Fetch
  show ?thesis
  proof (cases "url_err env (ref_url cfg b)")
    case None
    obtain r s1 where snd: "send env (raw_request cfg b) s = (r, s1)" by fastforce
    have "v = file_blob (files b)" if "blob_of_sent r = Inr v" for v
      using that snd served_blob [OF srv b, of s] by simp
    moreover have "cs_cache s1 = cs_cache s" using send_net_only [OF snd] by simp
    ultimately show ?thesis
      using st None c by (auto simp: Fetch task_step_def snd split: sum.splits)
  qed (use st c in \<open>auto simp: Fetch task_step_def\<close>)
next
  case (Store v)
  have "true_blob files (ref_key b) (file_blob (files b))"
    using b by (auto simp: true_blob_def dest: ref_key_inj)
  then have "cache_true files (putBlob (ref_key b) (file_blob (files b)) (cs_cache s))"
    using blob_memo.known_put c by (simp add: cache_true_def)
  with Store t st show ?thesis by (auto simp: task_step_def)
next
  case (Finished r)
  with st c t show ?thesis by (auto simp: task_step_def)
qed

lemma both_blobs_true:
  assumes "serves_files env cfg files" "plain_ref b" "plain_ref h" "cache_true files (cs_cache s)"
    and "both_blobs sched env cfg b h s = (r, s')"
  shows "cache_true files (cs_cache s') \<and>
    (\<forall>v. r = Inr v \<longrightarrow> v = \<lparr>fv_Base = file_blob (files b), fv_Head = file_blob (files h), fv_Truncated = False\<rparr>)"
proof -
  have step: "cache_true files (cs_cache s2) \<and> task_true files x t2"
    if "x = b \<or> x = h" "cache_true files (cs_cache s1)" "task_true files x t1"
      "task_step env cfg x t1 s1 = (t2, s2)" for x t1 s1 t2 s2
    using task_step_true [OF assms(1) _ that(2-4)] that(1) assms(2,3) by blast
  have "\<exists>rb rh. r = versions rb rh \<and> cache_true files (cs_cache s') \<and>
      task_true files b (Finished rb) \<and> task_true files h (Finished rh)"
    by (rule both_blobs_invariant [where I = "\<lambda>s. cache_true files (cs_cache s)" and J = "task_true files",
          OF assms(5)]) (simp_all only: assms(4) task_true.simps, rule step, assumption+)
  then obtain rb rh where "r = versions rb rh" "cache_true files (cs_cache s')"
    "task_true files b (Finished rb)" "task_true files h (Finished rh)" by blast
  then show ?thesis by (cases rb; cases rh) (simp_all add: versions_def)
qed

section \<open>Errors, calls and state of each read\<close>

lemma viewerLogin_errs [errs_intro]:
  assumes "token_ok cfg"
  shows "errs_in closed_err (viewerLogin env cfg)"
proof -
  have "errs_in closed_err (bindE (getJSON env cfg ''userDTO'' (cf_restURL cfg @ ''/user'') userDTO_dec zero_user) (\<lambda>u.
          if us_Login u = []
          then failE (newError CodeAuth ''could not resolve the authenticated user'')
          else (\<lambda>s. (Inr (us_Login u), s\<lparr>cs_viewer := us_Login u\<rparr>))))"
    by (intro errs_intro assms) (simp_all add: errs_in_def)
  then show ?thesis by (auto simp: errs_in_def viewerLogin_def)
qed

lemma viewerLogin_emits [emits_intro]: "emits (sends cfg docs) 1 (viewerLogin env cfg)"
proof -
  have "emits (sends cfg docs) 1 (bindE (getJSON env cfg ''userDTO'' (cf_restURL cfg @ ''/user'') userDTO_dec zero_user) (\<lambda>u.
          if us_Login u = []
          then failE (newError CodeAuth ''could not resolve the authenticated user'')
          else (\<lambda>s. (Inr (us_Login u), s\<lparr>cs_viewer := us_Login u\<rparr>))))"
    by (rule emits_mono, rule emits_bindE, rule emits_getJSON, rule emits_if, rule emits_failE)
      (simp_all add: emits_def)
  then show ?thesis by (auto simp: emits_def viewerLogin_def)
qed

lemma page_vars_ok [simp]:
  "vars_ok getPRQuery (page_vars owner repo number c)"
  "vars_ok getThreadsQuery (page_vars owner repo number c)"
  "vars_ok getTimelineQuery (page_vars owner repo number c)"
  "vars_ok getPendingReviewQuery (pr_vars owner repo number)"
  "vars_ok getChecksQuery (pr_vars owner repo number)"
  by (simp_all add: vars_ok_def page_vars_def pr_vars_def)

lemma ListPRs_errs [errs_intro]: "token_ok cfg \<Longrightarrow> errs_in closed_err (ListPRs env cfg owner repo f)"
  unfolding ListPRs_def by (intro errs_intro) simp_all

lemma GetPR_errs [errs_intro]: "token_ok cfg \<Longrightarrow> errs_in closed_err (GetPR env cfg owner repo n)"
  unfolding GetPR_def by (intro errs_intro)

lemma prRefs_errs [errs_intro]: "token_ok cfg \<Longrightarrow> errs_in closed_err (prRefs env cfg owner repo n)"
  unfolding prRefs_def by (intro errs_intro)

lemma HeadSHA_errs [errs_intro]: "token_ok cfg \<Longrightarrow> errs_in closed_err (HeadSHA env cfg owner repo n)"
  unfolding HeadSHA_def by (intro errs_intro)

lemma errs_in_state:
  "(\<And>s. errs_in C (f s)) \<Longrightarrow> errs_in C (\<lambda>s. f s s)"
  by (simp add: errs_in_def)

lemma GetFileVersions_errs [errs_intro]:
  "token_ok cfg \<Longrightarrow> errs_in closed_err (GetFileVersions env cfg owner repo n p bp b h)"
  unfolding GetFileVersions_def
  by (intro errs_in_Let errs_in_bindE errs_in_if prRefs_errs errs_in_retE errs_in_prod)
    (auto intro!: errs_in_state [where f = "\<lambda>s. both_blobs (g s) env cfg b h" for g b h]
      errs_in_both_blobs)

lemma GetThreads_errs [errs_intro]: "token_ok cfg \<Longrightarrow> errs_in closed_err (GetThreads env cfg owner repo n)"
  unfolding GetThreads_def by (intro errs_intro)

lemma GetPendingReview_errs [errs_intro]:
  "token_ok cfg \<Longrightarrow> errs_in closed_err (GetPendingReview env cfg owner repo n)"
  unfolding GetPendingReview_def by (intro errs_intro)

lemma GetTimeline_errs [errs_intro]: "token_ok cfg \<Longrightarrow> errs_in closed_err (GetTimeline env cfg owner repo n)"
  unfolding GetTimeline_def by (intro errs_intro)

lemma GetChecks_errs [errs_intro]: "token_ok cfg \<Longrightarrow> errs_in closed_err (GetChecks env cfg owner repo n)"
  unfolding GetChecks_def by (intro errs_intro)

lemma ListPRs_emits: "emits (sends cfg []) 101 (ListPRs env cfg owner repo f)"
  unfolding ListPRs_def
  by (rule emits_mono, (rule emits_intro)+, simp)

lemma GetPR_emits: "emits (sends cfg [getPRQuery]) 200 (GetPR env cfg owner repo n)"
  unfolding GetPR_def
  by (rule emits_mono, rule emits_bindE, rule emits_cursor_walk, rule emits_graphql, simp, simp,
      (rule emits_intro)+, simp add: gqlMaxPages_def)

lemma prRefs_emits [emits_intro]: "emits (sends cfg docs) 1 (prRefs env cfg owner repo n)"
  unfolding prRefs_def by (rule emits_mono, (rule emits_intro)+, simp)

lemma HeadSHA_emits [emits_intro]: "emits (sends cfg docs) 1 (HeadSHA env cfg owner repo n)"
  unfolding HeadSHA_def by (rule emits_mono, (rule emits_intro)+, simp)

lemma emits_state: "(\<And>s. emits P k (f s)) \<Longrightarrow> emits P k (\<lambda>s. f s s)"
  by (simp add: emits_def)

lemma GetFileVersions_emits:
  "emits (sends cfg []) 3 (GetFileVersions env cfg owner repo n p bp b h)"
  unfolding GetFileVersions_def
  by (rule emits_mono, rule emits_Let, rule emits_bindE, (rule emits_intro)+,
      rule emits_state [where f = "\<lambda>s. both_blobs (g s) env cfg b h" for g b h],
      rule emits_both_blobs, simp)

lemma GetThreads_emits: "emits (sends cfg [getThreadsQuery]) 100 (GetThreads env cfg owner repo n)"
  unfolding GetThreads_def
  by (rule emits_mono, rule emits_cursor_walk, rule emits_graphql) (simp_all add: gqlMaxPages_def)

lemma GetTimeline_emits: "emits (sends cfg [getTimelineQuery]) 100 (GetTimeline env cfg owner repo n)"
  unfolding GetTimeline_def
  by (rule emits_mono, rule emits_cursor_walk, rule emits_graphql) (simp_all add: gqlMaxPages_def)

lemma GetPendingReview_emits:
  "emits (sends cfg [getPendingReviewQuery]) 1 (GetPendingReview env cfg owner repo n)"
  unfolding GetPendingReview_def
  by (rule emits_mono, rule emits_bindE, rule emits_graphql, simp, simp, (rule emits_intro)+, simp)

lemma GetChecks_emits: "emits (sends cfg [getChecksQuery]) 1 (GetChecks env cfg owner repo n)"
  unfolding GetChecks_def
  by (rule emits_mono, rule emits_bindE, rule emits_graphql, simp, simp, (rule emits_intro)+, simp)

lemma keeps_net: "net_only m \<Longrightarrow> keeps (\<lambda>s. I (cs_cache s)) m"
  by (simp add: net_only_def keeps_def)

lemma prRefs_net_only [net_only_intro]: "net_only (prRefs env cfg owner repo n)"
  unfolding prRefs_def by (intro net_only_intro)

lemma task_step_answered:
  assumes "always_answers env cfg" and "\<forall>e. t \<noteq> Finished (Inl e)"
    and st: "task_step env cfg b t s = (t', s')"
  shows "\<forall>e. t' \<noteq> Finished (Inl e)"
proof (cases t)
  case Fetch
  obtain resp w where do: "http_do env (raw_request cfg b) (cs_net s) = (Inr resp, w)"
    and ok: "hr_StatusCode resp = 404 \<or> is_2xx resp \<and> hr_BodyErr resp = None"
    using assms(1) by (auto simp: always_answers_def is_2xx_def) metis
  have "\<exists>v. blob_of_sent (fst (send env (raw_request cfg b) s)) = Inr v"
  proof (cases "is_2xx resp")
    case True
    then have "hr_StatusCode resp \<noteq> 404" by (simp add: is_2xx_def)
    with ok do True show ?thesis by (simp add: send_def blob_of_sent_def read_body_def Let_def)
  next
    case False
    with ok send_refused [OF do] show ?thesis by (auto simp: blob_of_sent_def)
  qed
  with assms(1) st show ?thesis
    by (auto simp: Fetch task_step_def always_answers_def split: prod.splits sum.splits)
qed (use assms in \<open>auto simp: task_step_def always_answers_def split: option.splits prod.splits\<close>)

lemma GetFileVersions_true:
  assumes srv: "serves_files env cfg files"
    and refs: "plain_ref \<lparr>br_owner = owner, br_repo = repo,
        br_path = (if basePath = [] then path else basePath), br_ref = base\<rparr>"
      "plain_ref \<lparr>br_owner = owner, br_repo = repo, br_path = path, br_ref = head\<rparr>"
    and pinned: "base \<noteq> []" "head \<noteq> []"
    and c: "cache_true files (cs_cache s)"
    and run: "GetFileVersions env cfg owner repo n path basePath base head s = (r, s')"
  shows "cache_true files (cs_cache s') \<and>
    (\<forall>v. r = Inr v \<longrightarrow> v =
       \<lparr>fv_Base = file_blob (files \<lparr>br_owner = owner, br_repo = repo,
           br_path = (if basePath = [] then path else basePath), br_ref = base\<rparr>),
        fv_Head = file_blob (files \<lparr>br_owner = owner, br_repo = repo, br_path = path, br_ref = head\<rparr>),
        fv_Truncated = False\<rparr>) \<and>
    (always_answers env cfg \<longrightarrow> (\<exists>v. r = Inr v))"
proof -
  let ?b = "\<lparr>br_owner = owner, br_repo = repo,
           br_path = (if basePath = [] then path else basePath), br_ref = base\<rparr>"
  let ?h = "\<lparr>br_owner = owner, br_repo = repo, br_path = path, br_ref = head\<rparr>"
  have both: "both_blobs (go_sched env (cs_net s)) env cfg ?b ?h s = (r, s')"
    using run pinned by (simp add: GetFileVersions_def Let_def)
  have "\<exists>v. r = Inr v" if ans: "always_answers env cfg"
  proof -
    have "\<exists>rb rh. r = versions rb rh \<and> True \<and> (\<forall>e. Finished rb \<noteq> Finished (Inl e)) \<and>
        (\<forall>e. Finished rh \<noteq> Finished (Inl e))"
      by (rule both_blobs_invariant [where I = "\<lambda>_. True" and J = "\<lambda>_ t. \<forall>e. t \<noteq> Finished (Inl e)",
            OF both]) (use task_step_answered [OF ans] in blast)+
    then obtain rb rh where "r = versions rb rh" "\<forall>e. rb \<noteq> Inl e" "\<forall>e. rh \<noteq> Inl e"
      by blast
    then show ?thesis by (cases rb; cases rh) (simp_all add: versions_def)
  qed
  with both_blobs_true [OF srv refs c both] show ?thesis by blast
qed

section \<open>Properties\<close>

text \<open>C11: Both versions of a file are the true ones.  Against a server of file contents, whatever else it
  answers and in whatever order, \<open>GetFileVersions\<close> at pinned commits returns the contents of the
  base path (the previous path of a rename) at the base commit and of the path at the head commit, a
  missing path as missing and a content up to its first 32 MiB, however the two goroutines interleave
  and whatever the cache has been through; it leaves the cache holding only such contents; and when
  the server answers every call in full it does not fail.\<close>

theorem file_versions_true:
  assumes "serves_files env cfg files"
    and "plain_ref \<lparr>br_owner = owner, br_repo = repo,
        br_path = (if basePath = [] then path else basePath), br_ref = base\<rparr>"
    and "plain_ref \<lparr>br_owner = owner, br_repo = repo, br_path = path, br_ref = head\<rparr>"
    and "base \<noteq> []" and "head \<noteq> []"
    and "cache_true files (cs_cache s)"
  shows "case GetFileVersions env cfg owner repo n path basePath base head s of
      (Inl e, s') \<Rightarrow> cache_true files (cs_cache s') \<and> \<not> always_answers env cfg
    | (Inr v, s') \<Rightarrow>
        cache_true files (cs_cache s') \<and>
        fv_Base v = file_blob (files \<lparr>br_owner = owner, br_repo = repo,
           br_path = (if basePath = [] then path else basePath), br_ref = base\<rparr>) \<and>
        fv_Head v = file_blob (files \<lparr>br_owner = owner, br_repo = repo, br_path = path, br_ref = head\<rparr>)"
proof -
  obtain r s' where run: "GetFileVersions env cfg owner repo n path basePath base head s = (r, s')"
    by fastforce
  from GetFileVersions_true [OF assms run] show ?thesis
    unfolding run by (cases r) auto
qed

text \<open>A server whose files hold the name of the commit they are read at.\<close>

definition url_ref :: "string \<Rightarrow> string option" where
  "url_ref u = query_unescape (drop 5 (dropWhile (\<lambda>c. c \<noteq> CHR ''?'') u))"

definition commit_env :: "unit env" where
  "commit_env =
     \<lparr>http_do = (\<lambda>req w. (Inr (ok_response (case url_ref (hq_URL req) of None \<Rightarrow> [] | Some r \<Rightarrow> r)), w)),
      now_unix = (\<lambda>w. 0), url_err = (\<lambda>u. None), url_string = (\<lambda>u. u), json_err = (\<lambda>ty body. []),
      go_sched = (\<lambda>w. [False, True, False])\<rparr>"

lemma asks_for_url_ref:
  assumes "asks_for rest u b" and "plain_ref b" and "CHR ''?'' \<notin> set rest"
  shows "url_ref u = Some (br_ref b)"
proof -
  obtain segs q where u: "u = (rest @ ''/repos/'' @ br_owner b @ ''/'' @ br_repo b @ ''/contents/'' @ segs) @ ''?ref='' @ q"
      "CHR ''?'' \<notin> set segs" "query_unescape q = Some (br_ref b)"
    using assms(1) unfolding asks_for_def by auto
  have "\<forall>c \<in> set (rest @ ''/repos/'' @ br_owner b @ ''/'' @ br_repo b @ ''/contents/'' @ segs). c \<noteq> CHR ''?''"
    using assms(2,3) u(2) by (auto simp: plain_ref_def)
  from dropWhile_append2 [of _ "\<lambda>c. c \<noteq> CHR ''?''" "''?ref='' @ q"] this
  have "dropWhile (\<lambda>c. c \<noteq> CHR ''?'') u = ''?ref='' @ q"
    unfolding u(1) by fastforce
  with u(3) show ?thesis by (simp add: url_ref_def)
qed

lemma commit_serves: "serves_files commit_env test_cfg (\<lambda>b. Some (br_ref b))"
  using asks_for_url_ref [of "cf_restURL test_cfg"]
  by (auto simp: serves_files_def commit_env_def ok_response_def is_prefix_iff test_cfg_def New_def
      defaultREST_def split: option.splits)

lemma commit_answers: "always_answers commit_env test_cfg"
  by (simp add: always_answers_def commit_env_def ok_response_def test_cfg_def New_def)

lemma cache_true_new: "cache_true files (cs_cache (snd (New token None w)))"
  by (simp add: New_def cache_true_def known_def cache_ok_new cached_new)

theorem file_versions_true_witness:
  "\<exists>v s'. GetFileVersions commit_env test_cfg ''o'' ''r'' 1 ''new.go'' ''old.go'' ''b0'' ''h0''
      (snd (New ''token'' None ())) = (Inr v, s') \<and>
    fv_Base v = \<lparr>fb_Content = ''b0'', fb_Missing = False\<rparr> \<and>
    fv_Head v = \<lparr>fb_Content = ''h0'', fb_Missing = False\<rparr>"
proof -
  have "plain_ref \<lparr>br_owner = ''o'', br_repo = ''r'', br_path = p, br_ref = ''b0''\<rparr>"
    "plain_ref \<lparr>br_owner = ''o'', br_repo = ''r'', br_path = p, br_ref = ''h0''\<rparr>" for p
    by (simp_all add: plain_ref_def)
  from file_versions_true [OF commit_serves this _ _ cache_true_new [of _ "''token''" "()"],
      where n = 1 and path = "''new.go''" and basePath = "''old.go''"]
  show ?thesis
    using commit_answers by (auto simp: maxResponse_def split: prod.splits sum.splits)
qed

text \<open>A server that has one answer for every request.\<close>

definition constant_env :: "http_response \<Rightarrow> unit env" where
  "constant_env resp =
     \<lparr>http_do = (\<lambda>req w. (Inr resp, w)), now_unix = (\<lambda>w. 0), url_err = (\<lambda>u. None),
      url_string = (\<lambda>u. u), json_err = (\<lambda>ty body. []), go_sched = (\<lambda>w. [False, True, False])\<rparr>"

lemma constant_serves: "serves_files (constant_env (ok_response body)) test_cfg (\<lambda>b. Some body)"
  by (auto simp: serves_files_def constant_env_def ok_response_def is_prefix_iff)

lemma constant_answers: "always_answers (constant_env (ok_response body)) test_cfg"
  by (simp add: always_answers_def constant_env_def ok_response_def test_cfg_def New_def)

text \<open>Against a server that always answers both versions come back, whatever was read before.\<close>

lemma answered_versions:
  assumes "serves_files env cfg files" and "always_answers env cfg"
    and "plain_ref \<lparr>br_owner = owner, br_repo = repo,
        br_path = (if basePath = [] then path else basePath), br_ref = base\<rparr>"
    and "plain_ref \<lparr>br_owner = owner, br_repo = repo, br_path = path, br_ref = head\<rparr>"
    and "base \<noteq> []" and "head \<noteq> []" and "cache_true files (cs_cache s)"
  shows "\<exists>s'. GetFileVersions env cfg owner repo n path basePath base head s =
    (Inr \<lparr>fv_Base = file_blob (files \<lparr>br_owner = owner, br_repo = repo,
           br_path = (if basePath = [] then path else basePath), br_ref = base\<rparr>),
        fv_Head = file_blob (files \<lparr>br_owner = owner, br_repo = repo, br_path = path, br_ref = head\<rparr>),
        fv_Truncated = False\<rparr>, s')"
proof -
  obtain r s' where run: "GetFileVersions env cfg owner repo n path basePath base head s = (r, s')"
    by fastforce
  from GetFileVersions_true [OF assms(1,3-7) run] assms(2) run show ?thesis by auto
qed

lemma constant_versions:
  assumes "base \<noteq> []" and "head \<noteq> []"
  shows "\<exists>s'. GetFileVersions (constant_env (ok_response body)) test_cfg owner repo n path basePath base head
      (snd (New token None w)) =
    (Inr \<lparr>fv_Base = file_blob (Some body), fv_Head = file_blob (Some body), fv_Truncated = False\<rparr>, s')"
proof -
  let ?env = "constant_env (ok_response body)" and ?v = "file_blob (Some body)"
  let ?I = "\<lambda>s. known cache_ok cached (\<lambda>k v. v = ?v) (cs_cache s)"
  let ?J = "\<lambda>(b :: blob_ref) t. (\<forall>v. t = Store v \<longrightarrow> v = ?v) \<and> (\<forall>r. t = Finished r \<longrightarrow> r = Inr ?v)"
  let ?b = "\<lparr>br_owner = owner, br_repo = repo,
           br_path = (if basePath = [] then path else basePath), br_ref = base\<rparr>"
  let ?h = "\<lparr>br_owner = owner, br_repo = repo, br_path = path, br_ref = head\<rparr>"
  have sent: "blob_of_sent (fst (send ?env req s)) = Inr ?v" for req s
    by (simp add: send_def constant_env_def ok_response_def read_body_def is_2xx_def blob_of_sent_def Let_def)
  have step: "?I s2 \<and> ?J x t2" if I: "?I s1" and J: "?J x t1" and st: "task_step ?env test_cfg x t1 s1 = (t2, s2)"
    for x t1 s1 t2 s2
  proof (cases t1)
    case Lookup
    have cfg: "cf_tokenErr test_cfg = None" by (simp add: test_cfg_def New_def)
    obtain r c where bl: "blob (ref_key x) (cs_cache s1) = (r, c)" by fastforce
    with blob_memo.known_get [OF I, of "ref_key x"] blob_memo.get_known [OF I, of "ref_key x"] st cfg
    show ?thesis by (auto simp: Lookup task_step_def split: option.splits)
  next
    case Fetch
    obtain r s' where snd: "send ?env (raw_request test_cfg x) s1 = (r, s')" by fastforce
    with sent [of "raw_request test_cfg x" s1] send_net_only [OF snd] I st show ?thesis
      by (auto simp: Fetch task_step_def constant_env_def)
  next
    case (Store v)
    with st I J blob_memo.known_put [OF I] show ?thesis by (auto simp: task_step_def)
  next
    case (Finished r)
    with st I J show ?thesis by (auto simp: task_step_def)
  qed
  obtain r s' where run: "GetFileVersions ?env test_cfg owner repo n path basePath base head
      (snd (New token None w)) = (r, s')"
    by fastforce
  then have both: "both_blobs (go_sched ?env w) ?env test_cfg ?b ?h (snd (New token None w)) = (r, s')"
    using assms by (simp add: GetFileVersions_def Let_def New_def)
  have new: "?I (snd (New token None w))"
    by (simp add: New_def known_def cache_ok_new cached_new)
  have "\<exists>rb rh. r = versions rb rh \<and> ?I s' \<and> ?J ?b (Finished rb) \<and> ?J ?h (Finished rh)"
    by (rule both_blobs_invariant [where I = ?I and J = ?J, OF both])
      (use new step in \<open>blast | simp\<close>)+
  with run show ?thesis by (auto simp: versions_def)
qed

text \<open>C40: A content past 32 MiB is cut there without a sign of it: against a server that answers
  every request with the same 200 and a longer body, \<open>GetFileVersions\<close> succeeds with the first
  32 MiB as the whole of both files, and its \<open>truncated\<close> flag is not set.\<close>

theorem long_blob_cut:
  assumes "maxResponse < length body" and "base \<noteq> []" and "head \<noteq> []"
    and "CHR ''/'' \<notin> set owner \<union> set repo \<union> set base \<union> set head"
  shows "fst (GetFileVersions (constant_env (ok_response body)) test_cfg owner repo n path basePath
      base head (snd (New ''token'' None ()))) =
    Inr \<lparr>fv_Base = \<lparr>fb_Content = take maxResponse body, fb_Missing = False\<rparr>,
         fv_Head = \<lparr>fb_Content = take maxResponse body, fb_Missing = False\<rparr>, fv_Truncated = False\<rparr> \<and>
    take maxResponse body \<noteq> body"
proof -
  have "take maxResponse body \<noteq> body"
    using assms(1) by (auto dest: arg_cong [where f = length])
  then show ?thesis
    using constant_versions [OF assms(2,3), where body = body and owner = owner and repo = repo and n = n
        and path = path and basePath = basePath and token = "''token''"] by auto
qed

theorem long_blob_cut_witness:
  "fst (GetFileVersions (constant_env (ok_response (replicate (Suc maxResponse) CHR ''x''))) test_cfg
      ''o'' ''r'' 1 ''p'' [] ''b0'' ''h0'' (snd (New ''token'' None ()))) =
    Inr \<lparr>fv_Base = \<lparr>fb_Content = take maxResponse (replicate (Suc maxResponse) CHR ''x''), fb_Missing = False\<rparr>,
         fv_Head = \<lparr>fb_Content = take maxResponse (replicate (Suc maxResponse) CHR ''x''), fb_Missing = False\<rparr>,
         fv_Truncated = False\<rparr> \<and>
    take maxResponse (replicate (Suc maxResponse) CHR ''x'') \<noteq> replicate (Suc maxResponse) CHR ''x''"
  by (rule long_blob_cut) (simp_all del: replicate_Suc)

lemma fold_collect_threads:
  "fold (\<lambda>(c, p). collect_threads c p) ps acc =
    acc @ concat (map (\<lambda>(c, p). map thread_of (cn_Nodes p)) ps)"
  by (induction ps arbitrary: acc) (auto simp: collect_threads_def)

lemma fold_collect_timeline:
  "\<forall>(c, p) \<in> set ps. c \<noteq> [] \<Longrightarrow> fold (\<lambda>(c, p). collect_timeline c p) ps acc =
    \<lparr>tl_Comments = tl_Comments acc @
        concat (map (\<lambda>(c, p). map timeline_comment (cn_Nodes (tg_Comments p))) ps),
     tl_Reviews = tl_Reviews acc\<rparr>"
  by (induction ps arbitrary: acc) (auto simp: collect_timeline_def)

definition paged_viewed :: "(string \<times> prDetailGQL) list \<Rightarrow> (string \<rightharpoonup> string)" where
  "paged_viewed ps = add_viewed (concat (map (\<lambda>(c, p). cn_Nodes (gd_Files p)) ps)) Map.empty"

lemma add_viewed_append: "add_viewed (xs @ ys) v = add_viewed ys (add_viewed xs v)"
  by (simp add: add_viewed_def)

lemma fold_collect_pr:
  "\<forall>(c, p) \<in> set ps. c \<noteq> [] \<Longrightarrow> fold (\<lambda>(c, p). collect_pr c p) ps (v, m) =
    (add_viewed (concat (map (\<lambda>(c, p). cn_Nodes (gd_Files p)) ps)) v, m)"
  by (induction ps arbitrary: v) (auto simp: collect_pr_def add_viewed_append add_viewed_def)

lemma chain_cursors: "chain info ((c, p) # ps) \<Longrightarrow> \<forall>(c', p') \<in> set ps. c' \<noteq> []"
proof (induction ps arbitrary: c p)
  case (Cons cp ps)
  then show ?case
    by (cases cp) (auto simp: nextCursor_def split: if_splits)
qed simp

lemma set_take_ball: "\<forall>x \<in> set xs. P x \<Longrightarrow> \<forall>x \<in> set (take n xs). P x"
  by (meson in_set_takeD)

text \<open>The viewed state of a path: the last file node of the pages that names it.\<close>

lemma add_viewed_last:
  "add_viewed nodes v path =
    (case List.find (\<lambda>n. fn_Path n = path) (rev nodes) of
       Some n \<Rightarrow> Some (fn_ViewerViewedState n) | None \<Rightarrow> v path)"
proof (induction nodes rule: rev_induct)
  case Nil
  then show ?case by (simp add: add_viewed_def)
next
  case (snoc n nodes)
  then show ?case by (simp add: add_viewed_append) (simp add: add_viewed_def)
qed

text \<open>C17: Against a server that answers the walk's calls with the pages of a thread list, \<open>GetThreads\<close>
  returns every thread of the first hundred pages, in order, each mapped to its result shape.\<close>

theorem GetThreads_complete:
  assumes "chain cn_PageInfo (([], p) # ps)"
    and "answered (\<lambda>cursor. graphql env cfg ''threadsGQL'' getThreadsQuery (page_vars owner repo n cursor)
           threadsGQL_dec zero_connection) (take 100 (([], p) # ps)) s s'"
  shows "GetThreads env cfg owner repo n s =
    (Inr (map thread_of (concat (map (cn_Nodes \<circ> snd) (take 100 (([], p) # ps))))), s')"
  using cursor_walk_complete [OF assms, of collect_threads "[]"]
  by (simp only: GetThreads_def gqlMaxPages_def fold_collect_threads)
    (simp add: map_concat comp_def case_prod_unfold)

definition threads_page :: "string \<Rightarrow> bool \<Rightarrow> string \<Rightarrow> json" where
  "threads_page i next_page c =
     JObj [(''repository'', JObj [(''pullRequest'', JObj [(''reviewThreads'', JObj
       [(''nodes'', JArr [JObj [(''id'', JStr i)]]),
        (''pageInfo'', JObj [(''hasNextPage'', JBool next_page), (''endCursor'', JStr c)])])])])]"

definition threads_conn :: "string \<Rightarrow> bool \<Rightarrow> string \<Rightarrow> threadsGQL" where
  "threads_conn i next_page c =
     \<lparr>cn_Nodes = [zero_threadNode\<lparr>tn_ID := i\<rparr>],
      cn_PageInfo = \<lparr>pg_HasNextPage = next_page, pg_EndCursor = c\<rparr>\<rparr>"

lemmas dec_eval =
  in_pull_def nest_def connection_dec_def pageInfoGQL_dec_def find_field_def fld_def
  zero_connection_def zero_pageInfo_def

lemmas scripted_eval =
  scripted_def maxResponse_def max_nesting_def utf8_ok.simps utf8_len.simps byte_def

lemma threads_page_dec:
  "threadsGQL_dec (threads_page i m c) zero_connection = Some (threads_conn i m c)"
  by (simp add: threads_page_def threads_conn_def threadsGQL_dec_def threadNodeGQL_dec_def dec_eval
      zero_threadNode_def)

lemma threads_page_scripted:
  "scripted (threads_page ''T1'' True ''c1'')" "scripted (threads_page ''T2'' False [])"
  by (simp_all add: threads_page_def scripted_eval)

theorem GetThreads_complete_witness:
  "fst (GetThreads script_env test_cfg ''o'' ''r'' 1
      (script [data_body (threads_page ''T1'' True ''c1''), data_body (threads_page ''T2'' False [])])) =
    Inr [thread_of (zero_threadNode\<lparr>tn_ID := ''T1''\<rparr>), thread_of (zero_threadNode\<lparr>tn_ID := ''T2''\<rparr>)]"
proof -
  let ?s = "script [data_body (threads_page ''T1'' True ''c1''), data_body (threads_page ''T2'' False [])]"
  have c: "chain cn_PageInfo [([], threads_conn ''T1'' True ''c1''), (''c1'', threads_conn ''T2'' False [])]"
    by (simp add: nextCursor_def threads_conn_def)
  have "\<exists>s'. answered (\<lambda>cursor. graphql script_env test_cfg ''threadsGQL'' getThreadsQuery (page_vars ''o'' ''r'' 1 cursor)
      threadsGQL_dec zero_connection)
      (take 100 [([], threads_conn ''T1'' True ''c1''), (''c1'', threads_conn ''T2'' False [])]) ?s s'"
    by (simp add: script_eq graphql_script_step threads_page_dec threads_page_scripted)
  then obtain s' where "answered (\<lambda>cursor. graphql script_env test_cfg ''threadsGQL'' getThreadsQuery
      (page_vars ''o'' ''r'' 1 cursor) threadsGQL_dec zero_connection)
      (take 100 [([], threads_conn ''T1'' True ''c1''), (''c1'', threads_conn ''T2'' False [])]) ?s s'" ..
  from GetThreads_complete [OF c this] show ?thesis by (simp add: threads_conn_def)
qed

text \<open>C19: \<open>GetTimeline\<close> returns the comments of every page, in order, and the reviews of the first
  page that were submitted and say something: never a draft, and never a comment-only review
  with an empty body.\<close>

theorem GetTimeline_complete:
  assumes "chain (\<lambda>page. cn_PageInfo (tg_Comments page)) (([], p) # ps)"
    and "answered (\<lambda>cursor. graphql env cfg ''timelineGQL'' getTimelineQuery (page_vars owner repo n cursor)
           timelineGQL_dec zero_timeline) (take 100 (([], p) # ps)) s s'"
  shows "GetTimeline env cfg owner repo n s =
    (Inr \<lparr>tl_Comments = map timeline_comment
            (concat (map (cn_Nodes \<circ> tg_Comments \<circ> snd) (take 100 (([], p) # ps)))),
          tl_Reviews = map review_summary (filter (\<lambda>r. rn_SubmittedAt r \<noteq> [] \<and>
            (rn_Body r \<noteq> [] \<or> rn_State r \<notin> {[], ''COMMENTED''})) (tg_Reviews p))\<rparr>, s')"
proof -
  have t: "take 100 (([], p) # ps) = ([], p) # take 99 ps" by simp
  have cs: "\<forall>(c, q) \<in> set (take 99 ps). c \<noteq> []"
    using set_take_ball [OF chain_cursors [OF assms(1)]] .
  have l: "review_listed = (\<lambda>r. rn_SubmittedAt r \<noteq> [] \<and>
            (rn_Body r \<noteq> [] \<or> rn_State r \<notin> {[], ''COMMENTED''}))"
    by (auto simp: review_listed_def fun_eq_iff)
  show ?thesis
    using cursor_walk_complete [OF assms, of collect_timeline "\<lparr>tl_Comments = [], tl_Reviews = []\<rparr>"]
    by (simp only: t fold_Cons comp_def case_prod_conv fold_collect_timeline [OF cs] GetTimeline_def
        gqlMaxPages_def)
      (simp add: collect_timeline_def map_concat comp_def case_prod_unfold l)
qed

text \<open>C18: \<open>GetPR\<close> merges its two sources by path: the files are those of the REST list, in its
  order, each with the viewed state the GraphQL pages give its path (the last one to name it)
  and unviewed when none does; the metadata is that of the first page.\<close>

theorem GetPR_merges:
  assumes "chain (\<lambda>page. cn_PageInfo (gd_Files page)) (([], p) # ps)"
    and "answered (\<lambda>cursor. graphql env cfg ''prDetailGQL'' getPRQuery (page_vars owner repo n cursor)
           prDetailGQL_dec zero_prDetail) (take 100 (([], p) # ps)) s s'"
    and "getPaged env cfg ''fileDTO'' fileDTO_dec zero_file
           (pull_url cfg owner repo n @ ''/files?per_page=100'') s' = (Inr files, s'')"
  shows "GetPR env cfg owner repo n s =
    (Inr (pr_detail p (map (file_PRFile (\<lambda>path.
       map_option fn_ViewerViewedState (List.find (\<lambda>nd. fn_Path nd = path)
         (rev (concat (map (cn_Nodes \<circ> gd_Files \<circ> snd) (take 100 (([], p) # ps)))))))) files)), s'')"
proof -
  have t: "take 100 (([], p) # ps) = ([], p) # take 99 ps" by simp
  have cs: "\<forall>(c, q) \<in> set (take 99 ps). c \<noteq> []"
    using set_take_ball [OF chain_cursors [OF assms(1)]] .
  let ?nodes = "concat (map (cn_Nodes \<circ> gd_Files \<circ> snd) (take 100 (([], p) # ps)))"
  have v: "add_viewed ?nodes Map.empty = (\<lambda>path.
       map_option fn_ViewerViewedState (List.find (\<lambda>nd. fn_Path nd = path) (rev ?nodes)))"
    by (rule ext) (simp only: add_viewed_last, simp split: option.split)
  have "fold (\<lambda>(c, p). collect_pr c p) (take 100 (([], p) # ps)) (Map.empty, zero_prDetail) =
      (add_viewed ?nodes Map.empty, p)"
    by (simp only: t fold_Cons comp_def case_prod_conv collect_pr_def fst_conv if_True
        fold_collect_pr [OF cs])
      (simp add: add_viewed_append comp_def case_prod_unfold)
  with cursor_walk_complete [OF assms(1,2), of collect_pr "(Map.empty, zero_prDetail)"]
  have "cursor_walk gqlMaxPages (\<lambda>cursor. graphql env cfg ''prDetailGQL'' getPRQuery (page_vars owner repo n cursor)
           prDetailGQL_dec zero_prDetail) (\<lambda>page. cn_PageInfo (gd_Files page)) collect_pr []
           (Map.empty, zero_prDetail) s = (Inr (add_viewed ?nodes Map.empty, p), s')"
    by (simp only: gqlMaxPages_def)
  with assms(3) show ?thesis
    unfolding v [symmetric] GetPR_def bindE_def by simp
qed

definition timeline_page :: json where
  "timeline_page =
     JObj [(''repository'', JObj [(''pullRequest'', JObj
       [(''comments'', JObj
          [(''nodes'', JArr [JObj [(''body'', JStr ''hi'')]]),
           (''pageInfo'', JObj [(''hasNextPage'', JBool False)])]),
        (''reviews'', JObj
          [(''nodes'', JArr
             [JObj [(''state'', JStr ''APPROVED''), (''submittedAt'', JStr ''t1'')],
              JObj [(''state'', JStr ''COMMENTED''), (''submittedAt'', JStr ''t2'')],
              JObj [(''state'', JStr ''PENDING''), (''body'', JStr ''draft'')]])])])])]"

definition timeline_value :: timelineGQL where
  "timeline_value =
     \<lparr>tg_Comments = \<lparr>cn_Nodes = [zero_issueNode\<lparr>is_Body := ''hi''\<rparr>], cn_PageInfo = zero_pageInfo\<rparr>,
      tg_Reviews =
        [zero_reviewNode\<lparr>rn_State := ''APPROVED'', rn_SubmittedAt := ''t1''\<rparr>,
         zero_reviewNode\<lparr>rn_State := ''COMMENTED'', rn_SubmittedAt := ''t2''\<rparr>,
         zero_reviewNode\<lparr>rn_State := ''PENDING'', rn_Body := ''draft''\<rparr>]\<rparr>"

lemma timeline_page_dec: "timelineGQL_dec timeline_page zero_timeline = Some timeline_value"
  by (simp add: timeline_page_def timeline_value_def timelineGQL_dec_def dec_eval zero_timeline_def
      issueNodeGQL_dec_def zero_issueNode_def reviewNodeGQL_dec_def zero_reviewNode_def)

lemma timeline_page_scripted: "scripted timeline_page"
  by (simp add: timeline_page_def scripted_eval)

theorem GetTimeline_complete_witness:
  "fst (GetTimeline script_env test_cfg ''o'' ''r'' 1 (script [data_body timeline_page])) =
    Inr \<lparr>tl_Comments = [\<lparr>tm_Author = [], tm_Body = ''hi'', tm_CreatedAt = []\<rparr>],
         tl_Reviews = [\<lparr>rv_Author = [], rv_State = ''APPROVED'', rv_Body = [], rv_CreatedAt = ''t1''\<rparr>]\<rparr>"
proof -
  have c: "chain (\<lambda>page. cn_PageInfo (tg_Comments page)) [([], timeline_value)]"
    by (simp add: nextCursor_def timeline_value_def zero_pageInfo_def)
  have "\<exists>s'. answered (\<lambda>cursor. graphql script_env test_cfg ''timelineGQL'' getTimelineQuery (page_vars ''o'' ''r'' 1 cursor)
      timelineGQL_dec zero_timeline) (take 100 [([], timeline_value)]) (script [data_body timeline_page]) s'"
    by (simp add: script_eq graphql_script_step timeline_page_dec timeline_page_scripted)
  then obtain s' where "answered (\<lambda>cursor. graphql script_env test_cfg ''timelineGQL'' getTimelineQuery
      (page_vars ''o'' ''r'' 1 cursor) timelineGQL_dec zero_timeline)
      (take 100 [([], timeline_value)]) (script [data_body timeline_page]) s'" ..
  from GetTimeline_complete [OF c this] show ?thesis
    by (simp add: timeline_value_def timeline_comment_def zero_issueNode_def zero_login_def
        zero_reviewNode_def review_summary_def)
qed

definition pr_page :: json where
  "pr_page =
     JObj [(''repository'', JObj [(''pullRequest'', JObj
       [(''title'', JStr ''t''),
        (''files'', JObj [(''nodes'', JArr
          [JObj [(''path'', JStr ''a''), (''viewerViewedState'', JStr ''VIEWED'')]])])])])]"

definition pr_value :: prDetailGQL where
  "pr_value = zero_prDetail\<lparr>gd_Title := ''t'', gd_Files :=
     \<lparr>cn_Nodes = [\<lparr>fn_Path = ''a'', fn_ViewerViewedState = ''VIEWED''\<rparr>], cn_PageInfo = zero_pageInfo\<rparr>\<rparr>"

definition files_page :: json where
  "files_page = JArr [JObj [(''filename'', JStr ''b'')], JObj [(''filename'', JStr ''a'')]]"

lemma pr_page_dec: "prDetailGQL_dec pr_page zero_prDetail = Some pr_value"
  by (simp add: pr_page_def pr_value_def prDetailGQL_dec_def dec_eval zero_prDetail_def
      fileNodeGQL_dec_def zero_fileNode_def)

lemma pages_scripted: "scripted pr_page" "scripted files_page"
  by (simp_all add: pr_page_def files_page_def scripted_eval)

lemma files_page_dec:
  "dec_slice fileDTO_dec zero_file files_page [] =
    Some [zero_file\<lparr>fd_Filename := ''b''\<rparr>, zero_file\<lparr>fd_Filename := ''a''\<rparr>]"
  by (simp add: files_page_def fileDTO_dec_def dec_eval zero_file_def)

theorem GetPR_merges_witness:
  "map (\<lambda>f. (pf_Path f, pf_ViewedState f)) (case fst (GetPR script_env test_cfg ''o'' ''r'' 1
      (script [data_body pr_page, json_text files_page])) of Inr d \<Rightarrow> pd_Files d | Inl e \<Rightarrow> []) =
    [(''b'', ''UNVIEWED''), (''a'', ''VIEWED'')]"
proof -
  let ?fetch = "\<lambda>cursor. graphql script_env test_cfg ''prDetailGQL'' getPRQuery (page_vars ''o'' ''r'' 1 cursor)
      prDetailGQL_dec zero_prDetail"
  let ?s = "script [data_body pr_page, json_text files_page]"
  let ?url = "pull_url test_cfg ''o'' ''r'' 1 @ ''/files?per_page=100''"
  have c: "chain (\<lambda>page. cn_PageInfo (gd_Files page)) [([], pr_value)]"
    by (simp add: nextCursor_def pr_value_def zero_pageInfo_def)
  have "\<exists>s' s''. answered ?fetch (take 100 [([], pr_value)]) ?s s' \<and>
      getPaged script_env test_cfg ''fileDTO'' fileDTO_dec zero_file ?url s' =
        (Inr [zero_file\<lparr>fd_Filename := ''b''\<rparr>, zero_file\<lparr>fd_Filename := ''a''\<rparr>], s'')"
    by (simp add: script_eq graphql_script_step pr_page_dec pages_scripted
        getPaged_script [OF _ _ pages_scripted(2) files_page_dec])
  then obtain s' s'' where run: "answered ?fetch (take 100 [([], pr_value)]) ?s s'"
    "getPaged script_env test_cfg ''fileDTO'' fileDTO_dec zero_file ?url s' =
        (Inr [zero_file\<lparr>fd_Filename := ''b''\<rparr>, zero_file\<lparr>fd_Filename := ''a''\<rparr>], s'')" by blast
  from GetPR_merges [OF c run] show ?thesis
    by (simp add: pr_detail_def file_PRFile_def viewed_state_def pr_value_def)
qed

text \<open>
  The server's word on who the token's user is: a success of \<open>GET /user\<close> whose body arrives is an object
  with that login, and with no other field the decoder would take for it.
\<close>

definition user_call :: "client_cfg \<Rightarrow> http_request" where
  "user_call cfg = rest_get cfg (cf_restURL cfg @ ''/user'')"

definition says_login :: "string \<Rightarrow> (string \<times> json) list \<Rightarrow> bool" where
  "says_login me kvs \<longleftrightarrow>
     (''login'', JStr me) \<in> set kvs \<and>
     (\<forall>(k, v) \<in> set kvs. fold_key k = fold_key ''login'' \<longrightarrow> v = JStr me)"

definition names_user :: "'w env \<Rightarrow> client_cfg \<Rightarrow> string \<Rightarrow> bool" where
  "names_user env cfg me \<longleftrightarrow>
     me \<noteq> [] \<and>
     (\<forall>w resp w'. http_do env (user_call cfg) w = (Inr resp, w') \<longrightarrow>
        200 \<le> hr_StatusCode resp \<and> hr_StatusCode resp < 300 \<longrightarrow>
          length (hr_Body resp) < maxResponse \<and>
          (hr_BodyErr resp = None \<longrightarrow>
             (\<exists>kvs. parse_json (hr_Body resp) = Some (JObj kvs) \<and> says_login me kvs)))"

lemma user_fields:
  "find_field [fld ''login'' us_Login us_Login_update dec_string] k =
    (if fold_key k = fold_key ''login''
     then Some (snd (fld ''login'' us_Login us_Login_update dec_string)) else None)"
  by (auto simp: find_field_def fld_def)

lemma dec_user:
  assumes "says_login me kvs"
  shows "userDTO_dec (JObj kvs) zero_user = Some \<lparr>us_Login = me\<rparr>"
proof -
  let ?fs = "[fld ''login'' us_Login us_Login_update dec_string]"
  have hit: "dec_fields ?fs ((k, JStr me) # kvs) u = dec_fields ?fs kvs \<lparr>us_Login = me\<rparr>"
    if "fold_key k = fold_key ''login''" for k kvs u
    by (cases u, simp only: dec_fields.simps user_fields that if_True option.case) (simp add: fld_def)
  have miss: "dec_fields ?fs ((k, v) # kvs) u = dec_fields ?fs kvs u"
    if "fold_key k \<noteq> fold_key ''login''" for k v kvs u
    by (simp only: dec_fields.simps user_fields that if_False option.case)
  have dec: "dec_fields ?fs kvs u =
      Some (if \<exists>kv \<in> set kvs. fold_key (fst kv) = fold_key ''login'' then \<lparr>us_Login = me\<rparr> else u)"
    if "\<forall>(k, v) \<in> set kvs. fold_key k = fold_key ''login'' \<longrightarrow> v = JStr me" for kvs u
    using that
  proof (induction kvs arbitrary: u)
    case (Cons kv kvs)
    obtain k v where kv: "kv = (k, v)" by (cases kv)
    have IH: "dec_fields ?fs kvs u =
        Some (if \<exists>kv \<in> set kvs. fold_key (fst kv) = fold_key ''login'' then \<lparr>us_Login = me\<rparr> else u)" for u
      using Cons.prems by (intro Cons.IH) auto
    show ?case
    proof (cases "fold_key k = fold_key ''login''")
      case True
      moreover from this Cons.prems have "v = JStr me" unfolding kv by fastforce
      ultimately show ?thesis unfolding kv by (simp only: hit [OF True] IH) simp
    next
      case False
      then show ?thesis unfolding kv miss [OF False] IH by simp
    qed
  qed simp
  from assms have "\<exists>kv \<in> set kvs. fold_key (fst kv) = fold_key ''login''"
    unfolding says_login_def by (metis fst_conv)
  with dec [of kvs zero_user] assms show ?thesis
    unfolding userDTO_dec_def says_login_def dec_struct_JObj by presburger
qed

lemma viewerLogin_names:
  assumes me: "names_user env cfg me" and v: "cs_viewer s = [] \<or> cs_viewer s = me"
    and cfg: "cf_tokenErr cfg = None" "url_err env (cf_restURL cfg @ ''/user'') = None"
    and run: "viewerLogin env cfg s = (r, s')"
  shows "case r of
      Inr login \<Rightarrow> login = me \<and> cs_viewer s' = me \<and>
        cs_calls s' = cs_calls s @ (if cs_viewer s = [] then [user_call cfg] else [])
    | Inl e \<Rightarrow> cs_viewer s' = [] \<and> cs_calls s' = cs_calls s @ [user_call cfg] \<and>
        \<not> (\<exists>resp w. http_do env (user_call cfg) (cs_net s) = (Inr resp, w) \<and> whole resp)"
proof (cases "cs_viewer s = []")
  case False
  with v run me show ?thesis by (auto simp: viewerLogin_def names_user_def)
next
  case True
  obtain snt s1 where snt: "send env (user_call cfg) s = (snt, s1)" by fastforce
  have st: "cs_viewer s1 = []" "cs_calls s1 = cs_calls s @ [user_call cfg]"
    using send_state [of env "user_call cfg" s] True by (simp_all add: snt)
  have get: "getJSON env cfg ''userDTO'' (cf_restURL cfg @ ''/user'') userDTO_dec zero_user s =
    (case snt of NoResponse e \<Rightarrow> (Inl e, s1) | Failed resp body e \<Rightarrow> (Inl e, s1)
     | Received resp body \<Rightarrow>
         (case unmarshal body userDTO_dec zero_user of
            None \<Rightarrow> (Inl (decode_err env ''userDTO'' ''decoding response: '' body), s1) | Some x \<Rightarrow> (Inr x, s1)))"
    using getJSON_send [OF cfg, of "''userDTO''" userDTO_dec zero_user s] snt
    by (simp add: user_call_def split: sent.split)
  show ?thesis
  proof (cases snt)
    case (Received resp body)
    have snt': "send env (user_call cfg) s = (Received resp body, s1)" using snt Received by simp
    have "200 \<le> hr_StatusCode resp \<and> hr_StatusCode resp < 300"
      and do: "http_do env (user_call cfg) (cs_net s) = (Inr resp, cs_net s1)"
      using send_received [OF snt'] by (simp_all add: is_2xx_def)
    with me have "length (hr_Body resp) < maxResponse" and says: "hr_BodyErr resp = None \<longrightarrow>
        (\<exists>kvs. parse_json (hr_Body resp) = Some (JObj kvs) \<and> says_login me kvs)"
      unfolding names_user_def by blast+
    with send_received [OF snt'] obtain kvs where "body = hr_Body resp" "parse_json body = Some (JObj kvs)" "says_login me kvs"
      by auto
    then have "unmarshal body userDTO_dec zero_user = Some \<lparr>us_Login = me\<rparr>"
      by (simp add: unmarshal_def dec_user)
    then show ?thesis
      using run me st True by (auto simp: viewerLogin_def bindE_def get Received names_user_def)
  next
    case (NoResponse e)
    then show ?thesis
      using run st True snt send_whole [of env "user_call cfg" s] by (fastforce simp: viewerLogin_def bindE_def get)
  next
    case (Failed resp body e)
    then show ?thesis
      using run st True snt send_whole [of env "user_call cfg" s] by (fastforce simp: viewerLogin_def bindE_def get)
  qed
qed

definition wanted :: "string \<Rightarrow> string \<Rightarrow> pullDTO \<Rightarrow> bool" where
  "wanted flt me p \<longleftrightarrow>
     flt \<in> {[], ''open''} \<or>
     flt = ''mine'' \<and> lg_Login (pl_User p) = me \<or>
     flt = ''review_requested'' \<and> me \<in> lg_Login ` set (pl_Reviewers p)"

text \<open>C31: The list filters.  \<open>open\<close> (and no filter) lists every open pull request the pages hold and asks
  nothing more; \<open>mine\<close> lists those the token's user wrote and \<open>review_requested\<close> those that ask for that
  user's review, each with its number, title, author, branch, time and draft mark.  Who the user is, is
  asked of the server in one call, and only when it is not known yet; then it is remembered.  Such a
  list fails only when that call does.  Any other filter is a bad request, and no call is made for it.\<close>

theorem ListPRs_filters:
  assumes "names_user env cfg me" and "url_err env (cf_restURL cfg @ ''/user'') = None"
    and "cs_viewer s1 = [] \<or> cs_viewer s1 = me"
    and "getPaged env cfg ''pullDTO'' pullDTO_dec zero_pull (pulls_url cfg owner repo) s = (Inr pulls, s1)"
  shows "if flt \<notin> {[], ''open'', ''mine'', ''review_requested''}
    then ListPRs env cfg owner repo flt s = (Inl (newError CodeBadRequest (''unknown filter: '' @ flt)), s)
    else case ListPRs env cfg owner repo flt s of
      (Inr prs, s') \<Rightarrow>
        prs = map (\<lambda>p. \<lparr>pr_Number = pl_Number p, pr_Title = pl_Title p, pr_Author = lg_Login (pl_User p),
            pr_HeadRef = pl_HeadRef p, pr_UpdatedAt = pl_UpdatedAt p, pr_Draft = pl_Draft p\<rparr>)
          (filter (wanted flt me) pulls) \<and>
        (if flt \<in> {[], ''open''} then s' = s1
         else cs_viewer s' = me \<and>
           cs_calls s' = cs_calls s1 @ (if cs_viewer s1 = [] then [user_call cfg] else []))
    | (Inl e, s') \<Rightarrow>
        flt \<notin> {[], ''open''} \<and> cs_viewer s1 = [] \<and> cs_viewer s' = [] \<and>
        cs_calls s' = cs_calls s1 @ [user_call cfg] \<and>
        \<not> (\<exists>resp w. http_do env (user_call cfg) (cs_net s1) = (Inr resp, w) \<and> whole resp)"
proof -
  have tok: "cf_tokenErr cfg = None"
    using assms(4) by (auto simp: getPaged_def with_token_def failE_def split: option.splits)
  have me: "me \<noteq> []" using assms(1) by (simp add: names_user_def)
  have wanted: "listed ''open'' v = wanted flt me" if "flt \<in> {[], ''open''}" for v
    using that by (auto simp: listed_def wanted_def fun_eq_iff)
  have wanted': "listed flt me = wanted flt me" if "flt \<in> {''mine'', ''review_requested''}"
    using that by (auto simp: listed_def hasReviewer_def list_ex_iff wanted_def fun_eq_iff)
  obtain r s' where v: "viewerLogin env cfg s1 = (r, s')" by fastforce
  note viewer = viewerLogin_names [OF assms(1,3) tok assms(2) v]
  have known: "\<exists>x. r = Inr x" if "cs_viewer s1 \<noteq> []"
    using that v by (auto simp: viewerLogin_def)
  show ?thesis
  proof (cases "flt \<in> {''mine'', ''review_requested''}")
    case True
    then have flt: "flt \<noteq> []" "flt \<noteq> ''open''" "flt = ''mine'' \<or> flt = ''review_requested''" by auto
    then have "ListPRs env cfg owner repo flt s =
        (case r of Inl e \<Rightarrow> (Inl e, s') | Inr w \<Rightarrow> (Inr (map pull_PR (filter (listed flt w) pulls)), s'))"
      using assms(4) v by (auto simp: ListPRs_def Let_def bindE_def retE_def split: sum.split)
    then show ?thesis
      using flt viewer known wanted' [OF True] by (cases r) (auto simp: pull_PR_def [abs_def])
  next
    case False
    then show ?thesis
      using assms(4) wanted by (auto simp: ListPRs_def Let_def bindE_def retE_def failE_def pull_PR_def [abs_def])
  qed
qed

definition pulls_page :: json where
  "pulls_page = JArr
     [JObj [(''number'', JNum ''1''), (''user'', JObj [(''login'', JStr ''me'')])],
      JObj [(''number'', JNum ''2''), (''user'', JObj [(''login'', JStr ''you'')])]]"

text \<open>A server with those two pull requests, whose token is \<open>me\<close>'s.\<close>

definition user_env :: "unit env" where
  "user_env =
     \<lparr>http_do = (\<lambda>req w.
        (Inr (ok_response (json_text
           (if req = user_call test_cfg then JObj [(''login'', JStr ''me'')] else pulls_page))), w)),
      now_unix = (\<lambda>w. 0), url_err = (\<lambda>u. None), url_string = (\<lambda>u. u), json_err = (\<lambda>ty body. []),
      go_sched = (\<lambda>w. [])\<rparr>"

lemma whole_text: "scripted j \<Longrightarrow> whole (ok_response (json_text j)) \<and> parse_json (json_text j) = Some j"
  using json_text_length [of j] parse_text [of j] by (auto simp: scripted_def whole_def ok_response_def)

lemma user_env_names: "names_user user_env test_cfg ''me''"
proof -
  have "scripted (JObj [(''login'', JStr ''me'')])" by (simp add: scripted_eval)
  from whole_text [OF this] show ?thesis
    by (auto simp: names_user_def user_env_def ok_response_def whole_def says_login_def)
qed

theorem ListPRs_filters_witness:
  "\<exists>s'. ListPRs user_env test_cfg ''o'' ''r'' ''mine'' (snd (New ''token'' None ())) =
      (Inr [\<lparr>pr_Number = 1, pr_Title = [], pr_Author = ''me'', pr_HeadRef = [], pr_UpdatedAt = [], pr_Draft = False\<rparr>], s') \<and>
    cs_viewer s' = ''me'' \<and> length (cs_calls s') = 2"
proof -
  let ?pl = "\<lambda>n u. zero_pull\<lparr>pl_Number := n, pl_User := \<lparr>lg_Login = u\<rparr>\<rparr>"
  let ?s = "snd (New ''token'' None ())" and ?url = "pulls_url test_cfg ''o'' ''r''"
  have one: "parse_int64 ''1'' = NumOk 1" "parse_int64 ''2'' = NumOk 2" by code_simp+
  have d: "dec_slice pullDTO_dec zero_pull pulls_page [] = Some [?pl 1 ''me'', ?pl 2 ''you'']"
    by (simp add: pulls_page_def pullDTO_dec_def dec_eval zero_pull_def loginDTO_dec_def zero_login_def one
        del: parse_int64.simps)
  have sc: "scripted pulls_page" by (simp add: pulls_page_def scripted_eval num_ok_def, code_simp)
  have "rest_get test_cfg ?url \<noteq> user_call test_cfg"
    by (simp add: rest_get_def user_call_def pulls_url_def)
  then have do: "http_do user_env (rest_get test_cfg ?url) (cs_net ?s) = (Inr (ok_response (json_text pulls_page)), ())"
    by (simp add: user_env_def)
  have "url_err user_env u = None" for u by (simp add: user_env_def)
  from getPaged_page [OF _ _ this do sc d, of "''pullDTO''"] obtain s1
    where s1: "getPaged user_env test_cfg ''pullDTO'' pullDTO_dec zero_pull ?url ?s = (Inr [?pl 1 ''me'', ?pl 2 ''you''], s1)"
      "cs_viewer s1 = []" "length (cs_calls s1) = 1"
    by (auto simp: pulls_url_def New_def)
  have "\<exists>resp w. http_do user_env (user_call test_cfg) w0 = (Inr resp, w) \<and> whole resp" for w0
    using whole_text [of "JObj [(''login'', JStr ''me'')]"] by (simp add: user_env_def scripted_eval)
  with ListPRs_filters [OF user_env_names _ _ s1(1), of "''mine''"] s1(2,3) \<open>\<And>u. url_err user_env u = None\<close>
  show ?thesis
    by (auto simp: wanted_def zero_pull_def split: prod.splits sum.splits)
qed

text \<open>C37: A path survives its URL: \<open>escapePath\<close> keeps the path's segments apart and writes only
  characters that cannot end the path of the URL, and a server that unescapes each segment reads
  the path back.\<close>

theorem escapePath_roundtrip:
  "map unescape (split_on CHR ''/'' (escapePath p)) = map Some (split_on CHR ''/'' p) \<and>
   list_all (\<lambda>c. url_char c \<or> c = CHR ''/'') (escapePath p)"
  using escapePath_chars by (auto simp: unescape_escapePath list_all_iff)

text \<open>C39: The ids GitHub sends as decimal strings come back as the number they write, and one past
  64 bits as the nearest 64-bit number rather than as 0.\<close>

theorem parseID_clamps:
  "parseID (itoa i) = (if i < min_int64 then min_int64 else if max_int64 < i then max_int64 else i)"
proof -
  have sign: "parse_int64 (nat_str n) = parse_magnitude False (nat_str n)" for n
    using nat_str_no_sign [of _ n] by (cases "nat_str n") auto
  have mag: "num_value (parse_magnitude neg (nat_str n)) =
      (if neg then (if int n > - min_int64 then min_int64 else - int n)
       else (if int n > max_int64 then max_int64 else int n))" for neg n
    by (cases "int n \<le> max_uint64")
      (auto simp: parse_magnitude_def parse_uint_nat_str parse_uint_nat_str_over clamp_int64_def
        min_int64_def max_int64_def max_uint64_def)
  show ?thesis
    by (auto simp: parseID_def itoa_def sign mag min_int64_def max_int64_def)
qed

end
