(* ===== verification/Mutations.thy ===== *)
theory Mutations
  imports Reads
begin

text \<open>
  The write operations of the client: \<open>reviews.go\<close>, \<open>comments.go\<close>, \<open>merge.go\<close>, \<open>state.go\<close>,
  \<open>viewed.go\<close> and \<open>ResolveThread\<close> of \<open>threads.go\<close>.
\<close>

section \<open>Reviews (reviews.go)\<close>

definition prAndPendingReview ::
  "'w env \<Rightarrow> client_cfg \<Rightarrow> string \<Rightarrow> string \<Rightarrow> int \<Rightarrow> ('w, string \<times> string) gh" where
  "prAndPendingReview env cfg owner repo number =
     bindE (graphql env cfg ''startReviewLookupGQL'' startReviewLookupQuery (pr_vars owner repo number)
              startReviewLookupGQL_dec zero_startReviewLookup) (\<lambda>look.
       if sl_ID look = [] then failE (newError CodeNotFound ''pull request not found'')
       else retE (sl_ID look, case sl_Reviews look of [] \<Rightarrow> [] | r # _ \<Rightarrow> r))"

definition StartReview ::
  "'w env \<Rightarrow> client_cfg \<Rightarrow> string \<Rightarrow> string \<Rightarrow> int \<Rightarrow> ('w, StartReview_res) gh" where
  "StartReview env cfg owner repo number =
     bindE (prAndPendingReview env cfg owner repo number) (\<lambda>(prID, pendingID).
       if pendingID \<noteq> [] then retE \<lparr>sr_ReviewID = pendingID\<rparr>
       else
         bindE (graphql env cfg ''addReviewGQL'' addReviewMutation [(''prId'', JStr prID)] addReviewGQL_dec [])
           (\<lambda>id.
              if id = [] then failE (newError CodeInternal ''github returned no review id'')
              else retE \<lparr>sr_ReviewID = id\<rparr>))"

definition SubmitReview ::
  "'w env \<Rightarrow> client_cfg \<Rightarrow> string \<Rightarrow> string \<Rightarrow> string \<Rightarrow> ('w, SubmitReview_res) gh" where
  "SubmitReview env cfg reviewID event body =
     bindE (graphql env cfg ''submitReviewGQL'' submitReviewMutation
              [(''reviewId'', JStr reviewID), (''event'', JStr event), (''body'', JStr body)]
              submitReviewGQL_dec []) (\<lambda>out.
       retE \<lparr>su_ID = parseID out\<rparr>)"

definition DiscardReview :: "'w env \<Rightarrow> client_cfg \<Rightarrow> string \<Rightarrow> ('w, unit) gh" where
  "DiscardReview env cfg reviewID =
     graphql_nil env cfg deleteReviewMutation [(''reviewId'', JStr reviewID)]"

section \<open>Comments (comments.go)\<close>

definition prNodeID ::
  "'w env \<Rightarrow> client_cfg \<Rightarrow> string \<Rightarrow> string \<Rightarrow> int \<Rightarrow> ('w, string) gh" where
  "prNodeID env cfg owner repo number =
     bindE (graphql env cfg ''prNodeIDGQL'' prNodeIDQuery (pr_vars owner repo number) prNodeIDGQL_dec []) (\<lambda>id.
       if id \<noteq> [] then retE id
       else failE (newError CodeNotFound ''pull request not found''))"

definition replyToThread ::
  "'w env \<Rightarrow> client_cfg \<Rightarrow> PostCommentInput \<Rightarrow> ('w, PostComment_res) gh" where
  "replyToThread env cfg inp =
     bindE (graphql env cfg ''addReplyGQL'' addThreadReplyMutation
              ([(''threadId'', JStr (in_InReplyTo inp)), (''body'', JStr (in_Body inp))] @
               (if in_ReviewID inp = [] then [] else [(''reviewId'', JStr (in_ReviewID inp))]))
              addReplyGQL_dec []) (\<lambda>out.
       retE \<lparr>po_ID = parseID out, po_ThreadID = in_InReplyTo inp, po_ReviewID = []\<rparr>)"

text \<open>The \<open>startLine\<close> and \<open>startSide\<close> of a range, on the end's side unless it names its own.\<close>

definition range_vars :: "PostCommentInput \<Rightarrow> (string \<times> json) list" where
  "range_vars inp =
     (if in_StartLine inp = 0 then []
      else
        let side = (if in_StartSide inp = [] then in_Side inp else in_StartSide inp)
        in [(''startLine'', json_int (in_StartLine inp)), (''startSide'', JStr side)])"

definition draftThread ::
  "'w env \<Rightarrow> client_cfg \<Rightarrow> PostCommentInput \<Rightarrow> ('w, PostComment_res) gh" where
  "draftThread env cfg inp =
     bindE (graphql env cfg ''addThreadGQL'' addThreadMutation
              ([(''path'', JStr (in_Path inp)), (''body'', JStr (in_Body inp)),
                (''line'', json_int (in_Line inp)), (''side'', JStr (in_Side inp)),
                (''reviewId'', JStr (in_ReviewID inp))] @ range_vars inp)
              addThreadGQL_dec zero_addThread) (\<lambda>thread.
       if at_ID thread = [] then
         failE (newError CodeBadRequest
           ''line could not be resolved: the comment must anchor to a line in the diff'')
       else
         retE \<lparr>po_ID = (case at_Comments thread of [] \<Rightarrow> 0 | c # _ \<Rightarrow> parseID c),
               po_ThreadID = at_ID thread, po_ReviewID = []\<rparr>)"

definition postNewThread ::
  "'w env \<Rightarrow> client_cfg \<Rightarrow> string \<Rightarrow> string \<Rightarrow> int \<Rightarrow> PostCommentInput \<Rightarrow> ('w, PostComment_res) gh" where
  "postNewThread env cfg owner repo number inp =
     bindE (prAndPendingReview env cfg owner repo number) (\<lambda>(prID, pendingID).
       if pendingID \<noteq> [] then
         bindE (draftThread env cfg (inp\<lparr>in_ReviewID := pendingID\<rparr>)) (\<lambda>pc.
           retE (pc\<lparr>po_ReviewID := pendingID\<rparr>))
       else
         (let thread = json_map
                ([(''path'', JStr (in_Path inp)), (''line'', json_int (in_Line inp)),
                  (''side'', JStr (in_Side inp)), (''body'', JStr (in_Body inp))] @ range_vars inp)
          in bindE (graphql env cfg ''publishCommentGQL'' publishCommentMutation
                      [(''prId'', JStr prID), (''threads'', JArr [thread])]
                      publishCommentGQL_dec []) (\<lambda>nodes.
               retE \<lparr>po_ID = (case nodes of [] \<Rightarrow> 0 | n # _ \<Rightarrow> parseID n),
                     po_ThreadID = [], po_ReviewID = []\<rparr>)))"

definition PostComment ::
  "'w env \<Rightarrow> client_cfg \<Rightarrow> string \<Rightarrow> string \<Rightarrow> int \<Rightarrow> PostCommentInput \<Rightarrow> ('w, PostComment_res) gh" where
  "PostComment env cfg owner repo number inp =
     (if in_InReplyTo inp \<noteq> [] then replyToThread env cfg inp
      else if in_ReviewID inp \<noteq> [] then draftThread env cfg inp
      else postNewThread env cfg owner repo number inp)"

definition PostIssueComment ::
  "'w env \<Rightarrow> client_cfg \<Rightarrow> string \<Rightarrow> string \<Rightarrow> int \<Rightarrow> string \<Rightarrow> ('w, PostIssueComment_res) gh" where
  "PostIssueComment env cfg owner repo number body =
     bindE (prNodeID env cfg owner repo number) (\<lambda>prID.
     bindE (graphql env cfg ''addIssueCommentGQL'' addIssueCommentMutation
              [(''subjectId'', JStr prID), (''body'', JStr body)] addIssueCommentGQL_dec []) (\<lambda>out.
       retE \<lparr>pi_ID = parseID out\<rparr>))"

definition DeleteComment :: "'w env \<Rightarrow> client_cfg \<Rightarrow> string \<Rightarrow> ('w, unit) gh" where
  "DeleteComment env cfg commentID =
     graphql_nil env cfg deleteCommentMutation [(''id'', JStr commentID)]"

section \<open>Threads and files (threads.go, viewed.go)\<close>

definition ResolveThread ::
  "'w env \<Rightarrow> client_cfg \<Rightarrow> string \<Rightarrow> bool \<Rightarrow> ('w, ResolveThread_res) gh" where
  "ResolveThread env cfg threadID resolved =
     bindE (graphql env cfg ''resolveThreadGQL'' (if resolved then resolveThreadMutation else unresolveThreadMutation)
              [(''threadId'', JStr threadID)] resolveThreadGQL_dec False) (\<lambda>out.
       retE \<lparr>rt_Resolved = out\<rparr>)"

definition SetFileViewed ::
  "'w env \<Rightarrow> client_cfg \<Rightarrow> string \<Rightarrow> string \<Rightarrow> int \<Rightarrow> string \<Rightarrow> bool \<Rightarrow> ('w, SetFileViewed_res) gh" where
  "SetFileViewed env cfg owner repo number path viewed =
     bindE (prNodeID env cfg owner repo number) (\<lambda>prID.
       let (mutation, state) =
             (if viewed then (markFileViewedMutation, ''VIEWED'')
              else (unmarkFileViewedMutation, ''UNVIEWED''))
       in bindE (graphql_nil env cfg mutation [(''prId'', JStr prID), (''path'', JStr path)]) (\<lambda>_.
            retE \<lparr>sv_ViewedState = state\<rparr>))"

section \<open>Merging (merge.go)\<close>

definition mergeBlocked :: "string \<Rightarrow> string \<Rightarrow> gerr option" where
  "mergeBlocked mergeable status =
     (if mergeable = ''CONFLICTING''
      then Some (newError CodeConflict ''pull request has merge conflicts'')
      else if status = ''DIRTY''
      then Some (newError CodeConflict ''pull request has merge conflicts'')
      else if status = ''BLOCKED''
      then Some (newError CodeConflict ''merge is blocked by required reviews or checks'')
      else if status = ''BEHIND''
      then Some (newError CodeConflict ''head branch is behind the base; update it before merging'')
      else if status = ''DRAFT''
      then Some (newError CodeConflict ''pull request is still a draft'')
      else None)"

text \<open>\<open>_ = m\<close>: the error of a best-effort call is dropped, its effects stay.\<close>

definition swallow :: "('s, 'e, 'a) sem \<Rightarrow> ('s, 'e, unit) sem" where
  "swallow m s = (Inr (), snd (m s))"

definition MergePR ::
  "'w env \<Rightarrow> client_cfg \<Rightarrow> string \<Rightarrow> string \<Rightarrow> int \<Rightarrow> string \<Rightarrow> bool \<Rightarrow> string \<Rightarrow> string \<Rightarrow>
    ('w, Merge) gh" where
  "MergePR env cfg owner repo number meth deleteBranch subject body =
     bindE (graphql env cfg ''mergeLookupGQL'' mergeLookupQuery (pr_vars owner repo number)
              mergeLookupGQL_dec zero_mergeLookup) (\<lambda>pr.
       if ml_ID pr = [] then failE (newError CodeNotFound ''pull request not found'')
       else if ml_Merged pr then retE \<lparr>mg_Merged = True, mg_SHA = []\<rparr>
       else (case mergeBlocked (ml_Mergeable pr) (ml_MergeStateStatus pr) of
         Some e \<Rightarrow> failE e
       | None \<Rightarrow>
           bindE (graphql env cfg ''mergePRGQL'' mergePRMutation
                    ([(''prId'', JStr (ml_ID pr)), (''method'', JStr meth)] @
                     (if subject = [] then [] else [(''headline'', JStr subject)]) @
                     (if body = [] then [] else [(''body'', JStr body)]))
                    mergePRGQL_dec zero_mergePR) (\<lambda>out.
           bindE (if deleteBranch \<and> mp_Merged out \<and> ml_HeadRefID pr \<noteq> []
                  then swallow (graphql_nil env cfg deleteRefMutation
                                  [(''refId'', JStr (ml_HeadRefID pr))])
                  else retE ()) (\<lambda>_.
             retE \<lparr>mg_Merged = mp_Merged out, mg_SHA = mp_Oid out\<rparr>))))"

section \<open>The lifecycle (state.go)\<close>

definition prStateMutation :: "string \<Rightarrow> string option" where
  "prStateMutation state =
     (if state = ''ready'' then Some readyForReviewMutation
      else if state = ''draft'' then Some convertToDraftMutation
      else if state = ''closed'' then Some closePRMutation
      else if state = ''open'' then Some reopenPRMutation
      else None)"

definition normalisePRState :: "string \<Rightarrow> bool \<Rightarrow> string" where
  "normalisePRState state isDraft =
     (if state = ''CLOSED'' then ''closed''
      else if state = ''MERGED'' then ''merged''
      else if isDraft then ''draft''
      else ''open'')"

definition SetPRState ::
  "'w env \<Rightarrow> client_cfg \<Rightarrow> string \<Rightarrow> string \<Rightarrow> int \<Rightarrow> string \<Rightarrow> ('w, SetPRState_res) gh" where
  "SetPRState env cfg owner repo number state =
     (case prStateMutation state of
        None \<Rightarrow> failE (newError CodeBadRequest ''state must be ready, draft, closed, or open'')
      | Some mutation \<Rightarrow>
          bindE (prNodeID env cfg owner repo number) (\<lambda>prID.
          bindE (graphql env cfg ''setPRStateGQL'' mutation [(''prId'', JStr prID)] setPRStateGQL_dec zero_setPRState)
            (\<lambda>pr. retE \<lparr>ss_State = normalisePRState (st_State pr) (st_IsDraft pr)\<rparr>)))"

section \<open>Errors, calls and state of each write\<close>

lemma errs_in_swallow [errs_intro]: "errs_in C (swallow m)"
  by (simp add: errs_in_def swallow_def)

lemma emits_swallow [emits_intro]: "emits P k m \<Longrightarrow> emits P k (swallow m)"
  by (simp add: emits_def swallow_def)

lemma net_only_swallow [net_only_intro]: "net_only m \<Longrightarrow> net_only (swallow m)"
  by (simp add: net_only_def swallow_def)

lemma mergeBlocked_closed: "mergeBlocked m st = Some e \<Longrightarrow> closed_err e"
  by (auto simp: mergeBlocked_def split: if_splits)

lemma prAndPendingReview_errs [errs_intro]:
  "token_ok cfg \<Longrightarrow> errs_in closed_err (prAndPendingReview env cfg owner repo n)"
  unfolding prAndPendingReview_def by (intro errs_intro) simp_all

lemma StartReview_errs [errs_intro]: "token_ok cfg \<Longrightarrow> errs_in closed_err (StartReview env cfg owner repo n)"
  unfolding StartReview_def by (intro errs_intro) simp_all

lemma SubmitReview_errs [errs_intro]: "token_ok cfg \<Longrightarrow> errs_in closed_err (SubmitReview env cfg i e b)"
  unfolding SubmitReview_def by (intro errs_intro)

lemma DiscardReview_errs [errs_intro]: "token_ok cfg \<Longrightarrow> errs_in closed_err (DiscardReview env cfg i)"
  unfolding DiscardReview_def by (intro errs_intro)

lemma prNodeID_errs [errs_intro]: "token_ok cfg \<Longrightarrow> errs_in closed_err (prNodeID env cfg owner repo n)"
  unfolding prNodeID_def by (intro errs_intro) simp_all

lemma replyToThread_errs [errs_intro]: "token_ok cfg \<Longrightarrow> errs_in closed_err (replyToThread env cfg inp)"
  unfolding replyToThread_def by (intro errs_intro)

lemma draftThread_errs [errs_intro]: "token_ok cfg \<Longrightarrow> errs_in closed_err (draftThread env cfg inp)"
  unfolding draftThread_def by (intro errs_intro) simp_all

lemma postNewThread_errs [errs_intro]:
  "token_ok cfg \<Longrightarrow> errs_in closed_err (postNewThread env cfg owner repo n inp)"
  unfolding postNewThread_def by (intro errs_intro)

lemma PostComment_errs [errs_intro]:
  "token_ok cfg \<Longrightarrow> errs_in closed_err (PostComment env cfg owner repo n inp)"
  unfolding PostComment_def by (intro errs_intro)

lemma PostIssueComment_errs [errs_intro]:
  "token_ok cfg \<Longrightarrow> errs_in closed_err (PostIssueComment env cfg owner repo n b)"
  unfolding PostIssueComment_def by (intro errs_intro)

lemma DeleteComment_errs [errs_intro]: "token_ok cfg \<Longrightarrow> errs_in closed_err (DeleteComment env cfg i)"
  unfolding DeleteComment_def by (intro errs_intro)

lemma ResolveThread_errs [errs_intro]: "token_ok cfg \<Longrightarrow> errs_in closed_err (ResolveThread env cfg i b)"
  unfolding ResolveThread_def by (intro errs_intro)

lemma SetFileViewed_errs [errs_intro]:
  "token_ok cfg \<Longrightarrow> errs_in closed_err (SetFileViewed env cfg owner repo n p v)"
  unfolding SetFileViewed_def by (intro errs_intro)

lemma MergePR_errs [errs_intro]:
  "token_ok cfg \<Longrightarrow> errs_in closed_err (MergePR env cfg owner repo n m d sj b)"
  unfolding MergePR_def by (intro errs_intro) (simp_all add: mergeBlocked_closed)

lemma SetPRState_errs [errs_intro]:
  "token_ok cfg \<Longrightarrow> errs_in closed_err (SetPRState env cfg owner repo n st)"
  unfolding SetPRState_def by (intro errs_intro) simp_all

lemmas write_vars =
  vars_ok_def pr_vars_def range_vars_def Let_def

lemma prAndPendingReview_emits [emits_intro]:
  "startReviewLookupQuery \<in> set docs \<Longrightarrow> emits (sends cfg docs) 1 (prAndPendingReview env cfg owner repo n)"
  unfolding prAndPendingReview_def
  by (rule emits_mono, rule emits_bindE, erule emits_graphql, simp add: write_vars,
      (rule emits_intro)+, simp)

lemma prNodeID_emits [emits_intro]:
  "prNodeIDQuery \<in> set docs \<Longrightarrow> emits (sends cfg docs) 1 (prNodeID env cfg owner repo n)"
  unfolding prNodeID_def
  by (rule emits_mono, rule emits_bindE, erule emits_graphql, simp add: write_vars,
      (rule emits_intro)+, simp)

lemma StartReview_emits:
  "emits (sends cfg [startReviewLookupQuery, addReviewMutation]) 2 (StartReview env cfg owner repo n)"
  unfolding StartReview_def
  by (rule emits_mono, rule emits_bindE, rule prAndPendingReview_emits, simp, rule emits_prod,
      rule emits_if, rule emits_retE, rule emits_bindE, rule emits_graphql, simp,
      simp add: write_vars, (rule emits_intro)+, simp)

lemma SubmitReview_emits:
  "emits (sends cfg [submitReviewMutation]) 1 (SubmitReview env cfg i e b)"
  unfolding SubmitReview_def
  by (rule emits_mono, rule emits_bindE, rule emits_graphql, simp, simp add: write_vars,
      rule emits_retE, simp)

lemma DiscardReview_emits: "emits (sends cfg [deleteReviewMutation]) 1 (DiscardReview env cfg i)"
  unfolding DiscardReview_def by (rule emits_graphql_nil) (simp_all add: write_vars)

lemma draftThread_emits:
  "addThreadMutation \<in> set docs \<Longrightarrow> emits (sends cfg docs) 1 (draftThread env cfg inp)"
  unfolding draftThread_def
  by (rule emits_mono, rule emits_bindE, erule emits_graphql, simp add: write_vars,
      (rule emits_intro)+, simp)

lemma replyToThread_emits:
  "addThreadReplyMutation \<in> set docs \<Longrightarrow> emits (sends cfg docs) 1 (replyToThread env cfg inp)"
  unfolding replyToThread_def
  by (rule emits_mono, rule emits_bindE, erule emits_graphql, simp add: write_vars,
      (rule emits_intro)+, simp)

lemma postNewThread_emits:
  "set [startReviewLookupQuery, addThreadMutation, publishCommentMutation] \<subseteq> set docs \<Longrightarrow>
    emits (sends cfg docs) 2 (postNewThread env cfg owner repo n inp)"
  unfolding postNewThread_def
  by (rule emits_mono, rule emits_bindE, rule prAndPendingReview_emits, simp, rule emits_prod,
      rule emits_if, rule emits_bindE, rule draftThread_emits, simp, rule emits_retE,
      rule emits_Let, rule emits_bindE, rule emits_graphql, simp, simp add: write_vars,
      (rule emits_intro)+, simp)

lemma PostComment_emits:
  "emits (sends cfg [startReviewLookupQuery, addThreadMutation, publishCommentMutation, addThreadReplyMutation])
     2 (PostComment env cfg owner repo n inp)"
  unfolding PostComment_def
  by (rule emits_mono, rule emits_if, rule replyToThread_emits, simp, rule emits_if,
      rule draftThread_emits, simp, rule postNewThread_emits, simp, simp)

lemma PostIssueComment_emits:
  "emits (sends cfg [prNodeIDQuery, addIssueCommentMutation]) 2 (PostIssueComment env cfg owner repo n b)"
  unfolding PostIssueComment_def
  by (rule emits_mono, rule emits_bindE, rule prNodeID_emits, simp, rule emits_bindE,
      rule emits_graphql, simp, simp add: write_vars, (rule emits_intro)+, simp)

lemma DeleteComment_emits: "emits (sends cfg [deleteCommentMutation]) 1 (DeleteComment env cfg i)"
  unfolding DeleteComment_def by (rule emits_graphql_nil) (simp_all add: write_vars)

lemma ResolveThread_emits:
  "emits (sends cfg [resolveThreadMutation, unresolveThreadMutation]) 1 (ResolveThread env cfg i b)"
  unfolding ResolveThread_def
  by (rule emits_mono, rule emits_bindE, rule emits_graphql, simp, simp add: write_vars,
      (rule emits_intro)+, simp)

lemma SetFileViewed_emits:
  "emits (sends cfg [prNodeIDQuery, markFileViewedMutation, unmarkFileViewedMutation]) 2
     (SetFileViewed env cfg owner repo n p v)"
  unfolding SetFileViewed_def
  by (cases v; simp only: if_True if_False Let_def case_prod_conv;
      rule emits_mono, rule emits_bindE, rule prNodeID_emits, simp, rule emits_bindE,
      rule emits_graphql_nil, simp, simp add: write_vars, rule emits_retE, simp)

lemma MergePR_emits:
  "emits (sends cfg [mergeLookupQuery, mergePRMutation, deleteRefMutation]) 3
     (MergePR env cfg owner repo n m d sj b)"
  unfolding MergePR_def
  by (rule emits_mono, rule emits_bindE, rule emits_graphql, simp, simp add: write_vars,
      rule emits_if, rule emits_failE, rule emits_if, rule emits_retE, rule emits_option,
      rule emits_bindE, rule emits_graphql, simp, simp add: write_vars, rule emits_bindE,
      rule emits_if, rule emits_swallow, rule emits_graphql_nil, simp, simp add: write_vars,
      (rule emits_intro)+, simp)

definition state_mutations :: "string list" where
  "state_mutations =
     [readyForReviewMutation, convertToDraftMutation, closePRMutation, reopenPRMutation]"

lemma prStateMutation_doc: "prStateMutation st = Some q \<Longrightarrow> q \<in> set state_mutations"
  by (auto simp: prStateMutation_def state_mutations_def split: if_splits)

lemma prStateMutation_vars: "prStateMutation st = Some q \<Longrightarrow> vars_ok q [(''prId'', v)]"
  by (auto simp: prStateMutation_def vars_ok_def split: if_splits)

lemma SetPRState_emits:
  "emits (sends cfg (prNodeIDQuery # state_mutations)) 2 (SetPRState env cfg owner repo n st)"
proof (cases "prStateMutation st")
  case None
  then show ?thesis by (simp add: SetPRState_def emits_def)
next
  case (Some q)
  show ?thesis
    unfolding SetPRState_def Some option.case
    by (rule emits_mono, rule emits_bindE, rule prNodeID_emits, simp, rule emits_bindE,
        rule emits_graphql, simp add: prStateMutation_doc [OF Some],
        rule prStateMutation_vars [OF Some], rule emits_retE, simp)
qed

section \<open>Properties\<close>

text \<open>C12: What each operation of the client may send.  A read sends only GETs and its one query;
  a write sends only its lookup and its own mutations; every call carries the token, every
  GraphQL call goes to the GraphQL endpoint, gives only variables its document declares and all
  the required ones; no call is made without a token; and the number of calls is bounded.\<close>

theorem calls_of_each_operation:
  "emits (sends cfg []) 101 (ListPRs env cfg owner repo flt) \<and>
   emits (sends cfg [getPRQuery]) 200 (GetPR env cfg owner repo n) \<and>
   emits (sends cfg []) 3 (GetFileVersions env cfg owner repo n path basePath base head) \<and>
   emits (sends cfg []) 1 (HeadSHA env cfg owner repo n) \<and>
   emits (sends cfg [getThreadsQuery]) 100 (GetThreads env cfg owner repo n) \<and>
   emits (sends cfg [getTimelineQuery]) 100 (GetTimeline env cfg owner repo n) \<and>
   emits (sends cfg [getPendingReviewQuery]) 1 (GetPendingReview env cfg owner repo n) \<and>
   emits (sends cfg [getChecksQuery]) 1 (GetChecks env cfg owner repo n) \<and>
   emits (sends cfg [startReviewLookupQuery, addReviewMutation]) 2 (StartReview env cfg owner repo n) \<and>
   emits (sends cfg [submitReviewMutation]) 1 (SubmitReview env cfg i event body) \<and>
   emits (sends cfg [deleteReviewMutation]) 1 (DiscardReview env cfg i) \<and>
   emits (sends cfg [startReviewLookupQuery, addThreadMutation, publishCommentMutation,
     addThreadReplyMutation]) 2 (PostComment env cfg owner repo n inp) \<and>
   emits (sends cfg [prNodeIDQuery, addIssueCommentMutation]) 2
     (PostIssueComment env cfg owner repo n body) \<and>
   emits (sends cfg [deleteCommentMutation]) 1 (DeleteComment env cfg i) \<and>
   emits (sends cfg [resolveThreadMutation, unresolveThreadMutation]) 1 (ResolveThread env cfg i b) \<and>
   emits (sends cfg [prNodeIDQuery, markFileViewedMutation, unmarkFileViewedMutation]) 2
     (SetFileViewed env cfg owner repo n path b) \<and>
   emits (sends cfg [mergeLookupQuery, mergePRMutation, deleteRefMutation]) 3
     (MergePR env cfg owner repo n meth b subject body) \<and>
   emits (sends cfg (prNodeIDQuery # state_mutations)) 2 (SetPRState env cfg owner repo n state)"
  by (intro conjI ListPRs_emits GetPR_emits GetFileVersions_emits HeadSHA_emits GetThreads_emits
      GetTimeline_emits GetPendingReview_emits GetChecks_emits StartReview_emits SubmitReview_emits
      DiscardReview_emits PostComment_emits PostIssueComment_emits DeleteComment_emits
      ResolveThread_emits SetFileViewed_emits MergePR_emits SetPRState_emits)

text \<open>C16: A merge is only fired at a pull request that can take it: when the lookup finds none, or
  finds it merged, conflicting, behind, blocked or a draft, \<open>MergePR\<close> makes no further call, and
  it answers not found, success, or conflict.\<close>

theorem MergePR_guarded:
  assumes "graphql env cfg ''mergeLookupGQL'' mergeLookupQuery (pr_vars owner repo n) mergeLookupGQL_dec
      zero_mergeLookup s = (Inr pr, s1)"
    and "ml_ID pr = [] \<or> ml_Merged pr \<or> ml_Mergeable pr = ''CONFLICTING'' \<or>
      ml_MergeStateStatus pr \<in> {''DIRTY'', ''BLOCKED'', ''BEHIND'', ''DRAFT''}"
  shows "snd (MergePR env cfg owner repo n meth del subject body s) = s1 \<and>
    (case fst (MergePR env cfg owner repo n meth del subject body s) of
       Inr m \<Rightarrow> ml_ID pr \<noteq> [] \<and> ml_Merged pr \<and> mg_Merged m
     | Inl (Coded e) \<Rightarrow> pe_Code e = (if ml_ID pr = [] then CodeNotFound else CodeConflict)
     | Inl (Plain t) \<Rightarrow> False)"
  using assms(2) by (auto simp: MergePR_def bindE_def assms(1) mergeBlocked_def newError_def)

definition merge_page :: "string \<Rightarrow> json" where
  "merge_page status =
     JObj [(''repository'', JObj [(''pullRequest'', JObj
       [(''id'', JStr ''P1''), (''mergeable'', JStr ''MERGEABLE''),
        (''mergeStateStatus'', JStr status)])])]"

lemma merge_page_dec:
  "mergeLookupGQL_dec (merge_page st) zero_mergeLookup =
    Some (zero_mergeLookup\<lparr>ml_ID := ''P1'', ml_Mergeable := ''MERGEABLE'', ml_MergeStateStatus := st\<rparr>)"
  by (simp add: merge_page_def mergeLookupGQL_dec_def dec_eval zero_mergeLookup_def)

lemma merge_page_scripted: "scripted (merge_page ''BEHIND'')"
  by (simp add: merge_page_def scripted_eval)

theorem MergePR_guarded_witness:
  "case fst (MergePR script_env test_cfg ''o'' ''r'' 1 ''SQUASH'' True [] []
       (script [data_body (merge_page ''BEHIND'')])) of
     Inr m \<Rightarrow> False
   | Inl (Coded e) \<Rightarrow> pe_Code e = CodeConflict
   | Inl (Plain t) \<Rightarrow> False"
proof -
  let ?pr = "zero_mergeLookup\<lparr>ml_ID := ''P1'', ml_Mergeable := ''MERGEABLE'', ml_MergeStateStatus := ''BEHIND''\<rparr>"
  have "\<exists>s1. graphql script_env test_cfg ''mergeLookupGQL'' mergeLookupQuery (pr_vars ''o'' ''r'' 1) mergeLookupGQL_dec
      zero_mergeLookup (script [data_body (merge_page ''BEHIND'')]) = (Inr ?pr, s1)"
    by (simp add: script_eq graphql_script_step merge_page_dec merge_page_scripted)
  then obtain s1 where "graphql script_env test_cfg ''mergeLookupGQL'' mergeLookupQuery (pr_vars ''o'' ''r'' 1)
      mergeLookupGQL_dec zero_mergeLookup (script [data_body (merge_page ''BEHIND'')]) = (Inr ?pr, s1)" ..
  from MergePR_guarded [OF this, of "''SQUASH''" True "[]" "[]"] show ?thesis
    by (simp add: zero_mergeLookup_def split: sum.splits gerr.splits)
qed

text \<open>C32: Deleting the branch is best effort: asking for it changes nothing of what \<open>MergePR\<close>
  returns, whatever the deletion does, and adds at most one call, behind those of the merge.\<close>

theorem branch_delete_best_effort:
  "fst (MergePR env cfg owner repo n meth True subject body s) =
     fst (MergePR env cfg owner repo n meth False subject body s) \<and>
   (\<exists>rs. cs_calls (snd (MergePR env cfg owner repo n meth True subject body s)) =
      cs_calls (snd (MergePR env cfg owner repo n meth False subject body s)) @ rs \<and> length rs \<le> 1)"
proof -
  have del: "\<exists>rs. cs_calls (snd (graphql_nil env cfg deleteRefMutation vars s)) = cs_calls s @ rs \<and>
      length rs \<le> 1" if "vars_ok deleteRefMutation vars" for vars s
    using emits_graphql_nil [of deleteRefMutation "[deleteRefMutation]" vars cfg env] that
    unfolding emits_def by auto
  have ok: "vars_ok deleteRefMutation [(''refId'', v)]" for v by (simp add: vars_ok_def)
  show ?thesis
    using del [OF ok]
    by (auto simp: MergePR_def bindE_def swallow_def split: prod.splits sum.splits option.splits)
qed

text \<open>The lifecycle: only the four states are accepted, an unknown one without a call, and what
  comes back is always one of \<open>open\<close>, \<open>draft\<close>, \<open>closed\<close> and \<open>merged\<close>.\<close>

theorem SetPRState_condition:
  "(if state \<in> {''ready'', ''draft'', ''closed'', ''open''}
    then (case fst (SetPRState env cfg owner repo n state s) of
            Inr r \<Rightarrow> ss_State r \<in> {''open'', ''draft'', ''closed'', ''merged''} | Inl e \<Rightarrow> True)
    else SetPRState env cfg owner repo n state s =
      (Inl (newError CodeBadRequest ''state must be ready, draft, closed, or open''), s))"
proof -
  have norm: "normalisePRState st d \<in> {''open'', ''draft'', ''closed'', ''merged''}" for st d
    by (simp add: normalisePRState_def)
  then have "rets_in (\<lambda>r. ss_State r \<in> {''open'', ''draft'', ''closed'', ''merged''})
      (SetPRState env cfg owner repo n state)"
    unfolding SetPRState_def rets_in_def
    by (auto simp: bindE_def split: option.splits prod.splits sum.splits)
  then have ret: "case fst (SetPRState env cfg owner repo n state s) of
      Inr r \<Rightarrow> ss_State r \<in> {''open'', ''draft'', ''closed'', ''merged''} | Inl e \<Rightarrow> True"
    by (cases "SetPRState env cfg owner repo n state s") (auto dest: rets_inD split: sum.split)
  show ?thesis
    using ret by (auto simp: SetPRState_def prStateMutation_def)
qed

end
