(* ===== verification/Client_Go.thy ===== *)
theory Client_Go
  imports Goroutine Mutations
begin

text \<open>
  The client's methods as goroutines run them: the same code as in \<open>Transport\<close>, \<open>Reads\<close> and
  \<open>Mutations\<close>, as programs whose atomic actions are one HTTP call, one look at or store of the viewer
  under its lock, and one operation of the blob cache under its lock.  Run alone, each does what its
  namesake there does; run among others, it keeps the client's invariant, ends in an error of the
  closed set or a value, and does so within a bounded number of actions.
\<close>

type_synonym ('w, 'a) gh_go = "('w client_st, gerr, 'a) proc"

section \<open>Calls (rest.go, graphql.go)\<close>

definition with_token_go :: "client_cfg \<Rightarrow> ('w, 'a) gh_go \<Rightarrow> ('w, 'a) gh_go" where
  "with_token_go cfg m = (case cf_tokenErr cfg of Some e \<Rightarrow> failP e | None \<Rightarrow> m)"

definition NewRequest_go ::
  "'w env \<Rightarrow> string \<Rightarrow> string \<Rightarrow> (string \<times> string) list \<Rightarrow> string \<Rightarrow> ('w, http_request) gh_go" where
  "NewRequest_go env meth url header body =
     (case url_err env url of
        Some e \<Rightarrow> failP (newError CodeInternal e)
      | None \<Rightarrow> retP \<lparr>hq_Method = meth, hq_URL = url, hq_Header = header, hq_Body = body\<rparr>)"

definition or_decode_err_go :: "'w env \<Rightarrow> string \<Rightarrow> string \<Rightarrow> string \<Rightarrow> 'a option \<Rightarrow> ('w, 'a) gh_go" where
  "or_decode_err_go env ty what body r =
     (case r of None \<Rightarrow> failP (decode_err env ty what body) | Some x \<Rightarrow> retP x)"

definition call_go :: "'w env \<Rightarrow> http_request \<Rightarrow> ('w, http_response \<times> string) gh_go" where
  "call_go env req = atomP (call env req)"

definition getJSON_go :: "'w env \<Rightarrow> client_cfg \<Rightarrow> string \<Rightarrow> string \<Rightarrow> 'a upd \<Rightarrow> 'a \<Rightarrow> ('w, 'a) gh_go" where
  "getJSON_go env cfg ty rawURL d zero =
     with_token_go cfg
       (bindP (NewRequest_go env ''GET'' rawURL (RESTHeaders cfg) []) (\<lambda>req.
        bindP (call_go env req) (\<lambda>(resp, body).
        or_decode_err_go env ty ''decoding response: '' body (unmarshal body d zero))))"

fun getPaged_from_go ::
  "nat \<Rightarrow> 'w env \<Rightarrow> client_cfg \<Rightarrow> string \<Rightarrow> 'a upd \<Rightarrow> 'a \<Rightarrow> string \<Rightarrow> 'a list \<Rightarrow> ('w, 'a list) gh_go" where
  "getPaged_from_go 0 env cfg ty d zero rawURL all = retP all"
| "getPaged_from_go (Suc n) env cfg ty d zero rawURL all =
     (if rawURL = [] then retP all
      else
        bindP (NewRequest_go env ''GET'' rawURL (RESTHeaders cfg) []) (\<lambda>req.
        bindP (call_go env req) (\<lambda>(resp, body).
        bindP (or_decode_err_go env ty ''decoding response: '' body (unmarshal body (dec_slice d zero) []))
          (\<lambda>items.
             getPaged_from_go n env cfg ty d zero (nextLink (header_get resp ''Link'')) (all @ items)))))"

definition getPaged_go :: "'w env \<Rightarrow> client_cfg \<Rightarrow> string \<Rightarrow> 'a upd \<Rightarrow> 'a \<Rightarrow> string \<Rightarrow> ('w, 'a list) gh_go" where
  "getPaged_go env cfg ty d zero rawURL = with_token_go cfg (getPaged_from_go maxPages env cfg ty d zero rawURL [])"

definition graphql_data_go ::
  "'w env \<Rightarrow> client_cfg \<Rightarrow> string \<Rightarrow> (string \<times> json) list \<Rightarrow> ('w, string \<times> json option) gh_go" where
  "graphql_data_go env cfg q vars =
     with_token_go cfg
       (bindP (NewRequest_go env ''POST'' (cf_gqlURL cfg) (GQLHeaders cfg) (payload q vars)) (\<lambda>req.
        bindP (call_go env req) (\<lambda>(resp, body).
        bindP (or_decode_err_go env ''envelope'' ''decoding graphql response: '' body
                 (unmarshal body envelope_dec zero_envelope)) (\<lambda>envl.
        case mapGraphQL (ev_Errors envl) of
          Some perr \<Rightarrow> failP (Coded perr)
        | None \<Rightarrow> retP (body, ev_Data envl)))))"

definition graphql_go ::
  "'w env \<Rightarrow> client_cfg \<Rightarrow> string \<Rightarrow> string \<Rightarrow> (string \<times> json) list \<Rightarrow> 'a upd \<Rightarrow> 'a \<Rightarrow> ('w, 'a) gh_go" where
  "graphql_go env cfg ty q vars d zero =
     bindP (graphql_data_go env cfg q vars) (\<lambda>(body, data).
       or_decode_err_go env ty ''decoding graphql data: '' body
         (case data of None \<Rightarrow> None | Some v \<Rightarrow> d v zero))"

definition graphql_nil_go ::
  "'w env \<Rightarrow> client_cfg \<Rightarrow> string \<Rightarrow> (string \<times> json) list \<Rightarrow> ('w, unit) gh_go" where
  "graphql_nil_go env cfg q vars = bindP (graphql_data_go env cfg q vars) (\<lambda>_. retP ())"

fun cursor_walk_go ::
  "nat \<Rightarrow> (string \<Rightarrow> ('w, 'p) gh_go) \<Rightarrow> ('p \<Rightarrow> pageInfoGQL) \<Rightarrow> (string \<Rightarrow> 'p \<Rightarrow> 'acc \<Rightarrow> 'acc) \<Rightarrow>
    string \<Rightarrow> 'acc \<Rightarrow> ('w, 'acc) gh_go" where
  "cursor_walk_go 0 fetch info collect cursor acc = retP acc"
| "cursor_walk_go (Suc n) fetch info collect cursor acc =
     bindP (fetch cursor) (\<lambda>page.
       let acc' = collect cursor page acc
       in case nextCursor cursor (info page) of
            (next', goes_on) \<Rightarrow>
              if \<not> goes_on then retP acc'
              else cursor_walk_go n fetch info collect next' acc')"

section \<open>Reads (prs.go, files.go, threads.go, timeline.go, checks.go)\<close>

definition viewerLogin_go :: "'w env \<Rightarrow> client_cfg \<Rightarrow> ('w, string) gh_go" where
  "viewerLogin_go env cfg = readP (\<lambda>s.
     if cs_viewer s \<noteq> [] then retP (cs_viewer s)
     else
       bindP (getJSON_go env cfg ''userDTO'' (cf_restURL cfg @ ''/user'') userDTO_dec zero_user) (\<lambda>u.
         if us_Login u = []
         then failP (newError CodeAuth ''could not resolve the authenticated user'')
         else atomP (\<lambda>s. (Inr (us_Login u), s\<lparr>cs_viewer := us_Login u\<rparr>))))"

definition ListPRs_go ::
  "'w env \<Rightarrow> client_cfg \<Rightarrow> string \<Rightarrow> string \<Rightarrow> string \<Rightarrow> ('w, PR list) gh_go" where
  "ListPRs_go env cfg owner repo filter0 =
     (let flt = (if filter0 = [] then ''open'' else filter0) in
      if flt \<noteq> ''open'' \<and> flt \<noteq> ''mine'' \<and> flt \<noteq> ''review_requested''
      then failP (newError CodeBadRequest (''unknown filter: '' @ flt))
      else
        bindP (getPaged_go env cfg ''pullDTO'' pullDTO_dec zero_pull (pulls_url cfg owner repo)) (\<lambda>pulls.
        bindP (if flt \<noteq> ''open'' then viewerLogin_go env cfg else retP []) (\<lambda>viewer.
        retP (map pull_PR (filter (listed flt viewer) pulls)))))"

definition GetPR_go ::
  "'w env \<Rightarrow> client_cfg \<Rightarrow> string \<Rightarrow> string \<Rightarrow> int \<Rightarrow> ('w, PRDetail) gh_go" where
  "GetPR_go env cfg owner repo number =
     bindP (cursor_walk_go gqlMaxPages
              (\<lambda>cursor. graphql_go env cfg ''prDetailGQL'' getPRQuery (page_vars owner repo number cursor)
                 prDetailGQL_dec zero_prDetail)
              (\<lambda>page. cn_PageInfo (gd_Files page)) collect_pr [] (Map.empty, zero_prDetail))
       (\<lambda>(viewed, meta).
     bindP (getPaged_go env cfg ''fileDTO'' fileDTO_dec zero_file
              (pull_url cfg owner repo number @ ''/files?per_page=100''))
       (\<lambda>restFiles.
     retP (pr_detail meta (map (file_PRFile viewed) restFiles))))"

definition prRefs_go ::
  "'w env \<Rightarrow> client_cfg \<Rightarrow> string \<Rightarrow> string \<Rightarrow> int \<Rightarrow> ('w, string \<times> string) gh_go" where
  "prRefs_go env cfg owner repo number =
     bindP (getJSON_go env cfg ''prRefsDTO'' (pull_url cfg owner repo number) prRefsDTO_dec zero_refs) (\<lambda>p.
       retP (rf_Base p, rf_Head p))"

definition HeadSHA_go ::
  "'w env \<Rightarrow> client_cfg \<Rightarrow> string \<Rightarrow> string \<Rightarrow> int \<Rightarrow> ('w, string) gh_go" where
  "HeadSHA_go env cfg owner repo number =
     bindP (prRefs_go env cfg owner repo number) (\<lambda>(base, head). retP head)"

text \<open>
  The two fetches are goroutines of their own: each action of the method is one action of either,
  as the schedule says, and other methods may come between any two.
\<close>

fun run_tasks_go ::
  "nat \<Rightarrow> bool list \<Rightarrow> 'w env \<Rightarrow> client_cfg \<Rightarrow> blob_ref \<Rightarrow> blob_ref \<Rightarrow> task \<Rightarrow> task \<Rightarrow>
    ('w client_st, task \<times> task) prog" where
  "run_tasks_go 0 sched env cfg b h tb th = Ret (tb, th)"
| "run_tasks_go (Suc n) sched env cfg b h tb th =
     (let first = (case sched of [] \<Rightarrow> True | x # xs \<Rightarrow> x); rest = tl sched in
      if is_finished tb \<and> is_finished th then Ret (tb, th)
      else if is_finished th \<or> (first \<and> \<not> is_finished tb) then
        Act (\<lambda>s. snd (task_step env cfg b tb s))
          (\<lambda>s. run_tasks_go n rest env cfg b h (fst (task_step env cfg b tb s)) th)
      else
        Act (\<lambda>s. snd (task_step env cfg h th s))
          (\<lambda>s. run_tasks_go n rest env cfg b h tb (fst (task_step env cfg h th s))))"

fun join_tasks :: "task \<times> task \<Rightarrow> gerr + FileVersions" where
  "join_tasks (Finished (Inl e), th) = Inl e"
| "join_tasks (Finished (Inr base), Finished (Inl e)) = Inl e"
| "join_tasks (Finished (Inr base), Finished (Inr head)) =
     Inr \<lparr>fv_Base = base, fv_Head = head, fv_Truncated = False\<rparr>"
| "join_tasks (tb, th) = Inl (Plain [])"

definition both_blobs_go ::
  "bool list \<Rightarrow> 'w env \<Rightarrow> client_cfg \<Rightarrow> blob_ref \<Rightarrow> blob_ref \<Rightarrow> ('w, FileVersions) gh_go" where
  "both_blobs_go sched env cfg b h = mapP join_tasks (run_tasks_go 6 sched env cfg b h Lookup Lookup)"

definition GetFileVersions_go ::
  "'w env \<Rightarrow> client_cfg \<Rightarrow> string \<Rightarrow> string \<Rightarrow> int \<Rightarrow> string \<Rightarrow> string \<Rightarrow> string \<Rightarrow> string \<Rightarrow>
    ('w, FileVersions) gh_go" where
  "GetFileVersions_go env cfg owner repo number path basePath0 base0 head0 =
     (let basePath = (if basePath0 = [] then path else basePath0) in
      bindP (if base0 = [] \<or> head0 = [] then prRefs_go env cfg owner repo number
             else retP (base0, head0)) (\<lambda>(base, head).
      readP (\<lambda>s. both_blobs_go (go_sched env (cs_net s)) env cfg
         \<lparr>br_owner = owner, br_repo = repo, br_path = basePath, br_ref = base\<rparr>
         \<lparr>br_owner = owner, br_repo = repo, br_path = path, br_ref = head\<rparr>)))"

definition GetThreads_go ::
  "'w env \<Rightarrow> client_cfg \<Rightarrow> string \<Rightarrow> string \<Rightarrow> int \<Rightarrow> ('w, Thread list) gh_go" where
  "GetThreads_go env cfg owner repo number =
     cursor_walk_go gqlMaxPages
       (\<lambda>cursor. graphql_go env cfg ''threadsGQL'' getThreadsQuery (page_vars owner repo number cursor)
          threadsGQL_dec zero_connection)
       cn_PageInfo collect_threads [] []"

definition GetPendingReview_go ::
  "'w env \<Rightarrow> client_cfg \<Rightarrow> string \<Rightarrow> string \<Rightarrow> int \<Rightarrow> ('w, PendingReview) gh_go" where
  "GetPendingReview_go env cfg owner repo number =
     bindP (graphql_go env cfg ''pendingReviewGQL'' getPendingReviewQuery (pr_vars owner repo number)
              pendingReviewGQL_dec []) (\<lambda>nodes.
       case nodes of
         [] \<Rightarrow> retP \<lparr>pv_ReviewID = None, pv_Comments = []\<rparr>
       | r # _ \<Rightarrow>
           retP \<lparr>pv_ReviewID = Some (pn_ID r), pv_Comments = map pending_comment (pn_Comments r)\<rparr>)"

definition GetTimeline_go ::
  "'w env \<Rightarrow> client_cfg \<Rightarrow> string \<Rightarrow> string \<Rightarrow> int \<Rightarrow> ('w, Timeline) gh_go" where
  "GetTimeline_go env cfg owner repo number =
     cursor_walk_go gqlMaxPages
       (\<lambda>cursor. graphql_go env cfg ''timelineGQL'' getTimelineQuery (page_vars owner repo number cursor)
          timelineGQL_dec zero_timeline)
       (\<lambda>page. cn_PageInfo (tg_Comments page)) collect_timeline []
       \<lparr>tl_Comments = [], tl_Reviews = []\<rparr>"

definition GetChecks_go ::
  "'w env \<Rightarrow> client_cfg \<Rightarrow> string \<Rightarrow> string \<Rightarrow> int \<Rightarrow> ('w, Checks) gh_go" where
  "GetChecks_go env cfg owner repo number =
     bindP (graphql_go env cfg ''checksGQL'' getChecksQuery (pr_vars owner repo number) checksGQL_dec [])
       (\<lambda>commits. retP (checks_of commits))"

section \<open>Writes (reviews.go, comments.go, threads.go, viewed.go, merge.go, state.go)\<close>

definition prAndPendingReview_go ::
  "'w env \<Rightarrow> client_cfg \<Rightarrow> string \<Rightarrow> string \<Rightarrow> int \<Rightarrow> ('w, string \<times> string) gh_go" where
  "prAndPendingReview_go env cfg owner repo number =
     bindP (graphql_go env cfg ''startReviewLookupGQL'' startReviewLookupQuery (pr_vars owner repo number)
              startReviewLookupGQL_dec zero_startReviewLookup) (\<lambda>look.
       if sl_ID look = [] then failP (newError CodeNotFound ''pull request not found'')
       else retP (sl_ID look, case sl_Reviews look of [] \<Rightarrow> [] | r # _ \<Rightarrow> r))"

definition StartReview_go ::
  "'w env \<Rightarrow> client_cfg \<Rightarrow> string \<Rightarrow> string \<Rightarrow> int \<Rightarrow> ('w, StartReview_res) gh_go" where
  "StartReview_go env cfg owner repo number =
     bindP (prAndPendingReview_go env cfg owner repo number) (\<lambda>(prID, pendingID).
       if pendingID \<noteq> [] then retP \<lparr>sr_ReviewID = pendingID\<rparr>
       else
         bindP (graphql_go env cfg ''addReviewGQL'' addReviewMutation [(''prId'', JStr prID)] addReviewGQL_dec [])
           (\<lambda>id.
              if id = [] then failP (newError CodeInternal ''github returned no review id'')
              else retP \<lparr>sr_ReviewID = id\<rparr>))"

definition SubmitReview_go ::
  "'w env \<Rightarrow> client_cfg \<Rightarrow> string \<Rightarrow> string \<Rightarrow> string \<Rightarrow> ('w, SubmitReview_res) gh_go" where
  "SubmitReview_go env cfg reviewID event body =
     bindP (graphql_go env cfg ''submitReviewGQL'' submitReviewMutation
              [(''reviewId'', JStr reviewID), (''event'', JStr event), (''body'', JStr body)]
              submitReviewGQL_dec []) (\<lambda>out.
       retP \<lparr>su_ID = parseID out\<rparr>)"

definition DiscardReview_go :: "'w env \<Rightarrow> client_cfg \<Rightarrow> string \<Rightarrow> ('w, unit) gh_go" where
  "DiscardReview_go env cfg reviewID =
     graphql_nil_go env cfg deleteReviewMutation [(''reviewId'', JStr reviewID)]"

definition prNodeID_go ::
  "'w env \<Rightarrow> client_cfg \<Rightarrow> string \<Rightarrow> string \<Rightarrow> int \<Rightarrow> ('w, string) gh_go" where
  "prNodeID_go env cfg owner repo number =
     bindP (graphql_go env cfg ''prNodeIDGQL'' prNodeIDQuery (pr_vars owner repo number) prNodeIDGQL_dec []) (\<lambda>id.
       if id \<noteq> [] then retP id
       else failP (newError CodeNotFound ''pull request not found''))"

definition replyToThread_go ::
  "'w env \<Rightarrow> client_cfg \<Rightarrow> PostCommentInput \<Rightarrow> ('w, PostComment_res) gh_go" where
  "replyToThread_go env cfg inp =
     bindP (graphql_go env cfg ''addReplyGQL'' addThreadReplyMutation
              ([(''threadId'', JStr (in_InReplyTo inp)), (''body'', JStr (in_Body inp))] @
               (if in_ReviewID inp = [] then [] else [(''reviewId'', JStr (in_ReviewID inp))]))
              addReplyGQL_dec []) (\<lambda>out.
       retP \<lparr>po_ID = parseID out, po_ThreadID = in_InReplyTo inp, po_ReviewID = []\<rparr>)"

definition draftThread_go ::
  "'w env \<Rightarrow> client_cfg \<Rightarrow> PostCommentInput \<Rightarrow> ('w, PostComment_res) gh_go" where
  "draftThread_go env cfg inp =
     bindP (graphql_go env cfg ''addThreadGQL'' addThreadMutation
              ([(''path'', JStr (in_Path inp)), (''body'', JStr (in_Body inp)),
                (''line'', json_int (in_Line inp)), (''side'', JStr (in_Side inp)),
                (''reviewId'', JStr (in_ReviewID inp))] @ range_vars inp)
              addThreadGQL_dec zero_addThread) (\<lambda>thread.
       if at_ID thread = [] then
         failP (newError CodeBadRequest
           ''line could not be resolved: the comment must anchor to a line in the diff'')
       else
         retP \<lparr>po_ID = (case at_Comments thread of [] \<Rightarrow> 0 | c # _ \<Rightarrow> parseID c),
               po_ThreadID = at_ID thread, po_ReviewID = []\<rparr>)"

definition postNewThread_go ::
  "'w env \<Rightarrow> client_cfg \<Rightarrow> string \<Rightarrow> string \<Rightarrow> int \<Rightarrow> PostCommentInput \<Rightarrow> ('w, PostComment_res) gh_go" where
  "postNewThread_go env cfg owner repo number inp =
     bindP (prAndPendingReview_go env cfg owner repo number) (\<lambda>(prID, pendingID).
       if pendingID \<noteq> [] then
         bindP (draftThread_go env cfg (inp\<lparr>in_ReviewID := pendingID\<rparr>)) (\<lambda>pc.
           retP (pc\<lparr>po_ReviewID := pendingID\<rparr>))
       else
         (let thread = json_map
                ([(''path'', JStr (in_Path inp)), (''line'', json_int (in_Line inp)),
                  (''side'', JStr (in_Side inp)), (''body'', JStr (in_Body inp))] @ range_vars inp)
          in bindP (graphql_go env cfg ''publishCommentGQL'' publishCommentMutation
                      [(''prId'', JStr prID), (''threads'', JArr [thread])]
                      publishCommentGQL_dec []) (\<lambda>nodes.
               retP \<lparr>po_ID = (case nodes of [] \<Rightarrow> 0 | n # _ \<Rightarrow> parseID n),
                     po_ThreadID = [], po_ReviewID = []\<rparr>)))"

definition PostComment_go ::
  "'w env \<Rightarrow> client_cfg \<Rightarrow> string \<Rightarrow> string \<Rightarrow> int \<Rightarrow> PostCommentInput \<Rightarrow> ('w, PostComment_res) gh_go" where
  "PostComment_go env cfg owner repo number inp =
     (if in_InReplyTo inp \<noteq> [] then replyToThread_go env cfg inp
      else if in_ReviewID inp \<noteq> [] then draftThread_go env cfg inp
      else postNewThread_go env cfg owner repo number inp)"

definition PostIssueComment_go ::
  "'w env \<Rightarrow> client_cfg \<Rightarrow> string \<Rightarrow> string \<Rightarrow> int \<Rightarrow> string \<Rightarrow> ('w, PostIssueComment_res) gh_go" where
  "PostIssueComment_go env cfg owner repo number body =
     bindP (prNodeID_go env cfg owner repo number) (\<lambda>prID.
     bindP (graphql_go env cfg ''addIssueCommentGQL'' addIssueCommentMutation
              [(''subjectId'', JStr prID), (''body'', JStr body)] addIssueCommentGQL_dec []) (\<lambda>out.
       retP \<lparr>pi_ID = parseID out\<rparr>))"

definition DeleteComment_go :: "'w env \<Rightarrow> client_cfg \<Rightarrow> string \<Rightarrow> ('w, unit) gh_go" where
  "DeleteComment_go env cfg commentID =
     graphql_nil_go env cfg deleteCommentMutation [(''id'', JStr commentID)]"

definition ResolveThread_go ::
  "'w env \<Rightarrow> client_cfg \<Rightarrow> string \<Rightarrow> bool \<Rightarrow> ('w, ResolveThread_res) gh_go" where
  "ResolveThread_go env cfg threadID resolved =
     bindP (graphql_go env cfg ''resolveThreadGQL'' (if resolved then resolveThreadMutation else unresolveThreadMutation)
              [(''threadId'', JStr threadID)] resolveThreadGQL_dec False) (\<lambda>out.
       retP \<lparr>rt_Resolved = out\<rparr>)"

definition SetFileViewed_go ::
  "'w env \<Rightarrow> client_cfg \<Rightarrow> string \<Rightarrow> string \<Rightarrow> int \<Rightarrow> string \<Rightarrow> bool \<Rightarrow> ('w, SetFileViewed_res) gh_go" where
  "SetFileViewed_go env cfg owner repo number path viewed =
     bindP (prNodeID_go env cfg owner repo number) (\<lambda>prID.
       let (mutation, state) =
             (if viewed then (markFileViewedMutation, ''VIEWED'')
              else (unmarkFileViewedMutation, ''UNVIEWED''))
       in bindP (graphql_nil_go env cfg mutation [(''prId'', JStr prID), (''path'', JStr path)]) (\<lambda>_.
            retP \<lparr>sv_ViewedState = state\<rparr>))"

definition swallow_go :: "('s, 'e, 'a) proc \<Rightarrow> ('s, 'e, unit) proc" where
  "swallow_go m = mapP (\<lambda>r. Inr ()) m"

definition MergePR_go ::
  "'w env \<Rightarrow> client_cfg \<Rightarrow> string \<Rightarrow> string \<Rightarrow> int \<Rightarrow> string \<Rightarrow> bool \<Rightarrow> string \<Rightarrow> string \<Rightarrow>
    ('w, Merge) gh_go" where
  "MergePR_go env cfg owner repo number meth deleteBranch subject body =
     bindP (graphql_go env cfg ''mergeLookupGQL'' mergeLookupQuery (pr_vars owner repo number)
              mergeLookupGQL_dec zero_mergeLookup) (\<lambda>pr.
       if ml_ID pr = [] then failP (newError CodeNotFound ''pull request not found'')
       else if ml_Merged pr then retP \<lparr>mg_Merged = True, mg_SHA = []\<rparr>
       else (case mergeBlocked (ml_Mergeable pr) (ml_MergeStateStatus pr) of
         Some e \<Rightarrow> failP e
       | None \<Rightarrow>
           bindP (graphql_go env cfg ''mergePRGQL'' mergePRMutation
                    ([(''prId'', JStr (ml_ID pr)), (''method'', JStr meth)] @
                     (if subject = [] then [] else [(''headline'', JStr subject)]) @
                     (if body = [] then [] else [(''body'', JStr body)]))
                    mergePRGQL_dec zero_mergePR) (\<lambda>out.
           bindP (if deleteBranch \<and> mp_Merged out \<and> ml_HeadRefID pr \<noteq> []
                  then swallow_go (graphql_nil_go env cfg deleteRefMutation
                                  [(''refId'', JStr (ml_HeadRefID pr))])
                  else retP ()) (\<lambda>_.
             retP \<lparr>mg_Merged = mp_Merged out, mg_SHA = mp_Oid out\<rparr>))))"

definition SetPRState_go ::
  "'w env \<Rightarrow> client_cfg \<Rightarrow> string \<Rightarrow> string \<Rightarrow> int \<Rightarrow> string \<Rightarrow> ('w, SetPRState_res) gh_go" where
  "SetPRState_go env cfg owner repo number state =
     (case prStateMutation state of
        None \<Rightarrow> failP (newError CodeBadRequest ''state must be ready, draft, closed, or open'')
      | Some mutation \<Rightarrow>
          bindP (prNodeID_go env cfg owner repo number) (\<lambda>prID.
          bindP (graphql_go env cfg ''setPRStateGQL'' mutation [(''prId'', JStr prID)] setPRStateGQL_dec zero_setPRState)
            (\<lambda>pr. retP \<lparr>ss_State = normalisePRState (st_State pr) (st_IsDraft pr)\<rparr>)))"

section \<open>Run alone\<close>

lemma alone_calls [exec_simps]:
  "exec (with_token_go cfg m) = with_token cfg (exec m)"
  "exec (NewRequest_go env meth url header body) = NewRequest env meth url header body"
  "exec (or_decode_err_go env ty what body r) = or_decode_err env ty what body r"
  "exec (call_go env req) = call env req"
  by (simp_all only: with_token_go_def with_token_def NewRequest_go_def NewRequest_def or_decode_err_go_def
      or_decode_err_def call_go_def exec_simps)

lemma alone_getJSON [exec_simps]: "exec (getJSON_go env cfg ty url d z) = getJSON env cfg ty url d z"
  by (simp only: getJSON_go_def getJSON_def exec_simps)

lemma alone_getPaged_from:
  "exec (getPaged_from_go n env cfg ty d z url xs) = getPaged_from n env cfg ty d z url xs"
  by (induction n arbitrary: url xs) (simp_all only: getPaged_from_go.simps getPaged_from.simps exec_simps)

lemma alone_getPaged [exec_simps]: "exec (getPaged_go env cfg ty d z url) = getPaged env cfg ty d z url"
  by (simp only: getPaged_go_def getPaged_def alone_getPaged_from exec_simps)

lemma alone_graphql [exec_simps]:
  "exec (graphql_data_go env cfg q vs) = graphql_data env cfg q vs"
  "exec (graphql_go env cfg ty q vs d z) = graphql env cfg ty q vs d z"
  "exec (graphql_nil_go env cfg q vs) = graphql_nil env cfg q vs"
proof -
  show "exec (graphql_data_go env cfg q vs) = graphql_data env cfg q vs"
    by (simp only: graphql_data_go_def graphql_data_def exec_simps)
  then show "exec (graphql_go env cfg ty q vs d z) = graphql env cfg ty q vs d z"
    "exec (graphql_nil_go env cfg q vs) = graphql_nil env cfg q vs"
    by (simp_all only: graphql_go_def graphql_def graphql_nil_go_def graphql_nil_def exec_simps)
qed

lemma alone_cursor_walk [exec_simps]:
  "exec (cursor_walk_go n fetch info collect c acc) = cursor_walk n (\<lambda>c. exec (fetch c)) info collect c acc"
  by (induction n arbitrary: c acc) (simp_all only: cursor_walk_go.simps cursor_walk.simps exec_simps)

lemma alone_swallow [exec_simps]: "exec (swallow_go m) = swallow (exec m)"
  by (simp add: fun_eq_iff swallow_go_def swallow_def exec_mapP split: prod.split)

lemma alone_viewerLogin [exec_simps]: "exec (viewerLogin_go env cfg) = viewerLogin env cfg"
  by (simp add: fun_eq_iff viewerLogin_go_def viewerLogin_def exec_readP exec_simps cong: if_cong)

lemma alone_run_tasks:
  "exec (run_tasks_go n sched env cfg b h tb th) s = run_tasks n sched env cfg b h tb th s"
  by (induction n arbitrary: sched tb th s) (simp_all add: Let_def split: prod.split)

lemma alone_both_blobs [exec_simps]: "exec (both_blobs_go sched env cfg b h) = both_blobs sched env cfg b h"
  by (auto simp: fun_eq_iff both_blobs_go_def both_blobs_def exec_mapP alone_run_tasks
      split: prod.split task.split sum.split)

lemmas client_go_defs =
  ListPRs_go_def GetPR_go_def prRefs_go_def HeadSHA_go_def GetThreads_go_def GetPendingReview_go_def
  GetTimeline_go_def GetChecks_go_def prAndPendingReview_go_def StartReview_go_def SubmitReview_go_def
  DiscardReview_go_def prNodeID_go_def replyToThread_go_def draftThread_go_def postNewThread_go_def
  PostComment_go_def PostIssueComment_go_def DeleteComment_go_def ResolveThread_go_def
  SetFileViewed_go_def MergePR_go_def SetPRState_go_def

lemmas client_defs =
  ListPRs_def GetPR_def prRefs_def HeadSHA_def GetThreads_def GetPendingReview_def GetTimeline_def
  GetChecks_def prAndPendingReview_def StartReview_def SubmitReview_def DiscardReview_def prNodeID_def
  replyToThread_def draftThread_def postNewThread_def PostComment_def PostIssueComment_def
  DeleteComment_def ResolveThread_def SetFileViewed_def MergePR_def SetPRState_def

lemma alone_GetFileVersions [exec_simps]:
  "exec (GetFileVersions_go env cfg owner repo n p bp b h) = GetFileVersions env cfg owner repo n p bp b h"
proof -
  have "exec (readP (\<lambda>s. both_blobs_go (f s) env cfg x y)) = (\<lambda>s. both_blobs (f s) env cfg x y s)" for f x y
    by (simp add: fun_eq_iff exec_readP exec_simps)
  then show ?thesis
    by (simp only: GetFileVersions_go_def GetFileVersions_def prRefs_go_def prRefs_def exec_simps)
qed

lemma alone_client:
  "exec (ListPRs_go env cfg owner repo f) = ListPRs env cfg owner repo f"
  "exec (GetPR_go env cfg owner repo n) = GetPR env cfg owner repo n"
  "exec (HeadSHA_go env cfg owner repo n) = HeadSHA env cfg owner repo n"
  "exec (GetThreads_go env cfg owner repo n) = GetThreads env cfg owner repo n"
  "exec (GetTimeline_go env cfg owner repo n) = GetTimeline env cfg owner repo n"
  "exec (GetPendingReview_go env cfg owner repo n) = GetPendingReview env cfg owner repo n"
  "exec (GetChecks_go env cfg owner repo n) = GetChecks env cfg owner repo n"
  "exec (StartReview_go env cfg owner repo n) = StartReview env cfg owner repo n"
  "exec (SubmitReview_go env cfg i ev b) = SubmitReview env cfg i ev b"
  "exec (DiscardReview_go env cfg i) = DiscardReview env cfg i"
  "exec (PostComment_go env cfg owner repo n inp) = PostComment env cfg owner repo n inp"
  "exec (PostIssueComment_go env cfg owner repo n b) = PostIssueComment env cfg owner repo n b"
  "exec (DeleteComment_go env cfg i) = DeleteComment env cfg i"
  "exec (ResolveThread_go env cfg i v) = ResolveThread env cfg i v"
  "exec (SetFileViewed_go env cfg owner repo n p v) = SetFileViewed env cfg owner repo n p v"
  "exec (MergePR_go env cfg owner repo n m v sj b) = MergePR env cfg owner repo n m v sj b"
  "exec (SetPRState_go env cfg owner repo n st) = SetPRState env cfg owner repo n st"
  by (simp_all only: client_go_defs client_defs exec_simps)

end
