(* ===== verification/Auth.thy ===== *)
theory Auth
  imports Transport
begin

text \<open>
  \<open>internal/github/auth.go\<close>: finding a token at startup, and what the handshake reports of it.
  The environment variables and the \<open>gh\<close> program are outside the code: a record says what each
  answers.
\<close>

text \<open>\<open>gh auth token\<close> under its timeout: its output, or a failure that is or is not the deadline's.\<close>

datatype gh_run = GhOutput string | GhFailed bool

record auth_env =
  ae_getenv :: "string \<Rightarrow> string"
  ae_look_gh :: "string option"
  ae_gh_token :: "string \<Rightarrow> gh_run"

definition env_vars :: "string list" where
  "env_vars = [''GH_TOKEN'', ''GITHUB_TOKEN'']"

text \<open>The first variable that is set to more than white space.\<close>

fun env_token :: "auth_env \<Rightarrow> string list \<Rightarrow> string option" where
  "env_token ae [] = None"
| "env_token ae (v # vs) =
     (let t = trim_space (ae_getenv ae v) in if t \<noteq> [] then Some t else env_token ae vs)"

definition ResolveToken :: "auth_env \<Rightarrow> gerr + string" where
  "ResolveToken ae =
     (case env_token ae env_vars of
        Some t \<Rightarrow> Inr t
      | None \<Rightarrow>
          (case ae_look_gh ae of
             None \<Rightarrow>
               Inl (newError CodeGHMissing
                 ''no token in GH_TOKEN/GITHUB_TOKEN and the gh CLI is not installed'')
           | Some gh \<Rightarrow>
               (case ae_gh_token ae gh of
                  GhFailed deadline \<Rightarrow>
                    if deadline then
                      Inl (newError CodeAuth
                        (''`gh auth token` did not answer in time; is your keyring unlocked?''))
                    else
                      Inl (newError CodeAuth
                        (''gh is installed but not authenticated; run `gh auth login`''))
                | GhOutput out \<Rightarrow>
                    (let token = trim_space out
                     in if token = [] then
                          Inl (newError CodeAuth
                            ''gh returned an empty token; run `gh auth login`'')
                        else Inr token))))"

definition TokenStatus :: "client_cfg \<Rightarrow> string \<times> string" where
  "TokenStatus cfg =
     (case cf_tokenErr cfg of
        None \<Rightarrow> (''ok'', [])
      | Some (Coded p) \<Rightarrow> (pe_Code p, pe_Message p)
      | Some (Plain t) \<Rightarrow> (CodeInternal, t))"

text \<open>The client \<open>main\<close> builds: a failed resolution is kept, not fatal.\<close>

definition startup :: "auth_env \<Rightarrow> 'w \<Rightarrow> client_cfg \<times> 'w client_st" where
  "startup ae w =
     (case ResolveToken ae of
        Inl e \<Rightarrow> New [] (Some e) w
      | Inr token \<Rightarrow> New token None w)"

lemma env_token_some: "env_token ae vs = Some t \<Longrightarrow> t \<noteq> []"
  by (induction vs) (auto simp: Let_def split: if_splits)

lemma startup_cfg:
  "fst (startup ae w) =
     \<lparr>cf_token = (case ResolveToken ae of Inl e \<Rightarrow> [] | Inr t \<Rightarrow> t),
      cf_tokenErr = (case ResolveToken ae of Inl e \<Rightarrow> Some e | Inr t \<Rightarrow> None),
      cf_restURL = defaultREST, cf_gqlURL = defaultGQL\<rparr>"
  by (simp add: startup_def New_def split: sum.split)

lemma ResolveToken_closed: "ResolveToken ae = Inl e \<Longrightarrow> closed_err e"
  by (auto simp: ResolveToken_def Let_def split: option.splits gh_run.splits if_splits)

lemma startup_token_ok: "token_ok (fst (startup ae w))"
  by (auto simp: token_ok_def startup_cfg dest: ResolveToken_closed split: sum.splits)

text \<open>C38: What the handshake can say of the token: \<open>ok\<close> exactly when a token was resolved, which is
  then not empty; \<open>gh_missing\<close> exactly when no variable gives one and there is no \<open>gh\<close>; else
  \<open>auth\<close>, with a message.\<close>

theorem token_status_diagnoses:
  "case TokenStatus (fst (startup ae w)) of (status, message) \<Rightarrow>
     (if \<exists>t. ResolveToken ae = Inr t then status = ''ok'' \<and> cf_token (fst (startup ae w)) \<noteq> []
      else
        status = (if env_token ae env_vars = None \<and> ae_look_gh ae = None then CodeGHMissing
                  else CodeAuth) \<and> message \<noteq> [])"
proof (cases "ResolveToken ae")
  case (Inl e)
  have "\<exists>m. m \<noteq> [] \<and> e = newError (if env_token ae env_vars = None \<and> ae_look_gh ae = None
      then CodeGHMissing else CodeAuth) m"
    using Inl
    by (auto simp: ResolveToken_def Let_def split: option.splits gh_run.splits if_splits)
  then show ?thesis
    using Inl by (auto simp: TokenStatus_def startup_cfg newError_def)
next
  case (Inr t)
  then have "t \<noteq> []"
    by (auto simp: ResolveToken_def Let_def dest: env_token_some
        split: option.splits gh_run.splits if_splits)
  with Inr show ?thesis by (simp add: TokenStatus_def startup_cfg)
qed

end
