(* ===== verification/Client_Rely.thy ===== *)
theory Client_Rely
  imports Client_Go Auth
begin

text \<open>
  What the client's methods guarantee and rely on when they run among others: a predicate of the
  blob cache that each operation on the cache keeps, the closed set of errors, and a bound on the
  number of actions.
\<close>

section \<open>The invariant\<close>

text \<open>What holds of the client's state between any two actions: the cache is sound and within its
  cap.\<close>

definition client_inv :: "'w client_st \<Rightarrow> bool" where
  "client_inv s \<longleftrightarrow>
     cache_ok (cs_cache s) \<and> cc_limit (cs_cache s) = maxBlobBytes \<and>
     cc_bytes (cs_cache s) \<le> maxBlobBytes"

lemma task_step_inv:
  "client_inv s \<Longrightarrow> task_step env cfg b t s = (t', s') \<Longrightarrow> client_inv s'"
proof (cases t)
  case Lookup
  assume inv: "client_inv s" and st: "task_step env cfg b t s = (t', s')"
  have "client_inv (s\<lparr>cs_cache := snd (blob (ref_key b) (cs_cache s))\<rparr>)"
    using inv by (simp add: client_inv_def cache_ok_blob)
  with inv st show ?thesis
    by (cases "blob (ref_key b) (cs_cache s)")
      (auto simp: Lookup task_step_def split: option.splits)
next
  case Fetch
  assume "client_inv s" and "task_step env cfg b t s = (t', s')"
  then show ?thesis
    by (auto simp: Fetch task_step_def client_inv_def split: option.splits prod.splits sum.splits
        dest!: send_net_only)
next
  case (Store v)
  assume inv: "client_inv s" and st: "task_step env cfg b t s = (t', s')"
  then have "cc_bytes (putBlob (ref_key b) v (cs_cache s)) \<le> maxBlobBytes"
    using put_bytes [of "cs_cache s" "ref_key b" v] by (simp add: client_inv_def maxBlobBytes_def)
  with inv st show ?thesis
    by (auto simp: Store task_step_def client_inv_def cache_ok_put)
next
  case (Finished r)
  assume "client_inv s" and "task_step env cfg b t s = (t', s')"
  then show ?thesis by (auto simp: Finished task_step_def)
qed

section \<open>The two fetches among others\<close>

lemma good_run_tasks:
  assumes step: "\<And>x t s. x = b \<or> x = h \<Longrightarrow> I s \<Longrightarrow> J x t \<Longrightarrow>
      I (snd (task_step env cfg x t s)) \<and> J x (fst (task_step env cfg x t s))"
    and init: "J b tb" "J h th" and rank: "task_rank tb + task_rank th \<le> n"
  shows "good I (\<lambda>(tb, th). (\<exists>rb. tb = Finished rb) \<and> (\<exists>rh. th = Finished rh) \<and> J b tb \<and> J h th)
    (run_tasks_go n sched env cfg b h tb th)"
  using init rank
proof (induction n arbitrary: sched tb th)
  case 0
  then show ?case by (simp add: task_rank_0 flip: is_finished_iff)
next
  case (Suc n)
  have rank: "\<not> is_finished t \<Longrightarrow> task_rank (fst (task_step env cfg x t s)) < task_rank t" for x t s
    by (rule task_step_rank [OF prod.collapse [symmetric]])
  have base: "\<not> is_finished tb \<Longrightarrow> I s \<Longrightarrow> I (snd (task_step env cfg b tb s)) \<and>
      good I (\<lambda>(tb, th). (\<exists>rb. tb = Finished rb) \<and> (\<exists>rh. th = Finished rh) \<and> J b tb \<and> J h th)
        (run_tasks_go n (tl sched) env cfg b h (fst (task_step env cfg b tb s)) th)" for s
    using step [of b s tb] rank [of tb b s] Suc.prems by (intro conjI Suc.IH) auto
  have head: "\<not> is_finished th \<Longrightarrow> I s \<Longrightarrow> I (snd (task_step env cfg h th s)) \<and>
      good I (\<lambda>(tb, th). (\<exists>rb. tb = Finished rb) \<and> (\<exists>rh. th = Finished rh) \<and> J b tb \<and> J h th)
        (run_tasks_go n (tl sched) env cfg b h tb (fst (task_step env cfg h th s)))" for s
    using step [of h s th] rank [of th h s] Suc.prems by (intro conjI Suc.IH) auto
  show ?case
    using base head Suc.prems by (auto simp: Let_def is_finished_iff)
qed

text \<open>
  An invariant \<open>I\<close> of the client's state that only looks at the cache, with what \<open>J\<close> says of a
  fetch under way, for the references that are \<open>ok\<close>.
\<close>

locale cache_rely =
  fixes env :: "'w env" and cfg :: client_cfg
    and I :: "'w client_st \<Rightarrow> bool" and ok :: "blob_ref \<Rightarrow> bool" and J :: "blob_ref \<Rightarrow> task \<Rightarrow> bool"
  assumes token: "token_ok cfg"
    and cache_only: "I s \<Longrightarrow> cs_cache s' = cs_cache s \<Longrightarrow> I s'"
    and start: "ok b \<Longrightarrow> J b Lookup"
    and task: "ok b \<Longrightarrow> I s \<Longrightarrow> J b t \<Longrightarrow>
      I (snd (task_step env cfg b t s)) \<and> J b (fst (task_step env cfg b t s))"
    and failed: "J b (Finished (Inl e)) \<Longrightarrow> closed_err e"
begin

lemma good_call [good_intro]: "good I (ends_in closed_err any) (call_go env req)"
  unfolding call_go_def
  by (intro good_atom errs_in_call)
    (use call_net_only [of env req] in \<open>auto simp: keeps_def net_only_def intro: cache_only\<close>)

lemma good_with_token [good_intro]:
  "good I (ends_in closed_err Q) m \<Longrightarrow> good I (ends_in closed_err Q) (with_token_go cfg m)"
  using token by (auto simp: with_token_go_def token_ok_def good_failP split: option.split)

lemma good_pure [good_intro]:
  "good I (ends_in closed_err any) (NewRequest_go env meth url hdr b)"
  "good I (ends_in closed_err any) (or_decode_err_go env ty what b r)"
  by (auto simp: NewRequest_go_def or_decode_err_go_def decode_err_def intro!: good_intro)

lemma good_getJSON [good_intro]: "good I (ends_in closed_err any) (getJSON_go env cfg ty url d z)"
  unfolding getJSON_go_def by (intro good_intro)

lemma good_getPaged_from: "good I (ends_in closed_err any) (getPaged_from_go n env cfg ty d z url xs)"
  by (induction n arbitrary: url xs) (auto intro!: good_intro)

lemma good_getPaged [good_intro]: "good I (ends_in closed_err any) (getPaged_go env cfg ty d z url)"
  unfolding getPaged_go_def by (intro good_intro good_getPaged_from)

lemma good_graphql_data [good_intro]: "good I (ends_in closed_err any) (graphql_data_go env cfg q vs)"
  unfolding graphql_data_go_def by (intro good_intro) (simp_all add: mapGraphQL_closed)

lemma good_graphql [good_intro]: "good I (ends_in closed_err any) (graphql_go env cfg ty q vs d z)"
  unfolding graphql_go_def by (intro good_intro)

lemma good_graphql_nil [good_intro]: "good I (ends_in closed_err any) (graphql_nil_go env cfg q vs)"
  unfolding graphql_nil_go_def by (intro good_intro) simp

lemma good_cursor_walk [good_intro]:
  "(\<And>c. good I (ends_in closed_err any) (fetch c)) \<Longrightarrow>
    good I (ends_in closed_err any) (cursor_walk_go n fetch info collect c acc)"
  by (induction n arbitrary: c acc) (auto intro!: good_bindP good_retP simp: Let_def split: prod.split)

lemma good_swallow [good_intro]:
  "good I (ends_in closed_err any) m \<Longrightarrow> good I (ends_in closed_err any) (swallow_go m)"
  unfolding swallow_go_def by (rule good_mapP, rule good_mono) simp_all

lemma good_viewerLogin [good_intro]: "good I (ends_in closed_err any) (viewerLogin_go env cfg)"
  unfolding viewerLogin_go_def
  by (rule good_readP, intro good_intro) (auto simp: keeps_def errs_in_def intro: cache_only)

lemma good_both_blobs:
  assumes "ok b" and "ok h"
  shows "good I (ends_in closed_err (\<lambda>v. \<exists>vb vh. J b (Finished (Inr vb)) \<and> J h (Finished (Inr vh)) \<and>
      v = \<lparr>fv_Base = vb, fv_Head = vh, fv_Truncated = False\<rparr>)) (both_blobs_go sched env cfg b h)"
  unfolding both_blobs_go_def
proof (rule good_mapP, rule good_mono)
  show "good I (\<lambda>(tb, th). (\<exists>rb. tb = Finished rb) \<and> (\<exists>rh. th = Finished rh) \<and> J b tb \<and> J h th)
      (run_tasks_go 6 sched env cfg b h Lookup Lookup)"
    using assms by (intro good_run_tasks) (auto simp: task start)
next
  fix r :: "task \<times> task"
  assume "case r of (tb, th) \<Rightarrow> (\<exists>rb. tb = Finished rb) \<and> (\<exists>rh. th = Finished rh) \<and> J b tb \<and> J h th"
  then obtain rb rh where "r = (Finished rb, Finished rh)" "J b (Finished rb)" "J h (Finished rh)" by auto
  then show "ends_in closed_err (\<lambda>v. \<exists>vb vh. J b (Finished (Inr vb)) \<and> J h (Finished (Inr vh)) \<and>
      v = \<lparr>fv_Base = vb, fv_Head = vh, fv_Truncated = False\<rparr>) (join_tasks r)"
    by (cases rb; cases rh) (auto dest: failed)
qed

lemma good_client:
  "good I (ends_in closed_err any) (ListPRs_go env cfg owner repo flt)"
  "good I (ends_in closed_err any) (GetPR_go env cfg owner repo n)"
  "good I (ends_in closed_err any) (prRefs_go env cfg owner repo n)"
  "good I (ends_in closed_err any) (HeadSHA_go env cfg owner repo n)"
  "good I (ends_in closed_err any) (GetThreads_go env cfg owner repo n)"
  "good I (ends_in closed_err any) (GetTimeline_go env cfg owner repo n)"
  "good I (ends_in closed_err any) (GetPendingReview_go env cfg owner repo n)"
  "good I (ends_in closed_err any) (GetChecks_go env cfg owner repo n)"
  "good I (ends_in closed_err any) (StartReview_go env cfg owner repo n)"
  "good I (ends_in closed_err any) (SubmitReview_go env cfg i ev b)"
  "good I (ends_in closed_err any) (DiscardReview_go env cfg i)"
  "good I (ends_in closed_err any) (PostComment_go env cfg owner repo n inp)"
  "good I (ends_in closed_err any) (PostIssueComment_go env cfg owner repo n b)"
  "good I (ends_in closed_err any) (DeleteComment_go env cfg i)"
  "good I (ends_in closed_err any) (ResolveThread_go env cfg i v)"
  "good I (ends_in closed_err any) (SetFileViewed_go env cfg owner repo n p v)"
  "good I (ends_in closed_err any) (MergePR_go env cfg owner repo n m v sj b)"
  "good I (ends_in closed_err any) (SetPRState_go env cfg owner repo n st)"
  unfolding client_go_defs by (intro good_intro; simp add: mergeBlocked_closed)+

end

section \<open>The client \<open>main\<close> starts with\<close>

interpretation client_rely: cache_rely env "fst (startup ae w0)" client_inv any "\<lambda>_. task_closed"
  for env :: "'w env" and ae and w0 :: 'v
proof
  show "client_inv s'" if "client_inv s" "cs_cache s' = cs_cache s" for s s' :: "'w client_st"
    using that by (simp add: client_inv_def)
  show "client_inv (snd (task_step env (fst (startup ae w0)) b t s)) \<and>
      task_closed (fst (task_step env (fst (startup ae w0)) b t s))"
    if "client_inv s" "task_closed t" for b t and s :: "'w client_st"
  proof -
    obtain t' s' where st: "task_step env (fst (startup ae w0)) b t s = (t', s')" by fastforce
    from that task_step_inv [OF that(1) st] task_step_closed [OF startup_token_ok that(2) st]
    show ?thesis by (simp add: st)
  qed
qed (simp_all add: startup_token_ok)

lemma good_GetFileVersions:
  "good client_inv (ends_in closed_err any)
    (GetFileVersions_go env (fst (startup ae w0)) owner repo n p bp b h)"
  unfolding GetFileVersions_go_def
  by (intro good_Let good_bindP good_if good_prod good_readP client_rely.good_client good_retP)
    (auto intro!: good_mono [OF client_rely.good_both_blobs] simp: ends_in_def split: sum.splits)

section \<open>How many actions\<close>

lemma within_pure [within_intro]:
  "within (NewRequest_go env meth url hdr b) 0" "within (or_decode_err_go env ty what b r) 0"
  by (auto simp: NewRequest_go_def or_decode_err_go_def intro!: within_ends within_option)

lemma within_call [within_intro]: "within (call_go env req) 1"
  unfolding call_go_def by (rule within_atomP)

lemma within_with_token [within_intro]: "within m n \<Longrightarrow> within (with_token_go cfg m) n"
  unfolding with_token_go_def by (intro within_intro)

lemma within_swallow [within_intro]: "within m n \<Longrightarrow> within (swallow_go m) n"
  unfolding swallow_go_def by (rule within_mapP)

lemma within_getJSON [within_intro]: "within (getJSON_go env cfg ty url d z) 1"
  unfolding getJSON_go_def by (rule within_mono, (rule within_intro within_bindP)+, simp)

lemma within_getPaged_from: "within (getPaged_from_go n env cfg ty d z url xs) n"
proof (induction n arbitrary: url xs)
  case (Suc n)
  show ?case
    unfolding getPaged_from_go.simps
    by (rule within_mono, (rule within_intro within_bindP Suc)+, simp)
qed (simp add: within_ends)

lemma within_getPaged [within_intro]: "within (getPaged_go env cfg ty d z url) 100"
  unfolding getPaged_go_def
  by (rule within_with_token, rule within_mono, rule within_getPaged_from) (simp add: maxPages_def)

lemma within_graphql_data [within_intro]: "within (graphql_data_go env cfg q vs) 1"
  unfolding graphql_data_go_def by (rule within_mono, (rule within_intro within_bindP)+, simp)

lemma within_graphql [within_intro]: "within (graphql_go env cfg ty q vs d z) 1"
  unfolding graphql_go_def by (rule within_mono, (rule within_intro within_bindP)+, simp)

lemma within_graphql_nil [within_intro]: "within (graphql_nil_go env cfg q vs) 1"
  unfolding graphql_nil_go_def by (rule within_mono, (rule within_intro within_bindP)+, simp)

lemma within_cursor_walk:
  "(\<And>c. within (fetch c) 1) \<Longrightarrow> within (cursor_walk_go n fetch info collect c acc) n"
proof (induction n arbitrary: c acc)
  case (Suc n)
  then have "within (bindP (fetch c) (\<lambda>page.
       let acc' = collect c page acc
       in case nextCursor c (info page) of
            (next', goes_on) \<Rightarrow>
              if \<not> goes_on then retP acc' else cursor_walk_go n fetch info collect next' acc')) (1 + n)"
    by (intro within_bindP within_Let within_prod within_if within_ends Suc.IH Suc.prems)
  then show ?case by simp
qed (simp add: within_ends)

lemma within_cursor_walk_100 [within_intro]:
  "(\<And>c. within (fetch c) 1) \<Longrightarrow> within (cursor_walk_go gqlMaxPages fetch info collect c acc) 100"
  using within_cursor_walk [of fetch gqlMaxPages] by (simp add: gqlMaxPages_def)

lemma within_viewerLogin [within_intro]: "within (viewerLogin_go env cfg) 3"
proof -
  have "within (viewerLogin_go env cfg) (Suc (1 + 1))"
    unfolding viewerLogin_go_def
    by (intro within_readP within_if within_ends within_bindP within_getJSON within_atomP)
  then show ?thesis by (simp add: numeral_eq_Suc)
qed

lemma within_run_tasks: "within (run_tasks_go n sched env cfg b h tb th) n"
  by (induction n arbitrary: sched tb th) (simp_all add: Let_def)

lemma within_both_blobs: "within (both_blobs_go sched env cfg b h) 6"
  unfolding both_blobs_go_def by (intro within_mapP within_run_tasks)

lemma within_prRefs [within_intro]: "within (prRefs_go env cfg owner repo n) 1"
  unfolding prRefs_go_def by (rule within_mono, (rule within_intro within_bindP)+, simp)

lemma within_prAndPendingReview [within_intro]: "within (prAndPendingReview_go env cfg owner repo n) 1"
  unfolding prAndPendingReview_go_def by (rule within_mono, (rule within_intro within_bindP)+, simp)

lemma within_prNodeID [within_intro]: "within (prNodeID_go env cfg owner repo n) 1"
  unfolding prNodeID_go_def by (rule within_mono, (rule within_intro within_bindP)+, simp)

lemma within_draftThread [within_intro]: "within (draftThread_go env cfg inp) 1"
  unfolding draftThread_go_def by (rule within_mono, (rule within_intro within_bindP)+, simp)

lemma within_HeadSHA: "within (HeadSHA_go env cfg owner repo n) 1"
  unfolding HeadSHA_go_def by (rule within_mono, (rule within_intro within_bindP)+, simp)

text \<open>No method of the client takes more than two hundred actions.\<close>

definition methodActions :: nat where "methodActions = 200"

lemma no_actions: "0 + 0 \<le> (n :: nat)"
  by simp

lemma within_client:
  "within (ListPRs_go env cfg owner repo flt) methodActions"
  "within (GetPR_go env cfg owner repo n) methodActions"
  "within (GetFileVersions_go env cfg owner repo n p bp b h) methodActions"
  "within (HeadSHA_go env cfg owner repo n) methodActions"
  "within (GetThreads_go env cfg owner repo n) methodActions"
  "within (GetTimeline_go env cfg owner repo n) methodActions"
  "within (GetPendingReview_go env cfg owner repo n) methodActions"
  "within (GetChecks_go env cfg owner repo n) methodActions"
  "within (StartReview_go env cfg owner repo n) methodActions"
  "within (SubmitReview_go env cfg i ev b) methodActions"
  "within (DiscardReview_go env cfg i) methodActions"
  "within (PostComment_go env cfg owner repo n inp) methodActions"
  "within (PostIssueComment_go env cfg owner repo n b) methodActions"
  "within (DeleteComment_go env cfg i) methodActions"
  "within (ResolveThread_go env cfg i v) methodActions"
  "within (SetFileViewed_go env cfg owner repo n p v) methodActions"
  "within (MergePR_go env cfg owner repo n m v sj b) methodActions"
  "within (SetPRState_go env cfg owner repo n st) methodActions"
proof -
  show "within (GetFileVersions_go env cfg owner repo n p bp b h) methodActions"
    unfolding GetFileVersions_go_def
    by (rule within_mono, (rule within_Let within_bindP within_if within_prRefs within_ends within_prod
        within_readP within_both_blobs)+, simp add: methodActions_def)
  show "within (PostComment_go env cfg owner repo n inp) methodActions"
    unfolding PostComment_go_def replyToThread_go_def postNewThread_go_def
    by (intro within_if;
        (rule within_mono, (rule within_intro within_bindP)+, (simp add: methodActions_def; (rule le0 | rule no_actions))))
qed (unfold client_go_defs,
    (rule within_mono, (rule within_intro within_bindP)+, (simp add: methodActions_def; (rule le0 | rule no_actions)))+)

end
