(* ===== verification/Handlers.thy ===== *)
theory Handlers
  imports Client_Rely
begin

text \<open>
  \<open>internal/handlers\<close>: the protocol's methods.  A handler decodes its parameters over their zero
  value, checks them, and calls the GitHub surface, which is an interface of the Go code and a
  record of operations here.  A nil surface makes the call panic, as a Go interface call does.  A
  handler is a program: its actions are those of the operations it calls.
\<close>

section \<open>The GitHub surface (handlers.go, API)\<close>

record 's api =
  ap_ListPRs :: "string \<Rightarrow> string \<Rightarrow> string \<Rightarrow> ('s, gerr, PR list) proc"
  ap_GetPR :: "string \<Rightarrow> string \<Rightarrow> int \<Rightarrow> ('s, gerr, PRDetail) proc"
  ap_GetFileVersions ::
    "string \<Rightarrow> string \<Rightarrow> int \<Rightarrow> string \<Rightarrow> string \<Rightarrow> string \<Rightarrow> string \<Rightarrow> ('s, gerr, FileVersions) proc"
  ap_HeadSHA :: "string \<Rightarrow> string \<Rightarrow> int \<Rightarrow> ('s, gerr, string) proc"
  ap_GetThreads :: "string \<Rightarrow> string \<Rightarrow> int \<Rightarrow> ('s, gerr, Thread list) proc"
  ap_GetTimeline :: "string \<Rightarrow> string \<Rightarrow> int \<Rightarrow> ('s, gerr, Timeline) proc"
  ap_GetPendingReview :: "string \<Rightarrow> string \<Rightarrow> int \<Rightarrow> ('s, gerr, PendingReview) proc"
  ap_GetChecks :: "string \<Rightarrow> string \<Rightarrow> int \<Rightarrow> ('s, gerr, Checks) proc"
  ap_StartReview :: "string \<Rightarrow> string \<Rightarrow> int \<Rightarrow> ('s, gerr, StartReview_res) proc"
  ap_SubmitReview :: "string \<Rightarrow> string \<Rightarrow> string \<Rightarrow> ('s, gerr, SubmitReview_res) proc"
  ap_DiscardReview :: "string \<Rightarrow> ('s, gerr, unit) proc"
  ap_PostComment :: "string \<Rightarrow> string \<Rightarrow> int \<Rightarrow> PostCommentInput \<Rightarrow> ('s, gerr, PostComment_res) proc"
  ap_PostIssueComment :: "string \<Rightarrow> string \<Rightarrow> int \<Rightarrow> string \<Rightarrow> ('s, gerr, PostIssueComment_res) proc"
  ap_DeleteComment :: "string \<Rightarrow> ('s, gerr, unit) proc"
  ap_ResolveThread :: "string \<Rightarrow> bool \<Rightarrow> ('s, gerr, ResolveThread_res) proc"
  ap_SetFileViewed ::
    "string \<Rightarrow> string \<Rightarrow> int \<Rightarrow> string \<Rightarrow> bool \<Rightarrow> ('s, gerr, SetFileViewed_res) proc"
  ap_MergePR ::
    "string \<Rightarrow> string \<Rightarrow> int \<Rightarrow> string \<Rightarrow> bool \<Rightarrow> string \<Rightarrow> string \<Rightarrow> ('s, gerr, Merge) proc"
  ap_SetPRState :: "string \<Rightarrow> string \<Rightarrow> int \<Rightarrow> string \<Rightarrow> ('s, gerr, SetPRState_res) proc"
  ap_TokenStatus :: "string \<times> string"
  ap_ClearCache :: "('s \<Rightarrow> 's) option"

text \<open>The client as that surface.\<close>

definition client_api :: "'w env \<Rightarrow> client_cfg \<Rightarrow> 'w client_st api" where
  "client_api env cfg =
     \<lparr>ap_ListPRs = ListPRs_go env cfg, ap_GetPR = GetPR_go env cfg,
      ap_GetFileVersions = GetFileVersions_go env cfg, ap_HeadSHA = HeadSHA_go env cfg,
      ap_GetThreads = GetThreads_go env cfg, ap_GetTimeline = GetTimeline_go env cfg,
      ap_GetPendingReview = GetPendingReview_go env cfg, ap_GetChecks = GetChecks_go env cfg,
      ap_StartReview = StartReview_go env cfg, ap_SubmitReview = SubmitReview_go env cfg,
      ap_DiscardReview = DiscardReview_go env cfg, ap_PostComment = PostComment_go env cfg,
      ap_PostIssueComment = PostIssueComment_go env cfg, ap_DeleteComment = DeleteComment_go env cfg,
      ap_ResolveThread = ResolveThread_go env cfg, ap_SetFileViewed = SetFileViewed_go env cfg,
      ap_MergePR = MergePR_go env cfg, ap_SetPRState = SetPRState_go env cfg,
      ap_TokenStatus = TokenStatus cfg, ap_ClearCache = Some ClearCache\<rparr>"

section \<open>Handlers\<close>

record helloResult =
  he_Protocol :: int
  he_Binary :: string
  he_Auth :: string
  he_AuthMessage :: string

datatype result_val =
    RHello helloResult
  | RPRs "PR list"
  | RPR PRDetail
  | RFileVersions FileVersions
  | RThreads "Thread list"
  | RTimeline Timeline
  | RPendingReview PendingReview
  | RChecks Checks
  | RStartReview StartReview_res
  | RSubmitReview SubmitReview_res
  | RPostComment PostComment_res
  | RPostIssueComment PostIssueComment_res
  | RResolveThread ResolveThread_res
  | RSetFileViewed SetFileViewed_res
  | RMerge Merge
  | RSetPRState SetPRState_res
  | REmpty

definition helloResult_json :: "helloResult \<Rightarrow> json" where
  "helloResult_json h = JObj
     ([(''protocol'', json_int (he_Protocol h)), (''binary'', JStr (he_Binary h))] @
      opt_str ''auth'' (he_Auth h) @ opt_str ''auth_message'' (he_AuthMessage h))"

fun result_json :: "result_val \<Rightarrow> json" where
  "result_json (RHello h) = helloResult_json h"
| "result_json (RPRs ps) = JArr (map PR_json ps)"
| "result_json (RPR d) = PRDetail_json d"
| "result_json (RFileVersions v) = FileVersions_json v"
| "result_json (RThreads ts) = JArr (map Thread_json ts)"
| "result_json (RTimeline t) = Timeline_json t"
| "result_json (RPendingReview r) = PendingReview_json r"
| "result_json (RChecks c) = Checks_json c"
| "result_json (RStartReview r) = StartReview_json r"
| "result_json (RSubmitReview r) = SubmitReview_json r"
| "result_json (RPostComment r) = PostComment_json r"
| "result_json (RPostIssueComment r) = PostIssueComment_json r"
| "result_json (RResolveThread r) = ResolveThread_json r"
| "result_json (RSetFileViewed r) = SetFileViewed_json r"
| "result_json (RMerge m) = Merge_json m"
| "result_json (RSetPRState r) = SetPRState_json r"
| "result_json REmpty = JObj []"

text \<open>How a handler ends without a result: an error it returns, or a panic.\<close>

datatype herr = Err gerr | Panic

type_synonym ('s, 'a) hsem = "('s, herr, 'a) proc"

type_synonym 's handler = "json option \<Rightarrow> ('s, result_val) hsem"

text \<open>
  The dependencies; \<open>dp_json_err\<close> is the text of \<open>encoding/json\<close>'s error for parameters, which depends
  on the struct they are decoded into: no two of the handlers' structs have the same field names.
\<close>

record 's deps =
  dp_GH :: "'s api option"
  dp_json_err :: "string list \<Rightarrow> json \<Rightarrow> string"

definition bad :: "string \<Rightarrow> ('s, 'a) hsem" where
  "bad message = failP (Err (newError CodeBadRequest message))"

text \<open>A call of the surface: its errors are the handler's.\<close>

definition lift_err :: "('s, gerr, 'a) proc \<Rightarrow> ('s, 'a) hsem" where
  "lift_err m = mapP (map_sum Err id) m"

definition with_gh :: "'s deps \<Rightarrow> ('s api \<Rightarrow> ('s, gerr, 'a) proc) \<Rightarrow> ('s, 'a) hsem" where
  "with_gh d f = (case dp_GH d of None \<Rightarrow> failP Panic | Some api \<Rightarrow> lift_err (f api))"

definition returning :: "('a \<Rightarrow> result_val) \<Rightarrow> ('s, 'a) hsem \<Rightarrow> ('s, result_val) hsem" where
  "returning r m = bindP m (\<lambda>a. retP (r a))"

definition decode :: "'s deps \<Rightarrow> json option \<Rightarrow> 'p fields \<Rightarrow> 'p \<Rightarrow> ('s, 'p) hsem" where
  "decode d params fs zero =
     (case params of
        None \<Rightarrow> retP zero
      | Some v \<Rightarrow>
          (case dec_struct fs v zero of
             None \<Rightarrow> bad (''invalid params: '' @ dp_json_err d (map fst fs) v)
           | Some p \<Rightarrow> retP p))"

definition guardHead :: "'s deps \<Rightarrow> string \<Rightarrow> string \<Rightarrow> int \<Rightarrow> string \<Rightarrow> ('s, unit) hsem" where
  "guardHead d owner repo number expected =
     (if expected = [] then retP ()
      else
        bindP (with_gh d (\<lambda>api. ap_HeadSHA api owner repo number)) (\<lambda>head.
          if head \<noteq> expected then
            failP (Err (newError CodeConflict
              ''the PR head moved since the review was anchored; refresh and retry''))
          else retP ()))"

definition requireRepo :: "string \<Rightarrow> string \<Rightarrow> ('s, unit) hsem" where
  "requireRepo owner repo =
     (if owner = [] \<or> repo = [] then bad ''owner and repo are required'' else retP ())"

definition requirePR :: "string \<Rightarrow> string \<Rightarrow> int \<Rightarrow> ('s, unit) hsem" where
  "requirePR owner repo number =
     bindP (requireRepo owner repo) (\<lambda>_.
       if number \<le> 0 then bad ''number is required'' else retP ())"

subsection \<open>The handshake (hello.go)\<close>

record helloParams =
  hp_Client :: string
  hp_Protocol :: int

definition helloParams_fields :: "helloParams fields" where
  "helloParams_fields =
     [fld ''client'' hp_Client hp_Client_update dec_string,
      fld ''protocol'' hp_Protocol hp_Protocol_update dec_int]"

definition hello :: "'s deps \<Rightarrow> 's handler" where
  "hello d params =
     bindP (decode d params helloParams_fields \<lparr>hp_Client = [], hp_Protocol = 0\<rparr>) (\<lambda>p.
       if hp_Protocol p > Version then
         bad (''protocol mismatch: client speaks '' @ itoa (hp_Protocol p) @
              '', sidecar speaks '' @ itoa Version @ '', rebuild your sidecar; run `make go-build`'')
       else
         retP (RHello
           (case dp_GH d of
              None \<Rightarrow>
                \<lparr>he_Protocol = Version, he_Binary = Binary, he_Auth = [], he_AuthMessage = []\<rparr>
            | Some api \<Rightarrow>
                \<lparr>he_Protocol = Version, he_Binary = Binary, he_Auth = fst (ap_TokenStatus api),
                 he_AuthMessage = snd (ap_TokenStatus api)\<rparr>)))"

subsection \<open>Reads (read_prs.go, read_files.go, read_review.go)\<close>

record listPRsParams =
  lp_Owner :: string
  lp_Repo :: string
  lp_Filter :: string

definition listPRsParams_fields :: "listPRsParams fields" where
  "listPRsParams_fields =
     [fld ''owner'' lp_Owner lp_Owner_update dec_string,
      fld ''repo'' lp_Repo lp_Repo_update dec_string,
      fld ''filter'' lp_Filter lp_Filter_update dec_string]"

definition listPRs :: "'s deps \<Rightarrow> 's handler" where
  "listPRs d params =
     bindP (decode d params listPRsParams_fields \<lparr>lp_Owner = [], lp_Repo = [], lp_Filter = []\<rparr>) (\<lambda>p.
     bindP (requireRepo (lp_Owner p) (lp_Repo p)) (\<lambda>_.
     returning RPRs (with_gh d (\<lambda>api. ap_ListPRs api (lp_Owner p) (lp_Repo p) (lp_Filter p)))))"

text \<open>The embedded \<open>prParams\<close>: the records of the other methods extend it.\<close>

record prParams =
  pp_Owner :: string
  pp_Repo :: string
  pp_Number :: int

definition prParams_fields :: "'a prParams_scheme fields" where
  "prParams_fields =
     [fld ''owner'' pp_Owner pp_Owner_update dec_string,
      fld ''repo'' pp_Repo pp_Repo_update dec_string,
      fld ''number'' pp_Number pp_Number_update dec_int]"

definition zero_prParams :: prParams where
  "zero_prParams = \<lparr>pp_Owner = [], pp_Repo = [], pp_Number = 0\<rparr>"

text \<open>The start of every handler scoped to a pull request.\<close>

definition with_pr ::
  "'s deps \<Rightarrow> json option \<Rightarrow> 'a prParams_scheme fields \<Rightarrow> 'a prParams_scheme \<Rightarrow>
    ('a prParams_scheme \<Rightarrow> ('s, 'b) hsem) \<Rightarrow> ('s, 'b) hsem" where
  "with_pr d params fs zero f =
     bindP (decode d params fs zero) (\<lambda>p.
     bindP (requirePR (pp_Owner p) (pp_Repo p) (pp_Number p)) (\<lambda>_. f p))"

definition getPR :: "'s deps \<Rightarrow> 's handler" where
  "getPR d params =
     with_pr d params prParams_fields zero_prParams (\<lambda>p.
       returning RPR (with_gh d (\<lambda>api. ap_GetPR api (pp_Owner p) (pp_Repo p) (pp_Number p))))"

record getFileVersionsParams = prParams +
  gf_Path :: string
  gf_PreviousPath :: string
  gf_Base :: string
  gf_Head :: string

definition getFileVersionsParams_fields :: "getFileVersionsParams fields" where
  "getFileVersionsParams_fields = prParams_fields @
     [fld ''path'' gf_Path gf_Path_update dec_string,
      fld ''previous_path'' gf_PreviousPath gf_PreviousPath_update dec_string,
      fld ''base'' gf_Base gf_Base_update dec_string,
      fld ''head'' gf_Head gf_Head_update dec_string]"

definition zero_getFileVersions :: getFileVersionsParams where
  "zero_getFileVersions =
     \<lparr>pp_Owner = [], pp_Repo = [], pp_Number = 0, gf_Path = [], gf_PreviousPath = [],
      gf_Base = [], gf_Head = []\<rparr>"

definition getFileVersions :: "'s deps \<Rightarrow> 's handler" where
  "getFileVersions d params =
     with_pr d params getFileVersionsParams_fields zero_getFileVersions (\<lambda>p.
       if gf_Path p = [] then bad ''path is required''
       else
         returning RFileVersions (with_gh d (\<lambda>api.
           ap_GetFileVersions api (pp_Owner p) (pp_Repo p) (pp_Number p)
             (gf_Path p) (gf_PreviousPath p) (gf_Base p) (gf_Head p))))"

definition getThreads :: "'s deps \<Rightarrow> 's handler" where
  "getThreads d params =
     with_pr d params prParams_fields zero_prParams (\<lambda>p.
       returning RThreads (with_gh d (\<lambda>api. ap_GetThreads api (pp_Owner p) (pp_Repo p) (pp_Number p))))"

definition getPendingReview :: "'s deps \<Rightarrow> 's handler" where
  "getPendingReview d params =
     with_pr d params prParams_fields zero_prParams (\<lambda>p.
       returning RPendingReview
         (with_gh d (\<lambda>api. ap_GetPendingReview api (pp_Owner p) (pp_Repo p) (pp_Number p))))"

definition getTimeline :: "'s deps \<Rightarrow> 's handler" where
  "getTimeline d params =
     with_pr d params prParams_fields zero_prParams (\<lambda>p.
       returning RTimeline (with_gh d (\<lambda>api. ap_GetTimeline api (pp_Owner p) (pp_Repo p) (pp_Number p))))"

definition getChecks :: "'s deps \<Rightarrow> 's handler" where
  "getChecks d params =
     with_pr d params prParams_fields zero_prParams (\<lambda>p.
       returning RChecks (with_gh d (\<lambda>api. ap_GetChecks api (pp_Owner p) (pp_Repo p) (pp_Number p))))"

text \<open>The cache flush (cache.go): nothing to do on a surface without a cache.\<close>

definition cacheClear :: "'s deps \<Rightarrow> 's handler" where
  "cacheClear d params =
     (case dp_GH d of
        None \<Rightarrow> retP REmpty
      | Some api \<Rightarrow>
          (case ap_ClearCache api of
             None \<Rightarrow> retP REmpty | Some clr \<Rightarrow> Act clr (\<lambda>_. retP REmpty)))"

subsection \<open>Reviews (mutate_reviews.go)\<close>

definition requireReviewID :: "string \<Rightarrow> ('s, unit) hsem" where
  "requireReviewID reviewID = (if reviewID = [] then bad ''review_id is required'' else retP ())"

definition validReviewEvent :: "string \<Rightarrow> bool" where
  "validReviewEvent event \<longleftrightarrow> event \<in> {''APPROVE'', ''REQUEST_CHANGES'', ''COMMENT''}"

definition startReview :: "'s deps \<Rightarrow> 's handler" where
  "startReview d params =
     with_pr d params prParams_fields zero_prParams (\<lambda>p.
       returning RStartReview
         (with_gh d (\<lambda>api. ap_StartReview api (pp_Owner p) (pp_Repo p) (pp_Number p))))"

record submitReviewParams = prParams +
  sp_ReviewID :: string
  sp_Event :: string
  sp_Body :: string
  sp_ExpectedHead :: string

definition submitReviewParams_fields :: "submitReviewParams fields" where
  "submitReviewParams_fields = prParams_fields @
     [fld ''review_id'' sp_ReviewID sp_ReviewID_update dec_string,
      fld ''event'' sp_Event sp_Event_update dec_string,
      fld ''body'' sp_Body sp_Body_update dec_string,
      fld ''expected_head'' sp_ExpectedHead sp_ExpectedHead_update dec_string]"

definition submitReview :: "'s deps \<Rightarrow> 's handler" where
  "submitReview d params =
     with_pr d params submitReviewParams_fields
       \<lparr>pp_Owner = [], pp_Repo = [], pp_Number = 0, sp_ReviewID = [], sp_Event = [], sp_Body = [],
        sp_ExpectedHead = []\<rparr> (\<lambda>p.
       bindP (requireReviewID (sp_ReviewID p)) (\<lambda>_.
       if \<not> validReviewEvent (sp_Event p) then
         bad ''event must be APPROVE, REQUEST_CHANGES, or COMMENT''
       else
         bindP (guardHead d (pp_Owner p) (pp_Repo p) (pp_Number p) (sp_ExpectedHead p)) (\<lambda>_.
         returning RSubmitReview
           (with_gh d (\<lambda>api. ap_SubmitReview api (sp_ReviewID p) (sp_Event p) (sp_Body p))))))"

record discardReviewParams = prParams +
  dr_ReviewID :: string

definition discardReviewParams_fields :: "discardReviewParams fields" where
  "discardReviewParams_fields =
     prParams_fields @ [fld ''review_id'' dr_ReviewID dr_ReviewID_update dec_string]"

definition discardReview :: "'s deps \<Rightarrow> 's handler" where
  "discardReview d params =
     with_pr d params discardReviewParams_fields
       \<lparr>pp_Owner = [], pp_Repo = [], pp_Number = 0, dr_ReviewID = []\<rparr> (\<lambda>p.
       bindP (requireReviewID (dr_ReviewID p)) (\<lambda>_.
       returning (\<lambda>_. REmpty) (with_gh d (\<lambda>api. ap_DiscardReview api (dr_ReviewID p)))))"

subsection \<open>Comments (mutate_comments.go)\<close>

record postCommentParams = prParams +
  cp_Path :: string
  cp_Side :: string
  cp_Line :: int
  cp_Body :: string
  cp_StartSide :: string
  cp_StartLine :: int
  cp_InReplyTo :: string
  cp_ReviewID :: string
  cp_ExpectedHead :: string

definition postCommentParams_fields :: "postCommentParams fields" where
  "postCommentParams_fields = prParams_fields @
     [fld ''path'' cp_Path cp_Path_update dec_string,
      fld ''side'' cp_Side cp_Side_update dec_string,
      fld ''line'' cp_Line cp_Line_update dec_int,
      fld ''body'' cp_Body cp_Body_update dec_string,
      fld ''start_side'' cp_StartSide cp_StartSide_update dec_string,
      fld ''start_line'' cp_StartLine cp_StartLine_update dec_int,
      fld ''in_reply_to'' cp_InReplyTo cp_InReplyTo_update dec_string,
      fld ''review_id'' cp_ReviewID cp_ReviewID_update dec_string,
      fld ''expected_head'' cp_ExpectedHead cp_ExpectedHead_update dec_string]"

definition zero_postComment :: postCommentParams where
  "zero_postComment =
     \<lparr>pp_Owner = [], pp_Repo = [], pp_Number = 0, cp_Path = [], cp_Side = [], cp_Line = 0,
      cp_Body = [], cp_StartSide = [], cp_StartLine = 0, cp_InReplyTo = [], cp_ReviewID = [],
      cp_ExpectedHead = []\<rparr>"

definition validSide :: "string \<Rightarrow> bool" where
  "validSide side \<longleftrightarrow> side = ''LEFT'' \<or> side = ''RIGHT''"

definition validateAnchor :: "postCommentParams \<Rightarrow> ('s, unit) hsem" where
  "validateAnchor p =
     (if cp_Path p = [] then bad ''path is required''
      else if \<not> validSide (cp_Side p) then bad ''side must be LEFT or RIGHT''
      else if cp_Line p \<le> 0 then bad ''line must be positive''
      else if cp_StartLine p \<noteq> 0 \<or> cp_StartSide p \<noteq> [] then
        (if cp_StartLine p \<le> 0 then bad ''start_line must be positive on a range comment''
         else if cp_StartLine p \<ge> cp_Line p then bad ''start_line must be less than line''
         else if cp_StartSide p \<noteq> [] \<and> \<not> validSide (cp_StartSide p) then
           bad ''start_side must be LEFT or RIGHT''
         else retP ())
      else retP ())"

definition comment_input :: "postCommentParams \<Rightarrow> PostCommentInput" where
  "comment_input p =
     \<lparr>in_Path = cp_Path p, in_Side = cp_Side p, in_Line = cp_Line p, in_Body = cp_Body p,
      in_StartSide = cp_StartSide p, in_StartLine = cp_StartLine p,
      in_InReplyTo = cp_InReplyTo p, in_ReviewID = cp_ReviewID p\<rparr>"

definition postComment :: "'s deps \<Rightarrow> 's handler" where
  "postComment d params =
     with_pr d params postCommentParams_fields zero_postComment (\<lambda>p.
       if cp_Body p = [] then bad ''body is required''
       else
         bindP (if cp_InReplyTo p = [] then validateAnchor p else retP ()) (\<lambda>_.
         bindP (guardHead d (pp_Owner p) (pp_Repo p) (pp_Number p) (cp_ExpectedHead p)) (\<lambda>_.
         returning RPostComment (with_gh d (\<lambda>api.
           ap_PostComment api (pp_Owner p) (pp_Repo p) (pp_Number p) (comment_input p))))))"

record postIssueCommentParams = prParams +
  ic_Body :: string

definition postIssueCommentParams_fields :: "postIssueCommentParams fields" where
  "postIssueCommentParams_fields = prParams_fields @ [fld ''body'' ic_Body ic_Body_update dec_string]"

definition postIssueComment :: "'s deps \<Rightarrow> 's handler" where
  "postIssueComment d params =
     with_pr d params postIssueCommentParams_fields
       \<lparr>pp_Owner = [], pp_Repo = [], pp_Number = 0, ic_Body = []\<rparr> (\<lambda>p.
       if ic_Body p = [] then bad ''body is required''
       else
         returning RPostIssueComment (with_gh d (\<lambda>api.
           ap_PostIssueComment api (pp_Owner p) (pp_Repo p) (pp_Number p) (ic_Body p))))"

record deleteCommentParams = prParams +
  dc_CommentID :: string

definition deleteCommentParams_fields :: "deleteCommentParams fields" where
  "deleteCommentParams_fields =
     prParams_fields @ [fld ''comment_id'' dc_CommentID dc_CommentID_update dec_string]"

definition deleteComment :: "'s deps \<Rightarrow> 's handler" where
  "deleteComment d params =
     with_pr d params deleteCommentParams_fields
       \<lparr>pp_Owner = [], pp_Repo = [], pp_Number = 0, dc_CommentID = []\<rparr> (\<lambda>p.
       if dc_CommentID p = [] then bad ''comment_id is required''
       else returning (\<lambda>_. REmpty) (with_gh d (\<lambda>api. ap_DeleteComment api (dc_CommentID p))))"

subsection \<open>Threads (mutate_threads.go)\<close>

record resolveThreadParams = prParams +
  tp_ThreadID :: string
  tp_Resolved :: bool

definition resolveThreadParams_fields :: "resolveThreadParams fields" where
  "resolveThreadParams_fields = prParams_fields @
     [fld ''thread_id'' tp_ThreadID tp_ThreadID_update dec_string,
      fld ''resolved'' tp_Resolved tp_Resolved_update dec_bool]"

definition resolveThread :: "'s deps \<Rightarrow> 's handler" where
  "resolveThread d params =
     with_pr d params resolveThreadParams_fields
       \<lparr>pp_Owner = [], pp_Repo = [], pp_Number = 0, tp_ThreadID = [], tp_Resolved = False\<rparr> (\<lambda>p.
       if tp_ThreadID p = [] then bad ''thread_id is required''
       else
         returning RResolveThread
           (with_gh d (\<lambda>api. ap_ResolveThread api (tp_ThreadID p) (tp_Resolved p))))"

subsection \<open>Pull request state (mutate_pr.go)\<close>

record setFileViewedParams = prParams +
  vp_Path :: string
  vp_Viewed :: bool

definition setFileViewedParams_fields :: "setFileViewedParams fields" where
  "setFileViewedParams_fields = prParams_fields @
     [fld ''path'' vp_Path vp_Path_update dec_string,
      fld ''viewed'' vp_Viewed vp_Viewed_update dec_bool]"

definition setFileViewed :: "'s deps \<Rightarrow> 's handler" where
  "setFileViewed d params =
     with_pr d params setFileViewedParams_fields
       \<lparr>pp_Owner = [], pp_Repo = [], pp_Number = 0, vp_Path = [], vp_Viewed = False\<rparr> (\<lambda>p.
       if vp_Path p = [] then bad ''path is required''
       else
         returning RSetFileViewed (with_gh d (\<lambda>api.
           ap_SetFileViewed api (pp_Owner p) (pp_Repo p) (pp_Number p) (vp_Path p) (vp_Viewed p))))"

record mergePRParams = prParams +
  mp_Method :: string
  mp_DeleteBranch :: bool
  mp_Subject :: string
  mp_Body :: string

definition mergePRParams_fields :: "mergePRParams fields" where
  "mergePRParams_fields = prParams_fields @
     [fld ''method'' mp_Method mp_Method_update dec_string,
      fld ''delete_branch'' mp_DeleteBranch mp_DeleteBranch_update dec_bool,
      fld ''subject'' mp_Subject mp_Subject_update dec_string,
      fld ''body'' mp_Body mp_Body_update dec_string]"

definition mergeMethod :: "string \<Rightarrow> string option" where
  "mergeMethod m =
     (if m = ''squash'' then Some ''SQUASH''
      else if m = ''merge'' then Some ''MERGE''
      else if m = ''rebase'' then Some ''REBASE''
      else None)"

definition mergePR :: "'s deps \<Rightarrow> 's handler" where
  "mergePR d params =
     with_pr d params mergePRParams_fields
       \<lparr>pp_Owner = [], pp_Repo = [], pp_Number = 0, mp_Method = [], mp_DeleteBranch = False,
        mp_Subject = [], mp_Body = []\<rparr> (\<lambda>p.
       case mergeMethod (mp_Method p) of
         None \<Rightarrow> bad ''method must be squash, merge, or rebase''
       | Some meth \<Rightarrow>
           returning RMerge (with_gh d (\<lambda>api.
             ap_MergePR api (pp_Owner p) (pp_Repo p) (pp_Number p) meth (mp_DeleteBranch p)
               (mp_Subject p) (mp_Body p))))"

record setPRStateParams = prParams +
  st_NewState :: string

definition setPRStateParams_fields :: "setPRStateParams fields" where
  "setPRStateParams_fields = prParams_fields @
     [fld ''state'' st_NewState st_NewState_update dec_string]"

definition validPRState :: "string \<Rightarrow> bool" where
  "validPRState state \<longleftrightarrow> state \<in> {''ready'', ''draft'', ''closed'', ''open''}"

definition setPRState :: "'s deps \<Rightarrow> 's handler" where
  "setPRState d params =
     with_pr d params setPRStateParams_fields
       \<lparr>pp_Owner = [], pp_Repo = [], pp_Number = 0, st_NewState = []\<rparr> (\<lambda>p.
       if \<not> validPRState (st_NewState p) then
         bad ''state must be ready, draft, closed, or open''
       else
         returning RSetPRState (with_gh d (\<lambda>api.
           ap_SetPRState api (pp_Owner p) (pp_Repo p) (pp_Number p) (st_NewState p))))"

subsection \<open>The registry (handlers.go)\<close>

type_synonym 's registry = "(string \<times> 's handler) list"

definition NewRegistry :: "'s deps \<Rightarrow> 's registry" where
  "NewRegistry d =
     [(''hello'', hello d), (''list_prs'', listPRs d), (''get_pr'', getPR d),
      (''get_file_versions'', getFileVersions d), (''get_threads'', getThreads d),
      (''get_timeline'', getTimeline d), (''get_pending_review'', getPendingReview d),
      (''get_checks'', getChecks d), (''start_review'', startReview d),
      (''submit_review'', submitReview d), (''discard_review'', discardReview d),
      (''post_comment'', postComment d), (''post_issue_comment'', postIssueComment d),
      (''delete_comment'', deleteComment d), (''resolve_thread'', resolveThread d),
      (''set_file_viewed'', setFileViewed d), (''merge_pr'', mergePR d),
      (''set_pr_state'', setPRState d), (''cache_clear'', cacheClear d)]"

section \<open>What the handlers rely on\<close>

fun herr_in :: "(gerr \<Rightarrow> bool) \<Rightarrow> herr \<Rightarrow> bool" where
  "herr_in C (Err e) = C e"
| "herr_in C Panic = False"

lemma good_lift:
  "good I (ends_in C Q) m \<Longrightarrow> good I (ends_in (herr_in C) Q) (lift_err m)"
  unfolding lift_err_def
  by (rule good_mapP, erule good_mono) (auto simp: ends_in_def split: sum.splits)

lemma exec_lift: "exec (lift_err m) s = (case exec m s of (r, s') \<Rightarrow> (map_sum Err id r, s'))"
  by (simp add: lift_err_def exec_mapP)

lemma good_returning:
  "good I (ends_in C (\<lambda>a. Q (r a))) m \<Longrightarrow> good I (ends_in C Q) (returning r m)"
  unfolding returning_def by (erule good_bind) (rule good_retP)

lemma within_returning: "within m n \<Longrightarrow> within (returning r m) n"
  unfolding returning_def using within_bindP [of m n "\<lambda>a. retP (r a)" 0] by (simp add: within_ends)

lemma within_with_gh:
  "(\<And>api. dp_GH d = Some api \<Longrightarrow> within (f api) n) \<Longrightarrow> within (with_gh d f) n"
  by (auto simp: with_gh_def lift_err_def within_ends within_mapP split: option.split)

text \<open>A check decides at once, without an action.\<close>

definition decided :: "('s, 'a) hsem \<Rightarrow> bool" where
  "decided m \<longleftrightarrow> (\<exists>a. m = retP a) \<or> (\<exists>t. m = bad t)"

lemma decided_bind: "decided m \<Longrightarrow> (\<And>a. within (f a) n) \<Longrightarrow> within (bindP m f) n"
  by (auto simp: decided_def bad_def within_ends)

lemma decided_then: "decided m \<Longrightarrow> (\<And>a. decided (f a)) \<Longrightarrow> decided (bindP m f)"
  unfolding decided_def by (elim disjE exE) (auto simp: bad_def)

lemma decided_ends: "decided (retP a)" "decided (bad t)"
  by (auto simp: decided_def)

lemma decided_checks:
  "decided (decode d params fs zero)" "decided (requireRepo owner repo)" "decided (requireReviewID i)"
  "decided (validateAnchor p)"
  by (simp_all add: decode_def requireRepo_def requireReviewID_def validateAnchor_def decided_ends
      split: option.split)

lemma decided_requirePR: "decided (requirePR owner repo n)"
  unfolding requirePR_def by (intro decided_then decided_checks) (simp add: decided_ends)

lemma within_with_pr: "(\<And>p. within (f p) n) \<Longrightarrow> within (with_pr d params fs zero f) n"
  unfolding with_pr_def by (intro decided_bind decided_checks decided_requirePR)

lemma within_bad: "within (bad t) n"
  by (simp add: bad_def within_ends)

lemmas handler_defs =
  listPRs_def getPR_def getFileVersions_def getThreads_def getTimeline_def getPendingReview_def
  getChecks_def startReview_def submitReview_def discardReview_def postComment_def
  postIssueComment_def deleteComment_def resolveThread_def setFileViewed_def mergePR_def
  setPRState_def

text \<open>
  The contract of a GitHub surface, as the handlers and the server use it: whatever other goroutines
  that keep \<open>I\<close> do in between, its operations keep \<open>I\<close>, and their errors satisfy \<open>C\<close>, which holds of
  every error of the closed set.  For the file versions, \<open>V\<close> says what is answered to parameters
  that are \<open>ok\<close>.
\<close>

locale github_api =
  fixes api :: "'s api"
    and C :: "gerr \<Rightarrow> bool"
    and I :: "'s \<Rightarrow> bool"
    and ok :: "getFileVersionsParams \<Rightarrow> bool"
    and V :: "getFileVersionsParams \<Rightarrow> FileVersions \<Rightarrow> bool"
  assumes closed: "closed_err e \<Longrightarrow> C e"
    and files: "ok p \<Longrightarrow> good I (ends_in C (V p))
      (ap_GetFileVersions api (pp_Owner p) (pp_Repo p) (pp_Number p)
        (gf_Path p) (gf_PreviousPath p) (gf_Base p) (gf_Head p))"
    and ops:
      "good I (ends_in C any) (ap_ListPRs api o1 r1 f)" "good I (ends_in C any) (ap_GetPR api o1 r1 n)"
      "good I (ends_in C any) (ap_HeadSHA api o1 r1 n)"
      "good I (ends_in C any) (ap_GetThreads api o1 r1 n)" "good I (ends_in C any) (ap_GetTimeline api o1 r1 n)"
      "good I (ends_in C any) (ap_GetPendingReview api o1 r1 n)" "good I (ends_in C any) (ap_GetChecks api o1 r1 n)"
      "good I (ends_in C any) (ap_StartReview api o1 r1 n)" "good I (ends_in C any) (ap_SubmitReview api i ev b)"
      "good I (ends_in C any) (ap_DiscardReview api i)" "good I (ends_in C any) (ap_PostComment api o1 r1 n inp)"
      "good I (ends_in C any) (ap_PostIssueComment api o1 r1 n b)" "good I (ends_in C any) (ap_DeleteComment api i)"
      "good I (ends_in C any) (ap_ResolveThread api i v)" "good I (ends_in C any) (ap_SetFileViewed api o1 r1 n p2 v)"
      "good I (ends_in C any) (ap_MergePR api o1 r1 n m v sj b)" "good I (ends_in C any) (ap_SetPRState api o1 r1 n b)"
    and clear: "ap_ClearCache api = Some clr \<Longrightarrow> I s \<Longrightarrow> I (clr s)"
begin

lemma good_bad: "good I (ends_in (herr_in C) Q) (bad m)"
  by (simp add: bad_def failP_def closed)

lemma good_decode:
  "good I (ends_in (herr_in C) (\<lambda>p. decode d params fs zero = retP p)) (decode d params fs zero)"
  by (auto simp: decode_def good_bad retP_def split: option.split)

lemma good_check: "decided m \<Longrightarrow> good I (ends_in (herr_in C) any) m"
  by (auto simp: decided_def good_bad good_retP)

lemma good_with_gh:
  "dp_GH d = Some api \<Longrightarrow> good I (ends_in C Q) (f api) \<Longrightarrow> good I (ends_in (herr_in C) Q) (with_gh d f)"
  by (simp add: with_gh_def good_lift)

lemma good_guardHead:
  "dp_GH d = Some api \<Longrightarrow> good I (ends_in (herr_in C) any) (guardHead d owner repo n e)"
  unfolding guardHead_def
  by (intro good_if good_retP good_bindP good_with_gh ops good_failP) (simp_all add: closed)

lemma good_with_pr:
  "(\<And>p. good I (ends_in (herr_in C) Q) (f p)) \<Longrightarrow> good I (ends_in (herr_in C) Q) (with_pr d params fs zero f)"
  unfolding with_pr_def
  by (intro good_bindP good_check decided_checks decided_requirePR)

lemma good_hello: "good I (ends_in (herr_in C) any) (hello d params)"
  unfolding hello_def by (intro good_bindP good_check decided_checks good_if decided_ends)

lemma good_cacheClear: "dp_GH d = Some api \<Longrightarrow> good I (ends_in (herr_in C) any) (cacheClear d params)"
  by (auto simp: cacheClear_def clear retP_def split: option.split)

text \<open>The parameters of \<open>get_file_versions\<close>, as decoded.\<close>

lemma good_getFileVersions:
  assumes gh: "dp_GH d = Some api"
    and oks: "\<And>p. decode d params getFileVersionsParams_fields zero_getFileVersions = (retP p :: ('s, _) hsem) \<Longrightarrow> ok p"
  shows "good I (ends_in (herr_in C) (\<lambda>v. \<exists>p fv. v = RFileVersions fv \<and> V p fv \<and>
      decode d params getFileVersionsParams_fields zero_getFileVersions = (retP p :: ('s, _) hsem)))
    (getFileVersions d params)"
  unfolding getFileVersions_def with_pr_def
proof (rule good_bind [OF good_decode])
  fix p :: getFileVersionsParams
  assume p: "decode d params getFileVersionsParams_fields zero_getFileVersions = (retP p :: ('s, _) hsem)"
  show "good I (ends_in (herr_in C) (\<lambda>v. \<exists>p fv. v = RFileVersions fv \<and> V p fv \<and>
      decode d params getFileVersionsParams_fields zero_getFileVersions = (retP p :: ('s, _) hsem)))
    (bindP (requirePR (pp_Owner p) (pp_Repo p) (pp_Number p)) (\<lambda>_.
       if gf_Path p = [] then bad ''path is required''
       else returning RFileVersions (with_gh d (\<lambda>api. ap_GetFileVersions api (pp_Owner p) (pp_Repo p)
             (pp_Number p) (gf_Path p) (gf_PreviousPath p) (gf_Base p) (gf_Head p)))))"
    by (intro good_bindP good_check decided_requirePR good_if good_bad good_returning good_with_gh gh
        good_mono [OF files [OF oks [OF p]]]) (auto simp: ends_in_def p split: sum.splits)
qed

lemma registry_good:
  assumes gh: "dp_GH d = Some api"
  shows "list_all (\<lambda>(name, h). name \<noteq> ''get_file_versions'' \<longrightarrow>
    (\<forall>params. good I (ends_in (herr_in C) any) (h params))) (NewRegistry d)"
  unfolding NewRegistry_def list.pred_inject prod.case handler_defs
  by (intro conjI impI allI TrueI good_hello good_cacheClear [OF gh] good_with_pr good_guardHead [OF gh]
      good_returning good_with_gh [OF gh] ops good_bindP good_if good_option good_retP good_bad
      good_check [OF decided_checks(1)] good_check [OF decided_checks(2)]
      good_check [OF decided_checks(3)] good_check [OF decided_checks(4)])
    simp_all

lemma handler_good:
  assumes gh: "dp_GH d = Some api" and h: "(name, h) \<in> set (NewRegistry d)"
    and files: "\<And>p. name = ''get_file_versions'' \<Longrightarrow>
      decode d params getFileVersionsParams_fields zero_getFileVersions = (retP p :: ('s, _) hsem) \<Longrightarrow> ok p"
  shows "good I (ends_in (herr_in C) any) (h params)"
proof (cases "name = ''get_file_versions''")
  case True
  with h have "h = getFileVersions d" by (simp add: NewRegistry_def)
  with good_mono [OF good_getFileVersions [OF gh files]] True show ?thesis
    by (auto simp: ends_in_def split: sum.splits)
next
  case False
  with h registry_good [OF gh] show ?thesis by (auto simp: list_all_iff)
qed

end

lemma list_all_nil: "list_all P []"
  by simp

text \<open>A surface whose operations take at most \<open>k\<close> actions.\<close>

locale bounded_api =
  fixes api :: "'s api" and k :: nat
  assumes bounds:
      "within (ap_ListPRs api o1 r1 f) k" "within (ap_GetPR api o1 r1 n) k"
      "within (ap_GetFileVersions api o1 r1 n p bp b h) k" "within (ap_HeadSHA api o1 r1 n) 1"
      "within (ap_GetThreads api o1 r1 n) k" "within (ap_GetTimeline api o1 r1 n) k"
      "within (ap_GetPendingReview api o1 r1 n) k" "within (ap_GetChecks api o1 r1 n) k"
      "within (ap_StartReview api o1 r1 n) k" "within (ap_SubmitReview api i ev b) k"
      "within (ap_DiscardReview api i) k" "within (ap_PostComment api o1 r1 n inp) k"
      "within (ap_PostIssueComment api o1 r1 n b) k" "within (ap_DeleteComment api i) k"
      "within (ap_ResolveThread api i v) k" "within (ap_SetFileViewed api o1 r1 n p v) k"
      "within (ap_MergePR api o1 r1 n m v sj b) k" "within (ap_SetPRState api o1 r1 n b) k"
begin

lemma within_gh: "dp_GH d = Some api \<Longrightarrow> within (f api) k \<Longrightarrow> within (with_gh d f) (1 + k)"
  by (rule within_with_gh) (auto intro: within_mono)

lemma within_guardHead:
  assumes gh: "dp_GH d = Some api" and rest: "within (f api) k"
  shows "within (bindP (guardHead d owner repo n e) (\<lambda>_. returning r (with_gh d f))) (1 + k)"
proof (rule within_bindP)
  have head: "within (with_gh d (\<lambda>api. ap_HeadSHA api owner repo n)) 1"
    using gh bounds(4) by (auto intro: within_with_gh)
  have "within (bindP (with_gh d (\<lambda>api. ap_HeadSHA api owner repo n)) (\<lambda>head.
          if head \<noteq> e then
            failP (Err (newError CodeConflict
              ''the PR head moved since the review was anchored; refresh and retry''))
          else retP ())) (1 + 0)"
    by (intro within_bindP head within_if within_ends)
  then show "within (guardHead d owner repo n e) 1"
    by (simp add: guardHead_def within_ends)
  show "within (returning r (with_gh d f)) k"
    by (intro within_returning within_with_gh) (use gh rest in simp)
qed

lemma within_hello: "within (hello d params) n"
  unfolding hello_def by (intro decided_bind decided_checks within_if within_bad within_ends)

lemma within_cacheClear: "within (cacheClear d params) (1 + n)"
  by (auto simp: cacheClear_def within_ends split: option.split)

lemma registry_within:
  assumes gh: "dp_GH d = Some api"
  shows "list_all (\<lambda>(name, h). \<forall>params. within (h params) (1 + k)) (NewRegistry d)"
proof -
  have anchor: "decided (if c then validateAnchor p else retP ())" for c p
    by (simp add: decided_checks decided_ends)
  show ?thesis
    unfolding NewRegistry_def list.pred_inject prod.case handler_defs
    by (intro list_all_nil conjI allI within_hello within_cacheClear within_with_pr within_guardHead [OF gh]
        within_returning within_gh [OF gh] bounds decided_bind decided_checks anchor within_bad within_if
        within_option)
qed

end

section \<open>The client meets the contract\<close>

text \<open>The registry \<open>main\<close> builds, over a client with whatever the token resolution found.\<close>

abbreviation main_registry ::
  "'w env \<Rightarrow> auth_env \<Rightarrow> 'v \<Rightarrow> (string list \<Rightarrow> json \<Rightarrow> string) \<Rightarrow> 'w client_st registry" where
  "main_registry env ae w0 je \<equiv>
     NewRegistry \<lparr>dp_GH = Some (client_api env (fst (startup ae w0))), dp_json_err = je\<rparr>"

lemma client_inv_clear: "client_inv s \<Longrightarrow> client_inv (ClearCache s)"
  by (auto simp: ClearCache_def client_inv_def cache_ok_clear maxBlobBytes_def) (simp add: clearAll_def)

interpretation client: github_api "client_api env (fst (startup ae w0))" closed_err client_inv any "\<lambda>_. any"
  for env :: "'w env" and ae and w0 :: 'v
  by unfold_locales
    (auto simp: client_api_def client_rely.good_client good_GetFileVersions client_inv_clear)

interpretation client_bound: bounded_api "client_api env cfg" methodActions
  for env :: "'w env" and cfg
  by unfold_locales (simp_all add: client_api_def within_client within_HeadSHA [simplified])

end
