(* ===== verification/Frames.thy ===== *)
theory Frames
  imports Protocol
begin

text \<open>
  The reading side of \<open>internal/server/server.go\<close>: \<open>readFrame\<close> and \<open>discardFrame\<close> over a
  \<open>bufio.Reader\<close>, and the loop of \<open>Run\<close> that reads frames until the input ends.  The reader is
  the bytes still to come and the error \<open>Read\<close> reports once they are used up; the size of its
  buffer decides where \<open>ReadSlice\<close> cuts a long line and nothing else.
\<close>

definition nl :: char where "nl = CHR 0x0A"

datatype rd_err = EOF | RdErr string

record reader =
  rd_rest :: string
  rd_fail :: rd_err

section \<open>bufio.Reader.ReadSlice\<close>

datatype slice_err = SliceOk | BufferFull | SliceErr rd_err

text \<open>\<open>NewReaderSize\<close> makes the buffer at least sixteen bytes.\<close>

definition buf_size :: "nat \<Rightarrow> nat" where
  "buf_size n = max n 16"

definition read_slice :: "nat \<Rightarrow> reader \<Rightarrow> string \<times> slice_err \<times> reader" where
  "read_slice n r =
     (let s = rd_rest r; w = takeWhile (\<lambda>c. c \<noteq> nl) s in
      if length w < buf_size n \<and> length w < length s
      then (w @ [nl], SliceOk, r\<lparr>rd_rest := drop (Suc (length w)) s\<rparr>)
      else if buf_size n \<le> length s
      then (take (buf_size n) s, BufferFull, r\<lparr>rd_rest := drop (buf_size n) s\<rparr>)
      else (s, SliceErr (rd_fail r), r\<lparr>rd_rest := []\<rparr>))"

fun slice_error :: "slice_err \<Rightarrow> rd_err option" where
  "slice_error SliceOk = None"
| "slice_error BufferFull = None"
| "slice_error (SliceErr e) = Some e"

lemma buf_size_pos [simp]: "0 < buf_size n"
  by (simp add: buf_size_def)

lemma read_slice_full:
  assumes "(c, BufferFull, r') = read_slice n r"
  shows "length (rd_rest r') < length (rd_rest r)"
proof -
  have "buf_size n \<le> length (rd_rest r)" and "rd_rest r' = drop (buf_size n) (rd_rest r)"
    using assms by (auto simp: read_slice_def Let_def split: if_splits)
  moreover have "0 < buf_size n" by simp
  ultimately show ?thesis by (metis diff_less length_drop less_le_trans)
qed

section \<open>readFrame and discardFrame\<close>

definition maxLine :: nat where "maxLine = 16 * 1024 * 1024"
definition readBuf :: nat where "readBuf = 64 * 1024"

function discardFrame :: "nat \<Rightarrow> reader \<Rightarrow> rd_err option \<times> reader" where
  "discardFrame n r =
     (case read_slice n r of (chunk, e, r') \<Rightarrow>
        if e \<noteq> BufferFull then (slice_error e, r') else discardFrame n r')"
  by pat_completeness auto
termination
  by (relation "measure (\<lambda>(n, r). length (rd_rest r))") (auto dest: read_slice_full)

text \<open>\<open>bytes.TrimSuffix(chunk, "\n")\<close>.\<close>

definition trim_nl :: "string \<Rightarrow> string" where
  "trim_nl s = (if s \<noteq> [] \<and> last s = nl then butlast s else s)"

text \<open>
  One round of the loop per call; \<open>line\<close> is what earlier rounds accumulated.  The result is the
  frame, whether it was oversized, and the reader's error.
\<close>

function readFrame_loop ::
  "nat \<Rightarrow> nat \<Rightarrow> string \<Rightarrow> reader \<Rightarrow> (string \<times> bool \<times> rd_err option) \<times> reader" where
  "readFrame_loop n cap line r =
     (case read_slice n r of (chunk, e, r') \<Rightarrow>
        let full = (e = BufferFull);
            line' = line @ (if full then chunk else trim_nl chunk)
        in if length line' > cap then
             (if full then (case discardFrame n r' of (e', r'') \<Rightarrow> (([], True, e'), r''))
              else (([], True, slice_error e), r'))
           else if \<not> full then ((line', False, slice_error e), r')
           else readFrame_loop n cap line' r')"
  by pat_completeness auto
termination
  by (relation "measure (\<lambda>(n, cap, line, r). length (rd_rest r))") (auto dest: read_slice_full)

declare discardFrame.simps [simp del] readFrame_loop.simps [simp del]

definition readFrame_at :: "nat \<Rightarrow> nat \<Rightarrow> reader \<Rightarrow> (string \<times> bool \<times> rd_err option) \<times> reader" where
  "readFrame_at n cap r = readFrame_loop n cap [] r"

definition readFrame :: "reader \<Rightarrow> (string \<times> bool \<times> rd_err option) \<times> reader" where
  "readFrame r = readFrame_at readBuf maxLine r"

text \<open>What one call does, in terms of the line the input goes on with.\<close>

definition next_line :: "string \<Rightarrow> string" where
  "next_line s = takeWhile (\<lambda>c. c \<noteq> nl) s"

definition ends_in_nl :: "string \<Rightarrow> bool" where
  "ends_in_nl s \<longleftrightarrow> length (next_line s) < length s"

definition after_line :: "string \<Rightarrow> string" where
  "after_line s = drop (Suc (length (next_line s))) s"

lemma next_line_long:
  assumes "\<not> (length (next_line s) < k \<and> length (next_line s) < length s)" and "k \<le> length s"
  shows "next_line s = take k s @ next_line (drop k s)"
    and "ends_in_nl s = ends_in_nl (drop k s)"
    and "after_line s = after_line (drop k s)"
proof -
  have k: "k \<le> length (next_line s)" using assms by linarith
  have tk: "take k (next_line s) = take k s"
    unfolding next_line_def using k
    by (metis append_take_drop_id next_line_def take_append takeWhile_dropWhile_id
        diff_is_0_eq' take_0 append_Nil2)
  have "\<forall>c \<in> set (take k s). c \<noteq> nl"
    unfolding tk [symmetric] next_line_def by (metis in_set_takeD set_takeWhileD)
  then have "takeWhile (\<lambda>c. c \<noteq> nl) (take k s @ drop k s) =
      take k s @ takeWhile (\<lambda>c. c \<noteq> nl) (drop k s)"
    by (intro takeWhile_append2) blast
  then show nxt: "next_line s = take k s @ next_line (drop k s)"
    by (simp add: next_line_def)
  then have "length (next_line s) = k + length (next_line (drop k s))"
    using assms(2) by simp
  then show "ends_in_nl s = ends_in_nl (drop k s)" "after_line s = after_line (drop k s)"
    using assms(2) by (auto simp: ends_in_nl_def after_line_def add.commute)
qed

lemma not_ends: "\<not> ends_in_nl s \<Longrightarrow> next_line s = s"
  unfolding ends_in_nl_def next_line_def
  by (metis length_takeWhile_le linorder_le_less_linear takeWhile_eq_all_conv
      le_neq_implies_less takeWhile_eq_take take_all)

definition line_error :: "reader \<Rightarrow> rd_err option" where
  "line_error r = (if ends_in_nl (rd_rest r) then None else Some (rd_fail r))"

definition after_frame :: "reader \<Rightarrow> reader" where
  "after_frame r = r\<lparr>rd_rest := after_line (rd_rest r)\<rparr>"


lemma read_slice_cases:
  obtains (found) "length (next_line (rd_rest r)) < length (rd_rest r)"
      and "read_slice n r = (next_line (rd_rest r) @ [nl], SliceOk, after_frame r)"
  | (full) k where "0 < k" and "k \<le> length (rd_rest r)"
      and "next_line (rd_rest r) = take k (rd_rest r) @ next_line (drop k (rd_rest r))"
      and "ends_in_nl (rd_rest r) = ends_in_nl (drop k (rd_rest r))"
      and "after_line (rd_rest r) = after_line (drop k (rd_rest r))"
      and "read_slice n r = (take k (rd_rest r), BufferFull, r\<lparr>rd_rest := drop k (rd_rest r)\<rparr>)"
  | (ended) "\<not> ends_in_nl (rd_rest r)"
      and "read_slice n r = (rd_rest r, SliceErr (rd_fail r), r\<lparr>rd_rest := []\<rparr>)"
proof -
  let ?s = "rd_rest r" and ?k = "buf_size n"
  have le: "length (next_line ?s) \<le> length ?s" by (simp add: next_line_def length_takeWhile_le)
  consider (a) "length (next_line ?s) < ?k \<and> length (next_line ?s) < length ?s"
    | (b) "\<not> (length (next_line ?s) < ?k \<and> length (next_line ?s) < length ?s)" "?k \<le> length ?s"
    | (c) "\<not> length (next_line ?s) < length ?s" "\<not> ?k \<le> length ?s"
    using le by linarith
  then show ?thesis
  proof cases
    case a
    then have "read_slice n r = (next_line ?s @ [nl], SliceOk, after_frame r)"
      by (simp add: read_slice_def next_line_def after_frame_def after_line_def Let_def)
    with a show ?thesis by (blast intro: found)
  next
    case b
    then have "read_slice n r = (take ?k ?s, BufferFull, r\<lparr>rd_rest := drop ?k ?s\<rparr>)"
      by (auto simp: read_slice_def next_line_def Let_def)
    with next_line_long [OF b] b(2) show ?thesis by (intro full [of ?k]) auto
  next
    case c
    then have "read_slice n r = (?s, SliceErr (rd_fail r), r\<lparr>rd_rest := []\<rparr>)"
      by (auto simp: read_slice_def next_line_def Let_def)
    with c show ?thesis by (intro ended) (auto simp: ends_in_nl_def)
  qed
qed

lemma after_line_ended: "\<not> ends_in_nl s \<Longrightarrow> after_line s = []"
  by (simp add: after_line_def ends_in_nl_def)

lemma discardFrame_spec: "discardFrame n r = (line_error r, after_frame r)"
proof (induction "length (rd_rest r)" arbitrary: r rule: less_induct)
  case less
  show ?case
  proof (cases n r rule: read_slice_cases)
    case found
    then show ?thesis by (subst discardFrame.simps) (simp add: line_error_def ends_in_nl_def)
  next
    case (full k)
    with less [of "r\<lparr>rd_rest := drop k (rd_rest r)\<rparr>"] show ?thesis
      by (subst discardFrame.simps) (simp add: line_error_def after_frame_def)
  next
    case ended
    then show ?thesis
      by (subst discardFrame.simps) (simp add: line_error_def after_frame_def after_line_ended)
  qed
qed

lemma trim_nl_simps [simp]: "trim_nl (w @ [nl]) = w"
  by (simp add: trim_nl_def)

lemma trim_nl_ended: "\<not> ends_in_nl s \<Longrightarrow> trim_nl s = s"
proof -
  assume "\<not> ends_in_nl s"
  then have "takeWhile (\<lambda>c. c \<noteq> nl) s = s" using not_ends by (simp add: next_line_def)
  then have "\<forall>c \<in> set s. c \<noteq> nl" by (metis set_takeWhileD)
  then show ?thesis by (auto simp: trim_nl_def)
qed

lemma readFrame_loop_spec:
  "length line \<le> cap \<Longrightarrow>
    readFrame_loop n cap line r =
      ((if length (line @ next_line (rd_rest r)) > cap then ([], True, line_error r)
        else (line @ next_line (rd_rest r), False, line_error r)), after_frame r)"
proof (induction "length (rd_rest r)" arbitrary: line r rule: less_induct)
  case less
  show ?case
  proof (cases n r rule: read_slice_cases)
    case found
    then show ?thesis
      by (subst readFrame_loop.simps) (simp add: line_error_def ends_in_nl_def)
  next
    case (full k)
    let ?r = "r\<lparr>rd_rest := drop k (rd_rest r)\<rparr>"
    have same: "line_error ?r = line_error r" "after_frame ?r = after_frame r"
      using full by (simp_all add: line_error_def after_frame_def)
    show ?thesis
    proof (cases "length (line @ take k (rd_rest r)) > cap")
      case True
      then show ?thesis
        using full same
        by (subst readFrame_loop.simps) (simp add: discardFrame_spec Let_def)
    next
      case False
      with full have "readFrame_loop n cap line r =
          readFrame_loop n cap (line @ take k (rd_rest r)) ?r"
        by (subst readFrame_loop.simps) (simp add: Let_def)
      also have "\<dots> = ((if length ((line @ take k (rd_rest r)) @ next_line (rd_rest ?r)) > cap
            then ([], True, line_error ?r)
            else ((line @ take k (rd_rest r)) @ next_line (rd_rest ?r), False, line_error ?r)),
          after_frame ?r)"
        by (rule less.hyps) (use False full in auto)
      finally show ?thesis using full(3) same by simp
    qed
  next
    case ended
    then show ?thesis
      by (subst readFrame_loop.simps)
        (simp add: line_error_def after_frame_def after_line_ended trim_nl_ended not_ends)
  qed
qed

section \<open>The reading loop of Run\<close>

text \<open>What the loop hands on for a frame: an oversized one is answered, an empty line is skipped.\<close>

datatype frame_event = Oversized | Line string

lemma readFrame_at_spec:
  "readFrame_at n cap r =
     ((if length (next_line (rd_rest r)) > cap then ([], True, line_error r)
       else (next_line (rd_rest r), False, line_error r)), after_frame r)"
  by (simp add: readFrame_at_def readFrame_loop_spec)

function read_events :: "nat \<Rightarrow> nat \<Rightarrow> reader \<Rightarrow> frame_event list \<times> rd_err" where
  "read_events n cap r =
     (case readFrame_at n cap r of ((line, over, e), r') \<Rightarrow>
        let ev = (if over then [Oversized] else []) @ (if line \<noteq> [] then [Line line] else [])
        in (case e of
              Some err \<Rightarrow> (ev, err)
            | None \<Rightarrow> (case read_events n cap r' of (evs, err) \<Rightarrow> (ev @ evs, err))))"
  by pat_completeness auto
termination
proof (relation "measure (\<lambda>(n, cap, r). length (rd_rest r))", goal_cases)
  case 1
  then show ?case by simp
next
  case prems: (2 n cap r x r' line y over e ev)
  from prems have "line_error r = None \<and> r' = after_frame r"
    by (auto simp: readFrame_at_spec split: if_splits)
  then show ?case
    by (auto simp: line_error_def ends_in_nl_def after_frame_def after_line_def split: if_splits)
qed

declare read_events.simps [simp del]

definition segment_event :: "nat \<Rightarrow> string \<Rightarrow> frame_event list" where
  "segment_event cap w = (if length w > cap then [Oversized] else if w = [] then [] else [Line w])"

lemma read_events_step:
  "read_events n cap r =
     (if ends_in_nl (rd_rest r) then
        (case read_events n cap (after_frame r) of
           (evs, err) \<Rightarrow> (segment_event cap (next_line (rd_rest r)) @ evs, err))
      else (segment_event cap (next_line (rd_rest r)), rd_fail r))"
  by (subst read_events.simps)
    (simp add: readFrame_at_spec line_error_def segment_event_def split: prod.split)

lemma ends_in_nl_split:
  assumes "ends_in_nl s"
  shows "s = next_line s @ nl # after_line s"
proof -
  let ?k = "length (next_line s)"
  have "?k < length s" using assms by (simp add: ends_in_nl_def)
  then have "s = take ?k s @ s ! ?k # drop (Suc ?k) s" by (rule id_take_nth_drop)
  moreover have "take ?k s = next_line s" by (simp add: next_line_def takeWhile_eq_take [symmetric])
  moreover have "s ! ?k = nl"
    using \<open>?k < length s\<close> nth_length_takeWhile [of "\<lambda>c. c \<noteq> nl" s] by (simp add: next_line_def)
  ultimately show ?thesis by (simp add: after_line_def)
qed

lemma read_events_segments:
  "read_events n cap r =
     (concat (map (segment_event cap) (split_on nl (rd_rest r))), rd_fail r)"
proof (induction "length (rd_rest r)" arbitrary: r rule: less_induct)
  case less
  let ?s = "rd_rest r" and ?w = "next_line (rd_rest r)"
  have nonl: "nl \<notin> set ?w" by (auto simp: next_line_def dest: set_takeWhileD)
  show ?case
  proof (cases "ends_in_nl ?s")
    case True
    note s = ends_in_nl_split [OF True]
    have "length (after_line ?s) < length ?s" by (subst (2) s) simp
    then have "read_events n cap (after_frame r) =
        (concat (map (segment_event cap) (split_on nl (after_line ?s))), rd_fail r)"
      using less [of "after_frame r"] by (simp add: after_frame_def)
    moreover have "split_on nl ?s = ?w # split_on nl (after_line ?s)"
      by (subst s) (rule split_on_append [OF nonl])
    ultimately show ?thesis
      using True by (subst read_events_step) simp
  next
    case False
    then have w: "?w = ?s" by (rule not_ends)
    with nonl have "split_on nl ?s = [?s]" by (simp add: split_on_single)
    with False w show ?thesis by (subst read_events_step) simp
  qed
qed

end
