(* ===== verification/Server.thy ===== *)
theory Server
  imports Handlers Frames "HOL-Library.Multiset"
begin

text \<open>
  \<open>internal/server\<close> and \<open>cmd/differ-sidecar\<close>: one request to one response (\<open>run\<close>), the routing of a
  frame (\<open>dispatch\<close>), and \<open>Run\<close> as a step relation over its goroutines: the reader, a goroutine per
  request in flight, and the writer that alone owns the output, with the bounded channel between
  them.  A step is one action of one goroutine: an action on the shared state of the GitHub client,
  a line of the log, a send or a receive.  The steps interleave freely, so two handlers may
  interleave between any two of their actions; a send blocks while the channel is full.
\<close>

section \<open>One request (dispatch.go)\<close>

definition toRPCError :: "gerr \<Rightarrow> rpc_error" where
  "toRPCError err =
     (case err of
        Coded perr \<Rightarrow>
          \<lparr>re_Code = pe_Code perr, re_Message = pe_Message perr, re_RetryAfter = pe_RetryAfter perr\<rparr>
      | Plain t \<Rightarrow> \<lparr>re_Code = CodeInternal, re_Message = ''internal error'', re_RetryAfter = 0\<rparr>)"

text \<open>What the deferred \<open>recover\<close> leaves when the handler panics.\<close>

definition panic_error :: rpc_error where
  "panic_error = \<lparr>re_Code = CodeInternal, re_Message = ''internal error'', re_RetryAfter = 0\<rparr>"

definition fail_response :: "int \<Rightarrow> rpc_error \<Rightarrow> 'r response" where
  "fail_response i e = \<lparr>rs_ID = i, rs_Result = None, rs_Error = Some e\<rparr>"

definition badRequest :: "int \<Rightarrow> string \<Rightarrow> 'r response" where
  "badRequest i msg =
     fail_response i \<lparr>re_Code = CodeBadRequest, re_Message = msg, re_RetryAfter = 0\<rparr>"

definition outcome :: "'r response \<Rightarrow> string" where
  "outcome resp = (case rs_Error resp of Some e \<Rightarrow> re_Code e | None \<Rightarrow> ''ok'')"

text \<open>An error's text, as Go's \<open>Error\<close> gives it, and the lines \<open>run\<close> logs, their times and stacks left
  out.\<close>

fun Error_text :: "gerr \<Rightarrow> string" where
  "Error_text (Coded perr) = pe_Message perr"
| "Error_text (Plain t) = t"

definition request_line :: "request \<Rightarrow> 'r response \<Rightarrow> log_entry" where
  "request_line req resp =
     \<lparr>lg_Level = LevelDebug, lg_Msg = ''request'',
      lg_Attrs = [(''method'', rq_Method req), (''id'', itoa (rq_ID req)), (''code'', outcome resp)]\<rparr>"

definition error_line :: "request \<Rightarrow> gerr \<Rightarrow> log_entry" where
  "error_line req err =
     \<lparr>lg_Level = LevelError, lg_Msg = ''handler error'',
      lg_Attrs = [(''method'', rq_Method req), (''err'', Error_text err)]\<rparr>"

definition panic_line :: "request \<Rightarrow> log_entry" where
  "panic_line req =
     \<lparr>lg_Level = LevelError, lg_Msg = ''handler panic'',
      lg_Attrs = [(''method'', rq_Method req),
        (''panic'', ''runtime error: invalid memory address or nil pointer dereference'')]\<rparr>"

text \<open>The response to what a handler ended in, and the lines logged before it is sent.\<close>

definition settle :: "request \<Rightarrow> herr + result_val \<Rightarrow> result_val response \<times> log_entry list" where
  "settle req r =
     (case r of
        Inl (Err e) \<Rightarrow>
          (fail_response (rq_ID req) (toRPCError e),
           if re_Code (toRPCError e) = CodeInternal then [error_line req e] else [])
      | Inl Panic \<Rightarrow> (fail_response (rq_ID req) panic_error, [panic_line req])
      | Inr v \<Rightarrow> (\<lparr>rs_ID = rq_ID req, rs_Result = Some v, rs_Error = None\<rparr>, []))"

definition deferred :: "request \<Rightarrow> 'r response \<times> log_entry list \<Rightarrow> 'r response \<times> log_entry list" where
  "deferred req x = (case x of (resp, lines) \<Rightarrow> (resp, lines @ [request_line req resp]))"

type_synonym ('s, 'r) goroutine = "('s, 'r response \<times> log_entry list) prog"

type_synonym ('s, 'r) runner = "request \<Rightarrow> ('s, 'r) goroutine"

definition run :: "'s registry \<Rightarrow> ('s, result_val) runner" where
  "run reg req =
     (case map_of reg (rq_Method req) of
        None \<Rightarrow> Ret (deferred req (badRequest (rq_ID req) (''unknown method: '' @ rq_Method req), []))
      | Some h \<Rightarrow> mapP (\<lambda>r. deferred req (settle req r)) (h (rq_Params req)))"

text \<open>What a frame makes the reader do: send an answer itself, run the handshake, or start a
  goroutine.\<close>

datatype 'r action = Emit "'r response" | Inline request | Spawn request

definition dispatch :: "request \<Rightarrow> bool \<Rightarrow> 'r action" where
  "dispatch req helloOK =
     (if rq_Method req = ''hello'' then Inline req
      else if \<not> helloOK then Emit (badRequest (rq_ID req) ''handshake required: send hello first'')
      else Spawn req)"

section \<open>Run (server.go)\<close>

definition on_frame :: "frame_event \<Rightarrow> bool \<Rightarrow> 'r action" where
  "on_frame f helloOK =
     (case f of
        Oversized \<Rightarrow> Emit (badRequest 0 ''request exceeds the 16777216 byte frame limit'')
      | Line line \<Rightarrow>
          (case decode_request line of
             None \<Rightarrow> Emit (badRequest 0 ''invalid JSON'')
           | Some req \<Rightarrow> dispatch req helloOK))"

text \<open>A request being run: what is left of its goroutine.\<close>

type_synonym ('s, 'r) job = "request \<times> ('s, 'r) goroutine"

text \<open>One action of a goroutine: on the shared state, or a line of the log.  None is left when its
  response is ready to be sent.\<close>

fun advance :: "('s, 'r) goroutine \<Rightarrow> 's \<Rightarrow> (('s, 'r) goroutine \<times> 's \<times> log_entry list) option" where
  "advance (Act u k) s = Some (k s, u s, [])"
| "advance (Ret (r, e # es)) s = Some (Ret (r, es), s, [e])"
| "advance (Ret (r, [])) s = None"

text \<open>Where the reader's goroutine is: reading, in the handshake, on a send, in \<open>inflight.Wait\<close>, past
  \<open>close\<close>, returned.\<close>

datatype ('s, 'r) reader_pc =
    Reading
  | Handling "('s, 'r) job"
  | Sending "'r response"
  | Waiting
  | Closed
  | Returned

record ('s, 'r) server =
  sv_frames :: "frame_event list"
  sv_pc :: "('s, 'r) reader_pc"
  sv_helloOK :: bool
  sv_running :: "('s, 'r) job list"
  sv_blocked :: "'r response list"
  sv_outbound :: "'r response list"
  sv_written :: "'r response list"
  sv_gh :: 's
  sv_log :: "log_entry list"

definition outbound_cap :: nat where "outbound_cap = 64"

definition Run_init :: "frame_event list \<Rightarrow> 's \<Rightarrow> ('s, 'r) server" where
  "Run_init frames s =
     \<lparr>sv_frames = frames, sv_pc = Reading, sv_helloOK = False, sv_running = [], sv_blocked = [],
      sv_outbound = [], sv_written = [], sv_gh = s, sv_log = []\<rparr>"

inductive step :: "('s, 'r) runner \<Rightarrow> ('s, 'r) server \<Rightarrow> ('s, 'r) server \<Rightarrow> bool" for rn where
  answer: "sv_pc st = Reading \<Longrightarrow> sv_frames st = f # fs \<Longrightarrow>
     on_frame f (sv_helloOK st) = Emit r \<Longrightarrow>
     step rn st (st\<lparr>sv_frames := fs, sv_pc := Sending r\<rparr>)"
| greet: "sv_pc st = Reading \<Longrightarrow> sv_frames st = f # fs \<Longrightarrow>
     on_frame f (sv_helloOK st) = (Inline req :: 'r action) \<Longrightarrow>
     step rn st (st\<lparr>sv_frames := fs, sv_pc := Handling (req, rn req)\<rparr>)"
| spawn: "sv_pc st = Reading \<Longrightarrow> sv_frames st = f # fs \<Longrightarrow>
     on_frame f (sv_helloOK st) = (Spawn req :: 'r action) \<Longrightarrow>
     step rn st (st\<lparr>sv_frames := fs, sv_running := sv_running st @ [(req, rn req)]\<rparr>)"
| greeting: "sv_pc st = Handling (req, p) \<Longrightarrow> advance p (sv_gh st) = Some (p', s, es) \<Longrightarrow>
     step rn st (st\<lparr>sv_pc := Handling (req, p'), sv_gh := s, sv_log := sv_log st @ es\<rparr>)"
| greeted: "sv_pc st = Handling (req, Ret (r, [])) \<Longrightarrow>
     step rn st (st\<lparr>sv_pc := Sending r, sv_helloOK := sv_helloOK st \<or> rs_Error r = None\<rparr>)"
| send: "sv_pc st = Sending r \<Longrightarrow> length (sv_outbound st) < outbound_cap \<Longrightarrow>
     step rn st (st\<lparr>sv_pc := Reading, sv_outbound := sv_outbound st @ [r]\<rparr>)"
| work: "sv_running st = xs @ (req, p) # ys \<Longrightarrow> advance p (sv_gh st) = Some (p', s, es) \<Longrightarrow>
     step rn st (st\<lparr>sv_running := xs @ (req, p') # ys, sv_gh := s, sv_log := sv_log st @ es\<rparr>)"
| finish: "sv_running st = xs @ (req, Ret (r, [])) # ys \<Longrightarrow>
     step rn st (st\<lparr>sv_running := xs @ ys, sv_blocked := sv_blocked st @ [r]\<rparr>)"
| report: "sv_blocked st = xs @ r # ys \<Longrightarrow> length (sv_outbound st) < outbound_cap \<Longrightarrow>
     step rn st (st\<lparr>sv_blocked := xs @ ys, sv_outbound := sv_outbound st @ [r]\<rparr>)"
| flush: "sv_outbound st = r # rs \<Longrightarrow>
     step rn st (st\<lparr>sv_outbound := rs, sv_written := sv_written st @ [r]\<rparr>)"
| ended: "sv_pc st = Reading \<Longrightarrow> sv_frames st = [] \<Longrightarrow> step rn st (st\<lparr>sv_pc := Waiting\<rparr>)"
| close: "sv_pc st = Waiting \<Longrightarrow> sv_running st = [] \<Longrightarrow> sv_blocked st = [] \<Longrightarrow>
     step rn st (st\<lparr>sv_pc := Closed\<rparr>)"
| return: "sv_pc st = Closed \<Longrightarrow> sv_outbound st = [] \<Longrightarrow> step rn st (st\<lparr>sv_pc := Returned\<rparr>)"

text \<open>The states a run of \<open>n\<close> steps can reach, and all the states a run can reach.\<close>

inductive steps :: "('s, 'r) runner \<Rightarrow> ('s, 'r) server \<Rightarrow> nat \<Rightarrow> ('s, 'r) server \<Rightarrow> bool" for rn where
  start: "steps rn st 0 st"
| more_steps: "steps rn st n st' \<Longrightarrow> step rn st' st'' \<Longrightarrow> steps rn st (Suc n) st''"

inductive_simps steps_zero [simp]: "steps rn st 0 st'"
inductive_simps steps_Suc: "steps rn st (Suc n) st'"

text \<open>\<open>Run\<close> over an input: the frames its loop reads, and the error it returns once all is written.\<close>

definition Run_frames :: "reader \<Rightarrow> frame_event list" where
  "Run_frames input = fst (read_events readBuf maxLine input)"

definition Run_error :: "reader \<Rightarrow> string option" where
  "Run_error input = (case snd (read_events readBuf maxLine input) of EOF \<Rightarrow> None | RdErr e \<Rightarrow> Some e)"

text \<open>The lines \<open>main\<close> logs before the server starts, and those its logger lets through in the end; the
  client's own lines are in its state.\<close>

definition main_log :: "string \<Rightarrow> auth_env \<Rightarrow> log_entry list" where
  "main_log raw ae =
     (if snd (ParseLevel raw) then []
      else [\<lparr>lg_Level = LevelWarn, lg_Msg = ''unrecognised log level, using info'',
             lg_Attrs = [(''var'', LevelEnv), (''value'', raw)]\<rparr>]) @
     (case ResolveToken ae of
        Inr token \<Rightarrow> []
      | Inl tokenErr \<Rightarrow>
          [\<lparr>lg_Level = LevelWarn, lg_Msg = ''github auth not ready'',
            lg_Attrs = [(''err'', Error_text tokenErr)]\<rparr>])"

definition server_log :: "string \<Rightarrow> auth_env \<Rightarrow> ('s, 'r) server \<Rightarrow> log_entry list" where
  "server_log raw ae st = logged (fst (ParseLevel raw)) (main_log raw ae @ sv_log st)"

text \<open>The server \<open>main\<close> runs over standard input.\<close>

definition sidecar_main :: "auth_env \<Rightarrow> 'w \<Rightarrow> reader \<Rightarrow> ('w client_st, result_val) server" where
  "sidecar_main ae w input = Run_init (Run_frames input) (snd (startup ae w))"

text \<open>The exit status of \<open>main\<close>, and what it prints to standard error before a failure.\<close>

definition exit_line :: "string \<Rightarrow> reader \<Rightarrow> string" where
  "exit_line name input =
     (case Run_error input of None \<Rightarrow> [] | Some e \<Rightarrow> name @ '': '' @ e @ [CHR 0x0A])"

definition exit_status :: "reader \<Rightarrow> nat" where
  "exit_status input = (case Run_error input of None \<Rightarrow> 0 | Some e \<Rightarrow> 1)"

text \<open>The bytes on standard output.\<close>

definition stdout :: "('s, result_val) server \<Rightarrow> string" where
  "stdout st = concat (map (encode_response result_json) (sv_written st))"

end
