(* ===== verification/Handler_Laws.thy ===== *)
theory Handler_Laws
  imports Handlers
begin

text \<open>
  What the protocol's methods guarantee: how each ends, which inputs reach the GitHub surface,
  and the check of the pinned head before a comment or a review is sent.
\<close>

section \<open>The startup client for the instances\<close>

definition test_auth :: auth_env where
  "test_auth =
     \<lparr>ae_getenv = (\<lambda>v. if v = ''GH_TOKEN'' then ''token'' else []), ae_look_gh = None,
      ae_gh_token = (\<lambda>_. GhFailed False)\<rparr>"

definition test_deps :: "http_response list client_st deps" where
  "test_deps =
     \<lparr>dp_GH = Some (client_api script_env (fst (startup test_auth ()))), dp_json_err = (\<lambda>_ _. [])\<rparr>"

lemma test_startup [simp]: "fst (startup test_auth w) = test_cfg"
proof -
  have "ResolveToken test_auth = Inr ''token''" by code_simp
  then show ?thesis by (simp add: startup_cfg test_cfg_def New_def)
qed

section \<open>How a method ends\<close>

text \<open>C9: Every method of the registry, over the client the program starts with, ends in a result or
  in an error of the closed set: none panics.  Each of its actions leaves the client's invariant in
  place: a sound blob cache within its cap.  Both hold whatever the other goroutines do between its
  actions, as long as they too keep the invariant.\<close>

theorem handlers_closed:
  assumes "(name, h) \<in> set (main_registry env ae w0 je)"
  shows "good client_inv
    (\<lambda>r. \<forall>e. r = Inl e \<longrightarrow> (\<exists>p. e = Err (Coded p) \<and> pe_Code p \<in> set closed_codes)) (h params)"
proof -
  have "herr_in closed_err e \<Longrightarrow> \<exists>p. e = Err (Coded p) \<and> pe_Code p \<in> set closed_codes" for e
    by (cases e rule: herr.exhaust) (auto elim!: closed_err.elims)
  moreover have "good client_inv (ends_in (herr_in closed_err) any) (h params)"
    using assms by (intro client.handler_good) simp_all
  ultimately show ?thesis
    by (auto simp: ends_in_def elim!: good_mono)
qed

lemma client_inv_script [simp]: "client_inv (script bodies)"
  using cache_ok_new by (simp add: script_eq client_inv_def newCache_def maxBlobBytes_def)

theorem handlers_closed_witness:
  "case exec (getPR test_deps None) (script []) of
     (Inl e, s') \<Rightarrow> client_inv s' \<and> (\<exists>p. e = Err (Coded p) \<and> pe_Code p \<in> set closed_codes)
   | (Inr v, s') \<Rightarrow> False"
proof -
  have "\<exists>e. exec (getPR test_deps None) (script []) = (Inl e, script [])"
    by (simp add: getPR_def with_pr_def decode_def zero_prParams_def requirePR_def requireRepo_def
        bad_def exec_failP)
  moreover have "(''get_pr'', getPR test_deps) \<in> set (NewRegistry test_deps)"
    by (simp add: NewRegistry_def)
  ultimately show ?thesis
    using good_exec [OF handlers_closed [of "''get_pr''" "getPR test_deps" script_env test_auth "()" "\<lambda>_ _. []"],
        of "script []" None]
    by (auto simp: test_deps_def)
qed

section \<open>What reaches the surface\<close>


definition anchor_ok :: "postCommentParams \<Rightarrow> bool" where
  "anchor_ok p \<longleftrightarrow>
     cp_Path p \<noteq> [] \<and> cp_Side p \<in> {''LEFT'', ''RIGHT''} \<and> 0 < cp_Line p \<and>
     (cp_StartLine p = 0 \<and> cp_StartSide p = [] \<or>
      0 < cp_StartLine p \<and> cp_StartLine p < cp_Line p \<and>
        cp_StartSide p \<in> {[], ''LEFT'', ''RIGHT''})"

lemma validateAnchor_ok: "anchor_ok p \<Longrightarrow> validateAnchor p = retP ()"
  by (auto simp: anchor_ok_def validateAnchor_def validSide_def)

lemma bad_if: "(\<exists>m. (if c then bad x else f) = bad m) \<longleftrightarrow> c \<or> (\<exists>m. f = bad m)"
  by auto

lemma validateAnchor_bad: "\<not> anchor_ok p \<Longrightarrow> \<exists>m. validateAnchor p = bad m"
  by (simp only: validateAnchor_def bad_if anchor_ok_def validSide_def)
    (cases "cp_StartLine p \<noteq> 0 \<or> cp_StartSide p \<noteq> []"; simp only: if_True if_False bad_if; auto)

text \<open>The same of the record the handler passes on.\<close>

definition input_ok :: "PostCommentInput \<Rightarrow> bool" where
  "input_ok i \<longleftrightarrow>
     in_Body i \<noteq> [] \<and>
     (in_InReplyTo i \<noteq> [] \<or>
      in_Path i \<noteq> [] \<and> in_Side i \<in> {''LEFT'', ''RIGHT''} \<and> 0 < in_Line i \<and>
      (in_StartLine i = 0 \<and> in_StartSide i = [] \<or>
       0 < in_StartLine i \<and> in_StartLine i < in_Line i \<and> in_StartSide i \<in> {[], ''LEFT'', ''RIGHT''}))"

definition merge_methods :: "string set" where
  "merge_methods = {''SQUASH'', ''MERGE'', ''REBASE''}"

definition review_events :: "string set" where
  "review_events = {''APPROVE'', ''REQUEST_CHANGES'', ''COMMENT''}"

definition pr_states :: "string set" where
  "pr_states = {''ready'', ''draft'', ''closed'', ''open''}"

text \<open>Two surfaces that do the same on checked inputs, and may differ on any other.\<close>

definition same_on_checked :: "'s api \<Rightarrow> 's api \<Rightarrow> bool" where
  "same_on_checked a b \<longleftrightarrow>
     (\<forall>ow re f. ow \<noteq> [] \<and> re \<noteq> [] \<longrightarrow> ap_ListPRs a ow re f = ap_ListPRs b ow re f) \<and>
     (\<forall>ow re n. ow \<noteq> [] \<and> re \<noteq> [] \<and> 0 < n \<longrightarrow>
        ap_GetPR a ow re n = ap_GetPR b ow re n \<and>
        ap_HeadSHA a ow re n = ap_HeadSHA b ow re n \<and>
        ap_GetThreads a ow re n = ap_GetThreads b ow re n \<and>
        ap_GetTimeline a ow re n = ap_GetTimeline b ow re n \<and>
        ap_GetPendingReview a ow re n = ap_GetPendingReview b ow re n \<and>
        ap_GetChecks a ow re n = ap_GetChecks b ow re n \<and>
        ap_StartReview a ow re n = ap_StartReview b ow re n \<and>
        (\<forall>p bp ba h. p \<noteq> [] \<longrightarrow>
           ap_GetFileVersions a ow re n p bp ba h = ap_GetFileVersions b ow re n p bp ba h) \<and>
        (\<forall>i. input_ok i \<longrightarrow> ap_PostComment a ow re n i = ap_PostComment b ow re n i) \<and>
        (\<forall>t. t \<noteq> [] \<longrightarrow> ap_PostIssueComment a ow re n t = ap_PostIssueComment b ow re n t) \<and>
        (\<forall>p v. p \<noteq> [] \<longrightarrow> ap_SetFileViewed a ow re n p v = ap_SetFileViewed b ow re n p v) \<and>
        (\<forall>m dl sj t. m \<in> merge_methods \<longrightarrow>
           ap_MergePR a ow re n m dl sj t = ap_MergePR b ow re n m dl sj t) \<and>
        (\<forall>st. st \<in> pr_states \<longrightarrow>
           ap_SetPRState a ow re n st = ap_SetPRState b ow re n st)) \<and>
     (\<forall>i ev t. i \<noteq> [] \<and> ev \<in> review_events \<longrightarrow>
        ap_SubmitReview a i ev t = ap_SubmitReview b i ev t) \<and>
     (\<forall>i. i \<noteq> [] \<longrightarrow> ap_DiscardReview a i = ap_DiscardReview b i \<and>
        ap_DeleteComment a i = ap_DeleteComment b i \<and>
        (\<forall>v. ap_ResolveThread a i v = ap_ResolveThread b i v)) \<and>
     ap_TokenStatus a = ap_TokenStatus b \<and> ap_ClearCache a = ap_ClearCache b"

lemma decode_cong:
  "dp_json_err d = dp_json_err d' \<Longrightarrow> decode d params fs zero = decode d' params fs zero"
  unfolding decode_def by (erule ssubst) (rule refl)

lemma with_pr_cong:
  assumes "\<And>p. pp_Owner p \<noteq> [] \<Longrightarrow> pp_Repo p \<noteq> [] \<Longrightarrow> 0 < pp_Number p \<Longrightarrow> f p = g p"
    and "dp_json_err d = dp_json_err d'"
  shows "with_pr d params fs zero f = with_pr d' params fs zero g"
proof -
  note dec = decode_cong [OF assms(2), of params fs zero]
  have "bindP (requirePR (pp_Owner p) (pp_Repo p) (pp_Number p)) (\<lambda>_. f p) =
      bindP (requirePR (pp_Owner p) (pp_Repo p) (pp_Number p)) (\<lambda>_. g p)" for p
    using assms(1) [of p] by (auto simp: requirePR_def requireRepo_def bad_def not_le)
  then show ?thesis by (simp add: with_pr_def dec)
qed

lemma bindP_bad [simp]: "bindP (bad m) f = bad m"
  by (simp add: bad_def)

lemma same_on_checkedD:
  assumes "same_on_checked a b"
  shows
    "ow \<noteq> [] \<Longrightarrow> re \<noteq> [] \<Longrightarrow> ap_ListPRs a ow re f = ap_ListPRs b ow re f"
    "ow \<noteq> [] \<Longrightarrow> re \<noteq> [] \<Longrightarrow> 0 < n \<Longrightarrow> ap_GetPR a ow re n = ap_GetPR b ow re n"
    "ow \<noteq> [] \<Longrightarrow> re \<noteq> [] \<Longrightarrow> 0 < n \<Longrightarrow> ap_HeadSHA a ow re n = ap_HeadSHA b ow re n"
    "ow \<noteq> [] \<Longrightarrow> re \<noteq> [] \<Longrightarrow> 0 < n \<Longrightarrow> ap_GetThreads a ow re n = ap_GetThreads b ow re n"
    "ow \<noteq> [] \<Longrightarrow> re \<noteq> [] \<Longrightarrow> 0 < n \<Longrightarrow> ap_GetTimeline a ow re n = ap_GetTimeline b ow re n"
    "ow \<noteq> [] \<Longrightarrow> re \<noteq> [] \<Longrightarrow> 0 < n \<Longrightarrow> ap_GetPendingReview a ow re n = ap_GetPendingReview b ow re n"
    "ow \<noteq> [] \<Longrightarrow> re \<noteq> [] \<Longrightarrow> 0 < n \<Longrightarrow> ap_GetChecks a ow re n = ap_GetChecks b ow re n"
    "ow \<noteq> [] \<Longrightarrow> re \<noteq> [] \<Longrightarrow> 0 < n \<Longrightarrow> ap_StartReview a ow re n = ap_StartReview b ow re n"
    "ow \<noteq> [] \<Longrightarrow> re \<noteq> [] \<Longrightarrow> 0 < n \<Longrightarrow> p \<noteq> [] \<Longrightarrow>
      ap_GetFileVersions a ow re n p bp ba h = ap_GetFileVersions b ow re n p bp ba h"
    "ow \<noteq> [] \<Longrightarrow> re \<noteq> [] \<Longrightarrow> 0 < n \<Longrightarrow> input_ok inp \<Longrightarrow>
      ap_PostComment a ow re n inp = ap_PostComment b ow re n inp"
    "ow \<noteq> [] \<Longrightarrow> re \<noteq> [] \<Longrightarrow> 0 < n \<Longrightarrow> t \<noteq> [] \<Longrightarrow>
      ap_PostIssueComment a ow re n t = ap_PostIssueComment b ow re n t"
    "ow \<noteq> [] \<Longrightarrow> re \<noteq> [] \<Longrightarrow> 0 < n \<Longrightarrow> p \<noteq> [] \<Longrightarrow>
      ap_SetFileViewed a ow re n p v = ap_SetFileViewed b ow re n p v"
    "ow \<noteq> [] \<Longrightarrow> re \<noteq> [] \<Longrightarrow> 0 < n \<Longrightarrow> m \<in> merge_methods \<Longrightarrow>
      ap_MergePR a ow re n m v sj t = ap_MergePR b ow re n m v sj t"
    "ow \<noteq> [] \<Longrightarrow> re \<noteq> [] \<Longrightarrow> 0 < n \<Longrightarrow> st \<in> pr_states \<Longrightarrow>
      ap_SetPRState a ow re n st = ap_SetPRState b ow re n st"
    "i \<noteq> [] \<Longrightarrow> ev \<in> review_events \<Longrightarrow>
      ap_SubmitReview a i ev t = ap_SubmitReview b i ev t"
    "i \<noteq> [] \<Longrightarrow> ap_DiscardReview a i = ap_DiscardReview b i"
    "i \<noteq> [] \<Longrightarrow> ap_DeleteComment a i = ap_DeleteComment b i"
    "i \<noteq> [] \<Longrightarrow> ap_ResolveThread a i v = ap_ResolveThread b i v"
    "ap_TokenStatus a = ap_TokenStatus b" "ap_ClearCache a = ap_ClearCache b"
  using assms unfolding same_on_checked_def by simp_all

lemma guardHead_cong:
  assumes "same_on_checked a b" and "ow \<noteq> []" "re \<noteq> []" "0 < n"
  shows "guardHead (d\<lparr>dp_GH := Some a\<rparr>) ow re n e = guardHead (d\<lparr>dp_GH := Some b\<rparr>) ow re n e"
  using same_on_checkedD(3) [OF assms] by (simp add: guardHead_def with_gh_def)

lemma listPRs_cong:
  fixes a b :: "'s api" and d :: "'s deps"
  assumes "same_on_checked a b"
  shows "listPRs (d\<lparr>dp_GH := Some a\<rparr>) = listPRs (d\<lparr>dp_GH := Some b\<rparr>)"
proof
  fix ps
  let ?a = "d\<lparr>dp_GH := Some a\<rparr>" and ?b = "d\<lparr>dp_GH := Some b\<rparr>"
  have "(\<lambda>p. bindP (requireRepo (lp_Owner p) (lp_Repo p)) (\<lambda>_. returning RPRs (with_gh ?a
        (\<lambda>api. ap_ListPRs api (lp_Owner p) (lp_Repo p) (lp_Filter p))))) =
      (\<lambda>p. bindP (requireRepo (lp_Owner p) (lp_Repo p)) (\<lambda>_. returning RPRs (with_gh ?b
        (\<lambda>api. ap_ListPRs api (lp_Owner p) (lp_Repo p) (lp_Filter p)))))"
    using same_on_checkedD(1) [OF assms] by (intro ext) (auto simp: requireRepo_def with_gh_def)
  moreover have "decode ?a ps listPRsParams_fields z = decode ?b ps listPRsParams_fields z" for z
    by (rule decode_cong) simp
  ultimately show "listPRs ?a ps = listPRs ?b ps"
    unfolding listPRs_def by (intro arg_cong2 [where f = bindP])
qed

lemma postComment_cong:
  fixes a b :: "'s api" and d :: "'s deps"
  assumes same: "same_on_checked a b"
  shows "postComment (d\<lparr>dp_GH := Some a\<rparr>) = postComment (d\<lparr>dp_GH := Some b\<rparr>)"
proof (rule ext, unfold postComment_def, rule with_pr_cong)
  let ?a = "d\<lparr>dp_GH := Some a\<rparr>" and ?b = "d\<lparr>dp_GH := Some b\<rparr>"
  fix ps and p :: postCommentParams
  assume p: "pp_Owner p \<noteq> []" "pp_Repo p \<noteq> []" "0 < pp_Number p"
  have anchor: "(validateAnchor p :: ('s, unit) hsem) = retP () \<and> anchor_ok p \<or>
      (\<exists>m. (validateAnchor p :: ('s, unit) hsem) = bad m)"
    using validateAnchor_ok validateAnchor_bad by metis
  have "input_ok (comment_input p) \<longleftrightarrow> cp_Body p \<noteq> [] \<and> (cp_InReplyTo p \<noteq> [] \<or> anchor_ok p)"
    by (auto simp: input_ok_def comment_input_def anchor_ok_def)
  with anchor guardHead_cong [OF same p] same_on_checkedD(10) [OF same p, of "comment_input p"]
  show "(if cp_Body p = [] then bad ''body is required''
       else bindP (if cp_InReplyTo p = [] then validateAnchor p else retP ())
             (\<lambda>_. bindP (guardHead ?a (pp_Owner p) (pp_Repo p) (pp_Number p) (cp_ExpectedHead p))
               (\<lambda>_. returning RPostComment (with_gh ?a
                 (\<lambda>api. ap_PostComment api (pp_Owner p) (pp_Repo p) (pp_Number p) (comment_input p)))))) =
      (if cp_Body p = [] then bad ''body is required''
       else bindP (if cp_InReplyTo p = [] then validateAnchor p else retP ())
             (\<lambda>_. bindP (guardHead ?b (pp_Owner p) (pp_Repo p) (pp_Number p) (cp_ExpectedHead p))
               (\<lambda>_. returning RPostComment (with_gh ?b
                 (\<lambda>api. ap_PostComment api (pp_Owner p) (pp_Repo p) (pp_Number p) (comment_input p))))))"
    by (auto simp: with_gh_def)
qed simp

text \<open>C13: Only checked inputs reach GitHub.  Two surfaces that agree on inputs every check has passed
  (owner and repository named, a positive number, an anchor of the right shape, a known side,
  event, merge method and state) give the same registry, so no handler calls an operation with
  anything else.\<close>

theorem handlers_check_inputs:
  fixes a b :: "'s api" and d :: "'s deps"
  assumes "same_on_checked a b"
  shows "NewRegistry (d\<lparr>dp_GH := Some a\<rparr>) = NewRegistry (d\<lparr>dp_GH := Some b\<rparr>)"
proof -
  let ?a = "d\<lparr>dp_GH := Some a\<rparr>" and ?b = "d\<lparr>dp_GH := Some b\<rparr>"
  note same = same_on_checkedD [OF assms]
  have rest: "getPR ?a = getPR ?b" "getFileVersions ?a = getFileVersions ?b"
    "getThreads ?a = getThreads ?b" "getTimeline ?a = getTimeline ?b"
    "getPendingReview ?a = getPendingReview ?b" "getChecks ?a = getChecks ?b"
    "startReview ?a = startReview ?b" "submitReview ?a = submitReview ?b"
    "discardReview ?a = discardReview ?b" "postIssueComment ?a = postIssueComment ?b"
    "deleteComment ?a = deleteComment ?b" "resolveThread ?a = resolveThread ?b"
    "setFileViewed ?a = setFileViewed ?b" "mergePR ?a = mergePR ?b" "setPRState ?a = setPRState ?b"
    by (rule ext, simp only: handler_defs, rule with_pr_cong,
        (auto simp: with_gh_def same guardHead_cong [OF assms] requireReviewID_def validReviewEvent_def validPRState_def
          mergeMethod_def merge_methods_def review_events_def pr_states_def split: option.splits)[2])+
  have "hello ?a = hello ?b" "cacheClear ?a = cacheClear ?b"
    by (auto simp: fun_eq_iff hello_def cacheClear_def decode_def same(19,20)
        cong: if_cong option.case_cong)
  with rest listPRs_cong [OF assms] postComment_cong [OF assms] show ?thesis by (simp add: NewRegistry_def)
qed

definition fussy_api :: "http_response list client_st api" where
  "fussy_api = (client_api script_env test_cfg)\<lparr>ap_GetPR := (\<lambda>owner repo n.
     if owner \<noteq> [] \<and> repo \<noteq> [] \<and> 0 < n then GetPR_go script_env test_cfg owner repo n
     else failP (Plain ''unchecked''))\<rparr>"

theorem handlers_check_inputs_witness:
  "NewRegistry (test_deps\<lparr>dp_GH := Some (client_api script_env test_cfg)\<rparr>) =
     NewRegistry (test_deps\<lparr>dp_GH := Some fussy_api\<rparr>) \<and>
   ap_GetPR fussy_api [] [] 0 = failP (Plain ''unchecked'')"
proof -
  have "same_on_checked (client_api script_env test_cfg) fussy_api"
    by (simp add: same_on_checked_def fussy_api_def client_api_def)
  from handlers_check_inputs [OF this, of test_deps] show ?thesis
    by (simp add: fussy_api_def)
qed

section \<open>The pinned head\<close>

lemma exec_guardHead:
  assumes "dp_GH d = Some api"
  shows "exec (guardHead d owner repo n e) s =
    (if e = [] then (Inr (), s)
     else case exec (ap_HeadSHA api owner repo n) s of
            (Inl x, t) \<Rightarrow> (Inl (Err x), t)
          | (Inr head, t) \<Rightarrow>
              if head = e then (Inr (), t)
              else (Inl (Err (newError CodeConflict
                ''the PR head moved since the review was anchored; refresh and retry'')), t))"
  using assms by (auto simp: guardHead_def with_gh_def exec_lift exec_simps bindE_def split: prod.split sum.split)

lemma postComment_decoded:
  assumes "dp_GH d = Some api" and "dec_struct postCommentParams_fields v zero_postComment = Some p"
  shows "postComment d (Some v) =
    bindP (requirePR (pp_Owner p) (pp_Repo p) (pp_Number p)) (\<lambda>_.
      if cp_Body p = [] then bad ''body is required''
      else bindP (if cp_InReplyTo p = [] then validateAnchor p else retP ()) (\<lambda>_.
        bindP (guardHead d (pp_Owner p) (pp_Repo p) (pp_Number p) (cp_ExpectedHead p)) (\<lambda>_.
        returning RPostComment (lift_err
          (ap_PostComment api (pp_Owner p) (pp_Repo p) (pp_Number p) (comment_input p))))))"
  using assms by (simp add: postComment_def with_pr_def decode_def with_gh_def)

lemma requirePR_ok:
  "owner \<noteq> [] \<Longrightarrow> repo \<noteq> [] \<Longrightarrow> 0 < n \<Longrightarrow> requirePR owner repo n = retP ()"
  by (simp add: requirePR_def requireRepo_def)

lemma requirePR_bad:
  "owner = [] \<or> repo = [] \<or> n \<le> 0 \<Longrightarrow> \<exists>m. requirePR owner repo n = bad m"
  by (auto simp: requirePR_def requireRepo_def bad_def)

lemma bad_stops: "bindP (bad m) f = bad m" "exec (bad m) s = (Inl (Err (newError CodeBadRequest m)), s)"
  by (simp_all add: bad_def exec_simps)

text \<open>C14: \<open>post_comment\<close>, on every branch, with the handshake of the pinned head.  Parameters that do
  not pass the checks are a \<open>bad_request\<close> and nothing is called.  Without a pinned head the comment
  is sent.  With one, the current head is asked for first: its error ends the method, a head that
  has moved is a \<open>conflict\<close> and no comment is sent, and only the pinned head lets it through.\<close>

theorem postComment_guarded:
  assumes "dp_GH d = Some api"
    and "dec_struct postCommentParams_fields v zero_postComment = Some p"
  shows "case exec (postComment d (Some v)) s of (r, s') \<Rightarrow>
    let owner = pp_Owner p; repo = pp_Repo p; n = pp_Number p;
        sent = exec (returning RPostComment (lift_err (ap_PostComment api owner repo n (comment_input p))))
    in if owner = [] \<or> repo = [] \<or> n \<le> 0 \<or> cp_Body p = [] \<or> cp_InReplyTo p = [] \<and> \<not> anchor_ok p
       then s' = s \<and> (\<exists>m. r = Inl (Err (newError CodeBadRequest m)))
       else if cp_ExpectedHead p = [] then (r, s') = sent s
       else (case exec (ap_HeadSHA api owner repo n) s of
               (Inl e, t) \<Rightarrow> r = Inl (Err e) \<and> s' = t
             | (Inr head, t) \<Rightarrow>
                 if head = cp_ExpectedHead p then (r, s') = sent t
                 else s' = t \<and> (\<exists>m. r = Inl (Err (newError CodeConflict m))))"
proof -
  note run = postComment_decoded [OF assms]
  show ?thesis
  proof (cases "pp_Owner p = [] \<or> pp_Repo p = [] \<or> pp_Number p \<le> 0")
    case True
    then obtain m where "requirePR (pp_Owner p) (pp_Repo p) (pp_Number p) = (bad m :: ('a, unit) hsem)"
      using requirePR_bad by blast
    with True show ?thesis unfolding run by (simp only: bad_stops Let_def prod.case) auto
  next
    case False
    then have pr: "requirePR (pp_Owner p) (pp_Repo p) (pp_Number p) = (retP () :: ('a, unit) hsem)"
      by (intro requirePR_ok) auto
    show ?thesis
    proof (cases "cp_Body p \<noteq> [] \<and> (cp_InReplyTo p = [] \<longrightarrow> anchor_ok p)")
      case ok: True
      then have "(if cp_InReplyTo p = [] then validateAnchor p else retP ()) = (retP () :: ('a, unit) hsem)"
        using validateAnchor_ok by auto
      with False ok show ?thesis unfolding run pr
        by (auto simp: Let_def exec_bindP bindE_def exec_guardHead [OF assms(1)] split: prod.split sum.split)
    next
      case stop: False
      then have "cp_Body p \<noteq> [] \<Longrightarrow> \<exists>m. (validateAnchor p :: ('a, unit) hsem) = bad m"
        using validateAnchor_bad by blast
      with False stop show ?thesis unfolding run pr by (auto simp: bad_stops; blast)
    qed
  qed
qed

definition moved_params :: json where
  "moved_params = JObj
     [(''owner'', JStr ''o''), (''repo'', JStr ''r''), (''number'', JNum ''7''), (''path'', JStr ''a.go''),
      (''side'', JStr ''RIGHT''), (''line'', JNum ''3''), (''body'', JStr ''why?''),
      (''expected_head'', JStr ''h0'')]"

definition refs_body :: json where
  "refs_body = JObj [(''base'', JObj [(''sha'', JStr ''b1'')]), (''head'', JObj [(''sha'', JStr ''h1'')])]"

lemma refs_body_dec: "prRefsDTO_dec refs_body zero_refs = Some \<lparr>rf_Base = ''b1'', rf_Head = ''h1''\<rparr>"
  by (simp add: refs_body_def prRefsDTO_dec_def dec_eval zero_refs_def)

lemma refs_body_scripted: "scripted refs_body"
  by (simp add: refs_body_def scripted_eval)

text \<open>The head is now \<open>h1\<close>: one call is made, to find that out, and the answer is a conflict.\<close>

theorem postComment_guarded_witness:
  "case exec (postComment test_deps (Some moved_params)) (script [json_text refs_body]) of
     (r, s') \<Rightarrow> (\<exists>m. r = Inl (Err (newError CodeConflict m))) \<and> length (cs_calls s') = 1"
proof -
  define p where "p = zero_postComment\<lparr>pp_Owner := ''o'', pp_Repo := ''r'', pp_Number := 7,
    cp_Path := ''a.go'', cp_Side := ''RIGHT'', cp_Line := 3, cp_Body := ''why?'', cp_ExpectedHead := ''h0''\<rparr>"
  have num: "parse_magnitude False ''7'' = NumOk 7" "parse_magnitude False ''3'' = NumOk 3"
    by code_simp+
  have dec: "dec_struct postCommentParams_fields moved_params zero_postComment = Some p"
    by (simp add: num moved_params_def p_def postCommentParams_fields_def prParams_fields_def
        zero_postComment_def find_field_def fld_def)
  have gh: "dp_GH test_deps = Some (client_api script_env test_cfg)"
    by (simp add: test_deps_def)
  obtain t where "HeadSHA script_env test_cfg ''o'' ''r'' 7 (script [json_text refs_body]) = (Inr ''h1'', t)"
    "length (cs_calls t) = 1"
    by (simp add: HeadSHA_def prRefs_def bindE_def script_eq
        getJSON_script refs_body_scripted refs_body_dec)
  then show ?thesis
    using postComment_guarded [OF gh dec, of "script [json_text refs_body]"]
    by (auto simp: p_def zero_postComment_def anchor_ok_def client_api_def alone_client Let_def split: prod.splits)
qed

end
