(* ===== verification/Server_Laws.thy ===== *)
theory Server_Laws
  imports Server Handler_Laws
begin

text \<open>
  What the server guarantees of every run, however its goroutines interleave: one response to
  each frame, no deadlock, an end after a bounded number of steps, nothing but the handshake
  before the handshake, and one line of output per response.
\<close>

section \<open>Runs\<close>

lemma steps_invariant:
  assumes "steps rn st n st'" and "P st" and "\<And>a b. step rn a b \<Longrightarrow> P a \<Longrightarrow> P b"
  shows "P st'"
  using assms(1,2) by (induction rule: steps.induct) (auto intro: assms(3))

lemma steps_first: "step rn a b \<Longrightarrow> steps rn b n c \<Longrightarrow> steps rn a (Suc n) c"
  by (rotate_tac, induction rule: steps.induct) (auto intro: steps.intros)

subsection \<open>Bookkeeping of the channel and the wait group\<close>

definition srv_ok :: "('s, 'r) server \<Rightarrow> bool" where
  "srv_ok st \<longleftrightarrow>
     length (sv_outbound st) \<le> outbound_cap \<and>
     (sv_pc st \<in> {Waiting, Closed, Returned} \<longrightarrow> sv_frames st = []) \<and>
     (sv_pc st \<in> {Closed, Returned} \<longrightarrow> sv_running st = [] \<and> sv_blocked st = []) \<and>
     (sv_pc st = Returned \<longrightarrow> sv_outbound st = [])"

lemma srv_ok_init: "srv_ok (Run_init frames s)"
  by (simp add: srv_ok_def Run_init_def)

lemma step_srv_ok: "step rn st st' \<Longrightarrow> srv_ok st \<Longrightarrow> srv_ok st'"
  by (induction rule: step.induct) (auto simp: srv_ok_def)

lemma advance_none: "advance p s = None \<longleftrightarrow> (\<exists>r. p = Ret (r, []))"
  by (cases "(p, s)" rule: advance.cases) auto

lemma goroutine_cases:
  obtains r where "p = Ret (r, [])" | p' s' es where "advance p s = Some (p', s', es)"
  using advance_none [of p s] by (cases "advance p s") auto

lemma waiting_progress:
  assumes free: "length (sv_outbound st) < outbound_cap" and "sv_pc st = Waiting"
  shows "\<exists>st'. step rn st st'"
proof (cases "sv_running st")
  case (Cons j js)
  obtain req p where j: "sv_running st = [] @ (req, p) # js" using Cons by (cases j) simp
  show ?thesis
    by (rule goroutine_cases [where p = p and s = "sv_gh st"]; use j in \<open>blast intro: step.work step.finish\<close>)
next
  case none: Nil
  show ?thesis
  proof (cases "sv_blocked st")
    case Nil
    with assms(2) none show ?thesis by (blast intro: step.close)
  next
    case (Cons r rs)
    with free show ?thesis using step.report [of st "[]"] by fastforce
  qed
qed

lemma progress:
  assumes "sv_pc st \<noteq> Returned"
  shows "\<exists>st'. step rn st st'"
proof (cases "sv_outbound st")
  case (Cons r rs)
  then show ?thesis by (blast intro: step.flush)
next
  case Nil
  then have free: "length (sv_outbound st) < outbound_cap" by (simp add: outbound_cap_def)
  show ?thesis
  proof (cases "sv_pc st")
    case Reading
    then show ?thesis
      by (cases "sv_frames st"; cases "on_frame (hd (sv_frames st)) (sv_helloOK st) :: 'b action")
        (fastforce intro: step.intros)+
  next
    case (Handling j)
    obtain req p where j: "j = (req, p)" by fastforce
    show ?thesis
      by (rule goroutine_cases [where p = p and s = "sv_gh st"]; use Handling j in \<open>fastforce intro: step.greeting step.greeted\<close>)
  next
    case (Sending r)
    with free show ?thesis by (blast intro: step.send)
  next
    case Waiting
    with free show ?thesis by (rule waiting_progress)
  next
    case Closed
    with Nil show ?thesis by (blast intro: step.return)
  next
    case Returned
    with assms show ?thesis by simp
  qed
qed

text \<open>Once \<open>Run\<close> has returned nothing moves.\<close>

lemma returned_final:
  assumes "srv_ok st" and "sv_pc st = Returned"
  shows "\<not> step rn st st'"
  using assms by (auto simp: srv_ok_def elim: step.cases)

subsection \<open>The measure that every step lowers\<close>

text \<open>What is left of a goroutine: its actions and the lines it still logs.\<close>

primrec costs :: "('s, 'a \<times> 'b list) prog \<Rightarrow> nat \<Rightarrow> bool" where
  "costs (Ret r) n = (length (snd r) \<le> n)"
| "costs (Act u k) n = (0 < n \<and> (\<forall>s. costs (k s) (n - 1)))"

lemma advance_costs: "advance p s = Some (p', s', es) \<Longrightarrow> costs p n \<Longrightarrow> 0 < n \<and> costs p' (n - 1)"
  by (cases "(p, s)" rule: advance.cases) auto

lemma within_costs:
  "within p n \<Longrightarrow> good (\<lambda>_. True) (\<lambda>r. length (snd r) \<le> m) p \<Longrightarrow> costs p (n + m)"
proof (induction p arbitrary: n)
  case (Act u k)
  have "costs (k s) (n - 1 + m)" for s
    using Act.prems by (intro Act.IH [OF rangeI]) auto
  moreover have "n - 1 + m = n + m - 1" using Act.prems(1) by simp
  ultimately show ?case using Act.prems(1) by simp
qed simp

fun pc_weighs :: "('s, 'r) reader_pc \<Rightarrow> nat \<Rightarrow> bool" where
  "pc_weighs Reading n \<longleftrightarrow> n = 3"
| "pc_weighs (Handling j) n \<longleftrightarrow> (\<exists>m. costs (snd j) m \<and> n = m + 6)"
| "pc_weighs (Sending r) n \<longleftrightarrow> n = 5"
| "pc_weighs Waiting n \<longleftrightarrow> n = 2"
| "pc_weighs Closed n \<longleftrightarrow> n = 1"
| "pc_weighs Returned n \<longleftrightarrow> n = 0"

definition weighs :: "nat \<Rightarrow> ('s, 'r) server \<Rightarrow> nat \<Rightarrow> bool" where
  "weighs K st w \<longleftrightarrow>
     (\<exists>p ns. pc_weighs (sv_pc st) p \<and> list_all2 (\<lambda>j n. costs (snd j) n) (sv_running st) ns \<and>
        w = (K + 4) * length (sv_frames st) + p + sum_list ns + 3 * length ns +
          2 * length (sv_blocked st) + length (sv_outbound st))"

lemma weighs_init: "weighs K (Run_init frames s) ((K + 4) * length frames + 3)"
  by (simp add: weighs_def Run_init_def)

lemma weighs_less:
  assumes "weighs K st w" and "sv_running st' = sv_running st"
    and "\<And>q. pc_weighs (sv_pc st) q \<Longrightarrow> \<exists>q'. pc_weighs (sv_pc st') q' \<and>
      (K + 4) * length (sv_frames st') + q' + 2 * length (sv_blocked st') + length (sv_outbound st') <
      (K + 4) * length (sv_frames st) + q + 2 * length (sv_blocked st) + length (sv_outbound st)"
  shows "\<exists>w' < w. weighs K st' w'"
proof -
  obtain q ns where q: "pc_weighs (sv_pc st) q"
    and ns: "list_all2 (\<lambda>j n. costs (snd j) n) (sv_running st) ns"
    and w: "w = (K + 4) * length (sv_frames st) + q + sum_list ns + 3 * length ns +
      2 * length (sv_blocked st) + length (sv_outbound st)"
    using assms(1) by (auto simp: weighs_def)
  obtain q' where q': "pc_weighs (sv_pc st') q'"
    and less: "(K + 4) * length (sv_frames st') + q' + 2 * length (sv_blocked st') + length (sv_outbound st') <
      (K + 4) * length (sv_frames st) + q + 2 * length (sv_blocked st) + length (sv_outbound st)"
    using assms(3) [OF q] by blast
  let ?w = "(K + 4) * length (sv_frames st') + q' + sum_list ns + 3 * length ns +
    2 * length (sv_blocked st') + length (sv_outbound st')"
  have "weighs K st' ?w" using q' ns assms(2) by (auto simp: weighs_def)
  moreover have "?w < w" using less w by linarith
  ultimately show ?thesis by blast
qed

text \<open>A runner whose requests take at most \<open>K\<close> actions and log lines.\<close>

locale bounded_runner =
  fixes rn :: "('s, 'r) runner" and K :: nat
  assumes bound: "costs (rn req) K"
begin

lemma step_weighs: "step rn st st' \<Longrightarrow> weighs K st w \<Longrightarrow> \<exists>w' < w. weighs K st' w'"
proof (induction rule: step.induct)
  case (spawn st f fs req)
  then obtain ns where ns: "list_all2 (\<lambda>j n. costs (snd j) n) (sv_running st) ns"
    "w = (K + 4) * length (sv_frames st) + 3 + sum_list ns + 3 * length ns +
       2 * length (sv_blocked st) + length (sv_outbound st)"
    by (auto simp: weighs_def)
  then have "list_all2 (\<lambda>j n. costs (snd j) n) (sv_running st @ [(req, rn req)]) (ns @ [K])"
    by (simp add: list_all2_appendI bound)
  with spawn ns(2) show ?case
    unfolding weighs_def by (intro exI [of _ "w - 1"] conjI exI [of _ 3] exI [of _ "ns @ [K]"]) auto
next
  case (greet st f fs req)
  then show ?case
    using bound [of req] by (intro weighs_less [OF greet(4)]) auto
next
  case (greeting st req p p' s es)
  then show ?case
    using advance_costs [OF greeting(2)] by (intro weighs_less [OF greeting(3)]) fastforce+
next
  case (work st xs req p ys p' s es)
  then obtain q as m bs where m: "costs p m" and q: "pc_weighs (sv_pc st) q"
    and as: "list_all2 (\<lambda>j n. costs (snd j) n) xs as" and bs: "list_all2 (\<lambda>j n. costs (snd j) n) ys bs"
    and w: "w = (K + 4) * length (sv_frames st) + q + (sum_list as + m + sum_list bs) +
       3 * (length as + length bs + 1) + 2 * length (sv_blocked st) + length (sv_outbound st)"
    by (auto simp: weighs_def list_all2_append1 list_all2_Cons1)
  from advance_costs [OF work(2) m] have p': "0 < m" "costs p' (m - 1)" by auto
  with as bs have "list_all2 (\<lambda>j n. costs (snd j) n) (xs @ (req, p') # ys) (as @ (m - 1) # bs)"
    by (simp add: list_all2_appendI)
  with q w p' show ?case
    unfolding weighs_def by (intro exI [of _ "w - 1"] conjI exI [of _ q] exI [of _ "as @ (m - 1) # bs"]) auto
next
  case (finish st xs req r ys)
  then obtain q as m bs where q: "pc_weighs (sv_pc st) q"
    and as: "list_all2 (\<lambda>j n. costs (snd j) n) xs as" and bs: "list_all2 (\<lambda>j n. costs (snd j) n) ys bs"
    and w: "w = (K + 4) * length (sv_frames st) + q + (sum_list as + m + sum_list bs) +
       3 * (length as + length bs + 1) + 2 * length (sv_blocked st) + length (sv_outbound st)"
    by (auto simp: weighs_def list_all2_append1 list_all2_Cons1)
  with as bs have "list_all2 (\<lambda>j n. costs (snd j) n) (xs @ ys) (as @ bs)"
    by (simp add: list_all2_appendI)
  with q w show ?case
    unfolding weighs_def by (intro exI [of _ "w - 1 - m"] conjI exI [of _ q] exI [of _ "as @ bs"]) auto
qed (erule weighs_less; auto)+

lemma steps_weighs: "steps rn st n st' \<Longrightarrow> weighs K st w \<Longrightarrow> \<exists>w'. weighs K st' w' \<and> n + w' \<le> w"
proof (induction rule: steps.induct)
  case (more_steps st n st' st'')
  then obtain w' where "weighs K st' w'" "n + w' \<le> w" by blast
  with step_weighs [OF more_steps(2)] show ?case by fastforce
qed auto

lemma steps_bound: "steps rn (Run_init frames s) n st \<Longrightarrow> n \<le> (K + 4) * length frames + 3"
  using steps_weighs [OF _ weighs_init] by fastforce

text \<open>Every run can be run to the end.\<close>

lemma weighs_completes: "weighs K st w \<Longrightarrow> \<exists>n st'. steps rn st n st' \<and> sv_pc st' = Returned"
proof (induction w arbitrary: st rule: less_induct)
  case (less w)
  show ?case
  proof (cases "sv_pc st = Returned")
    case True
    then show ?thesis by (blast intro: steps.start)
  next
    case False
    then obtain st1 where one: "step rn st st1" using progress by blast
    with less step_weighs obtain n st' where "steps rn st1 n st'" "sv_pc st' = Returned" by blast
    with one show ?thesis by (blast intro: steps_first)
  qed
qed

lemma run_completes: "\<exists>n st. steps rn (Run_init frames s) n st \<and> sv_pc st = Returned"
  by (rule weighs_completes [OF weighs_init])

end

section \<open>What the requests and their answers satisfy\<close>

definition frame_request :: "frame_event \<Rightarrow> request option" where
  "frame_request f = (case f of Oversized \<Rightarrow> None | Line line \<Rightarrow> decode_request line)"

lemma on_frame_request:
  "on_frame f ok =
     (case frame_request f of
        None \<Rightarrow> Emit (badRequest 0 (case f of Oversized \<Rightarrow> ''request exceeds the 16777216 byte frame limit''
            | Line line \<Rightarrow> ''invalid JSON''))
      | Some req \<Rightarrow> dispatch req ok)"
  by (auto simp: on_frame_def frame_request_def split: frame_event.split option.split)

text \<open>The id a frame is answered with: its own, or 0 when it could not be read.\<close>

definition frame_id :: "frame_event \<Rightarrow> int" where
  "frame_id f = (case frame_request f of None \<Rightarrow> 0 | Some req \<Rightarrow> rq_ID req)"

lemma on_frame_cases:
  "case on_frame f ok of
     Emit r \<Rightarrow> \<exists>m. r = badRequest (frame_id f) m
   | Inline req \<Rightarrow> frame_request f = Some req \<and> rq_Method req = ''hello''
   | Spawn req \<Rightarrow> frame_request f = Some req \<and> ok"
  by (auto simp: on_frame_request dispatch_def frame_id_def split: option.split)

text \<open>The requests under way, and the responses on their way out or written.\<close>

definition jobs :: "('s, 'r) server \<Rightarrow> ('s, 'r) job list" where
  "jobs st = (case sv_pc st of Handling j \<Rightarrow> [j] | _ \<Rightarrow> []) @ sv_running st"

definition responses :: "('s, 'r) server \<Rightarrow> 'r response list" where
  "responses st =
     (case sv_pc st of Sending r \<Rightarrow> [r] | _ \<Rightarrow> []) @ sv_blocked st @ sv_outbound st @ sv_written st"

text \<open>A response to one of the frames: refused by the reader, or what \<open>Q\<close> says of the request.\<close>

definition answers :: "(request \<Rightarrow> 'r response \<Rightarrow> bool) \<Rightarrow> frame_event list \<Rightarrow> 'r response \<Rightarrow> bool" where
  "answers Q frames r \<longleftrightarrow>
     (\<exists>f \<in> set frames. (\<exists>m. r = badRequest (frame_id f) m) \<or> (\<exists>req. frame_request f = Some req \<and> Q req r))"

definition job_ok ::
  "('s \<Rightarrow> bool) \<Rightarrow> (request \<Rightarrow> 'r response \<Rightarrow> bool) \<Rightarrow> frame_event list \<Rightarrow> ('s, 'r) job \<Rightarrow> bool" where
  "job_ok I Q frames j \<longleftrightarrow>
     (\<exists>f \<in> set frames. frame_request f = Some (fst j)) \<and> good I (\<lambda>x. Q (fst j) (fst x)) (snd j)"

definition served ::
  "('s \<Rightarrow> bool) \<Rightarrow> (request \<Rightarrow> 'r response \<Rightarrow> bool) \<Rightarrow> frame_event list \<Rightarrow> ('s, 'r) server \<Rightarrow> bool" where
  "served I Q frames st \<longleftrightarrow>
     I (sv_gh st) \<and> set (sv_frames st) \<subseteq> set frames \<and>
     (\<forall>j \<in> set (jobs st). job_ok I Q frames j) \<and> (\<forall>r \<in> set (responses st). answers Q frames r)"

lemma served_next:
  assumes "served I Q frames st" and "I (sv_gh st')" and "set (sv_frames st') \<subseteq> set (sv_frames st)"
    and "\<And>j. j \<in> set (jobs st') \<Longrightarrow> j \<in> set (jobs st) \<or> job_ok I Q frames j"
    and "\<And>r. r \<in> set (responses st') \<Longrightarrow> r \<in> set (responses st) \<or> answers Q frames r"
  shows "served I Q frames st'"
  using assms unfolding served_def by blast

lemma servedD:
  assumes "served I Q frames st"
  shows "I (sv_gh st)" and "f \<in> set (sv_frames st) \<Longrightarrow> f \<in> set frames"
    and "j \<in> set (jobs st) \<Longrightarrow> job_ok I Q frames j" and "r \<in> set (responses st) \<Longrightarrow> answers Q frames r"
  using assms by (auto simp: served_def)

lemma advance_good:
  "advance p s = Some (p', s', es) \<Longrightarrow> good I (\<lambda>x. Q (fst x)) p \<Longrightarrow> I s \<Longrightarrow> I s' \<and> good I (\<lambda>x. Q (fst x)) p'"
  by (cases "(p, s)" rule: advance.cases) auto

lemmas server_parts = jobs_def responses_def

text \<open>
  A runner all of whose \<open>admitted\<close> requests keep \<open>I\<close>, whatever the others do that keep it too, and end
  in a response as \<open>Q\<close> says.
\<close>

locale service =
  fixes rn :: "('s, 'r) runner" and I :: "'s \<Rightarrow> bool" and Q :: "request \<Rightarrow> 'r response \<Rightarrow> bool"
    and admitted :: "request \<Rightarrow> bool"
  assumes serves: "admitted req \<Longrightarrow> good I (\<lambda>x. Q req (fst x)) (rn req)"
begin

lemma job_starts:
  assumes "\<And>f req. f \<in> set frames \<Longrightarrow> frame_request f = Some req \<Longrightarrow> admitted req"
    and "served I Q frames st" and "sv_frames st = f # fs"
    and "on_frame f ok = (Inline req :: 'r action) \<or> on_frame f ok = (Spawn req :: 'r action)"
  shows "job_ok I Q frames (req, rn req)"
proof -
  have "f \<in> set frames" using servedD(2) [OF assms(2)] assms(3) by auto
  moreover have "frame_request f = Some req"
    using assms(4) on_frame_cases [of f ok, where ?'a = 'r] by auto
  ultimately show ?thesis
    using serves [OF assms(1)] by (auto simp: job_ok_def)
qed

lemma step_served:
  assumes admits: "\<And>f req. f \<in> set frames \<Longrightarrow> frame_request f = Some req \<Longrightarrow> admitted req"
  shows "step rn st st' \<Longrightarrow> served I Q frames st \<Longrightarrow> served I Q frames st'"
proof (induction rule: step.induct)
  case (answer st f fs r)
  then have "f \<in> set frames" using servedD(2) by fastforce
  then have "answers Q frames r"
    using answer(3) on_frame_cases [of f "sv_helloOK st", where ?'a = 'r] by (auto simp: answers_def)
  with answer servedD(1) show ?case by (intro served_next [OF answer(4)]) (auto simp: server_parts)
next
  case (greet st f fs req)
  have "job_ok I Q frames (req, rn req)"
    by (rule job_starts [OF admits greet(4,2) disjI1 [OF greet(3)]])
  with greet servedD(1) show ?case by (intro served_next [OF greet(4)]) (auto simp: server_parts)
next
  case (spawn st f fs req)
  have "job_ok I Q frames (req, rn req)"
    by (rule job_starts [OF admits spawn(4,2) disjI2 [OF spawn(3)]])
  with spawn servedD(1) show ?case by (intro served_next [OF spawn(4)]) (auto simp: server_parts)
next
  case (greeting st req p p' s es)
  then have "job_ok I Q frames (req, p)" by (auto simp: served_def jobs_def)
  then have "I s" "job_ok I Q frames (req, p')"
    using advance_good [OF greeting(2)] servedD(1) [OF greeting(3)] by (auto simp: job_ok_def)
  with greeting show ?case by (intro served_next [OF greeting(3)]) (auto simp: server_parts)
next
  case (work st xs req p ys p' s es)
  then have "job_ok I Q frames (req, p)" by (auto simp: served_def jobs_def)
  then have "I s" "job_ok I Q frames (req, p')"
    using advance_good [OF work(2)] servedD(1) [OF work(3)] by (auto simp: job_ok_def)
  with work show ?case by (intro served_next [OF work(3)]) (auto simp: server_parts)
next
  case (greeted st req r)
  then have "job_ok I Q frames (req, Ret (r, []))" by (auto simp: served_def jobs_def)
  then have "answers Q frames r" by (auto simp: job_ok_def answers_def)
  with greeted servedD(1) show ?case by (intro served_next [OF greeted(2)]) (auto simp: server_parts)
next
  case (finish st xs req r ys)
  then have "job_ok I Q frames (req, Ret (r, []))" by (auto simp: served_def jobs_def)
  then have "answers Q frames r" by (auto simp: job_ok_def answers_def)
  with finish servedD(1) show ?case by (intro served_next [OF finish(2)]) (auto simp: server_parts)
qed ((frule servedD(1)), (erule served_next; auto simp: server_parts))+

lemma steps_served:
  assumes "\<And>f req. f \<in> set frames \<Longrightarrow> frame_request f = Some req \<Longrightarrow> admitted req"
    and "I s" and "steps rn (Run_init frames s) n st"
  shows "served I Q frames st"
proof (rule steps_invariant [OF assms(3)])
  show "served I Q frames (Run_init frames s)"
    using assms(2) by (simp add: served_def Run_init_def server_parts)
qed (rule step_served [OF assms(1)])

end

section \<open>One response to each frame\<close>

text \<open>The ids still to be answered and those already answered.\<close>

definition owed :: "('s, 'r) server \<Rightarrow> int multiset" where
  "owed st = mset (map frame_id (sv_frames st)) + mset (map (\<lambda>j. rq_ID (fst j)) (jobs st)) +
     mset (map rs_ID (responses st))"

lemma badRequest_simps [simp]:
  "rs_ID (badRequest i m) = i" "rs_Error (badRequest i m) \<noteq> None" "rs_Result (badRequest i m) = None"
  "rs_Error (badRequest i m) =
     Some \<lparr>re_Code = CodeBadRequest, re_Message = m, re_RetryAfter = 0\<rparr>"
  by (simp_all add: badRequest_def fail_response_def)

text \<open>
  What the server relies on of the function that runs a request: the response is the request's,
  and carries a result or an error but not both.
\<close>

definition one_for :: "request \<Rightarrow> 'r response \<Rightarrow> bool" where
  "one_for req r \<longleftrightarrow> rs_ID r = rq_ID req \<and> (rs_Result r = None \<longleftrightarrow> rs_Error r \<noteq> None)"

locale request_runner =
  fixes rn :: "('s, 'r) runner"
  assumes run_one: "good (\<lambda>_. True) (\<lambda>x. one_for req (fst x)) (rn req)"

sublocale request_runner \<subseteq> replies: service rn "\<lambda>_. True" one_for "\<lambda>_. True"
  by unfold_locales (rule run_one)

context request_runner
begin

lemma step_owed: "step rn st st' \<Longrightarrow> served (\<lambda>_. True) one_for frames st \<Longrightarrow> owed st' = owed st"
proof (induction rule: step.induct)
  case (answer st f fs r)
  then show ?case using on_frame_cases [of f "sv_helloOK st", where ?'a = 'r] by (auto simp: owed_def server_parts)
next
  case (greet st f fs req)
  then show ?case using on_frame_cases [of f "sv_helloOK st", where ?'a = 'r]
    by (auto simp: owed_def server_parts frame_id_def)
next
  case (spawn st f fs req)
  then show ?case using on_frame_cases [of f "sv_helloOK st", where ?'a = 'r]
    by (auto simp: owed_def server_parts frame_id_def)
next
  case (greeted st req r)
  then have "one_for req r" by (auto simp: served_def jobs_def job_ok_def)
  with greeted show ?case by (auto simp: owed_def server_parts one_for_def)
next
  case (finish st xs req r ys)
  then have "one_for req r" by (auto simp: served_def jobs_def job_ok_def)
  with finish show ?case by (auto simp: owed_def server_parts one_for_def)
qed (auto simp: owed_def server_parts)

lemma steps_replies: "steps rn (Run_init frames s) n st \<Longrightarrow> served (\<lambda>_. True) one_for frames st"
  by (rule replies.steps_served) simp_all

lemma steps_owed: "steps rn (Run_init frames s) n st \<Longrightarrow> owed st = mset (map frame_id frames)"
proof (rule conjunct2 [OF steps_invariant [where P = "\<lambda>st. served (\<lambda>_. True) one_for frames st \<and>
      owed st = mset (map frame_id frames)"]])
  show "served (\<lambda>_. True) one_for frames (Run_init frames s) \<and> owed (Run_init frames s) = mset (map frame_id frames)"
    by (simp add: served_def owed_def Run_init_def server_parts)
next
  fix a b
  assume "step rn a b" "served (\<lambda>_. True) one_for frames a \<and> owed a = mset (map frame_id frames)"
  then show "served (\<lambda>_. True) one_for frames b \<and> owed b = mset (map frame_id frames)"
    using step_owed replies.step_served [of frames a b] by auto
qed

lemma answered_once:
  assumes "steps rn (Run_init frames s) n st" and "sv_pc st = Returned"
  shows "mset (map rs_ID (sv_written st)) = mset (map frame_id frames)"
proof -
  have "srv_ok st"
    by (rule steps_invariant [OF assms(1)]) (simp_all add: srv_ok_init step_srv_ok)
  with assms(2) have "owed st = mset (map rs_ID (sv_written st))"
    by (simp add: owed_def srv_ok_def server_parts)
  with steps_owed [OF assms(1)] show ?thesis by simp
qed

end

text \<open>Every registry gives such a runner.\<close>

lemma good_any: "(\<And>r. Q r) \<Longrightarrow> good (\<lambda>_. True) Q p"
  by (induction p) auto

lemma good_run:
  assumes "\<And>h. map_of reg (rq_Method req) = Some h \<Longrightarrow> good I Q (h (rq_Params req))"
    and "\<And>r. Q r \<Longrightarrow> P (deferred req (settle req r))"
    and "P (deferred req (badRequest (rq_ID req) (''unknown method: '' @ rq_Method req), []))"
  shows "good I P (run reg req)"
proof (cases "map_of reg (rq_Method req)")
  case None
  then show ?thesis using assms(3) by (simp add: run_def)
next
  case (Some h)
  have "good I (\<lambda>r. P (deferred req (settle req r))) (h (rq_Params req))"
    using assms(1) [OF Some] assms(2) by (rule good_mono)
  then show ?thesis by (simp add: run_def Some good_mapP)
qed

lemma settle_simps [simp]:
  "fst (deferred req x) = fst x" "rs_ID (fst (settle req r)) = rq_ID req"
  "rs_Result (fst (settle req r)) = (case r of Inl e \<Rightarrow> None | Inr v \<Rightarrow> Some v)"
  "rs_Error (fst (settle req r)) =
    (case r of Inl (Err e) \<Rightarrow> Some (toRPCError e) | Inl Panic \<Rightarrow> Some panic_error | Inr v \<Rightarrow> None)"
  "length (snd (settle req r)) \<le> 1"
  by (auto simp: deferred_def settle_def fail_response_def split: prod.split sum.split herr.split)

interpretation registry_runner: request_runner "run reg" for reg :: "'s registry"
  by unfold_locales
    (rule good_run [where Q = "\<lambda>_. True", OF good_any], auto simp: one_for_def split: sum.split herr.split)

section \<open>The handshake comes first\<close>

definition greeting :: "('r \<Rightarrow> bool) \<Rightarrow> 'r response \<Rightarrow> bool" where
  "greeting greets r \<longleftrightarrow> (case rs_Result r of None \<Rightarrow> False | Some v \<Rightarrow> greets v)"

text \<open>A response stream in which nothing but errors comes before a greeting.\<close>

fun after_hello :: "('r \<Rightarrow> bool) \<Rightarrow> bool \<Rightarrow> 'r response list \<Rightarrow> bool" where
  "after_hello greets seen [] = True"
| "after_hello greets seen (r # rs) =
     ((seen \<or> rs_Result r = None \<or> greeting greets r) \<and> after_hello greets (seen \<or> greeting greets r) rs)"

definition greeted :: "('r \<Rightarrow> bool) \<Rightarrow> 'r response list \<Rightarrow> bool" where
  "greeted greets rs \<longleftrightarrow> (\<exists>r \<in> set rs. greeting greets r)"

lemma greeted_simps [simp]:
  "greeted greets [] = False" "greeted greets (r # rs) = (greeting greets r \<or> greeted greets rs)"
  "greeted greets (rs @ qs) = (greeted greets rs \<or> greeted greets qs)"
  by (auto simp: greeted_def)

lemma after_hello_append [simp]:
  "after_hello greets seen (rs @ qs) =
    (after_hello greets seen rs \<and> after_hello greets (seen \<or> greeted greets rs) qs)"
  by (induction rs arbitrary: seen) (auto simp: disj_assoc)

definition gate :: "('r \<Rightarrow> bool) \<Rightarrow> 's \<Rightarrow> ('s, 'r) server \<Rightarrow> bool" where
  "gate greets s0 st \<longleftrightarrow>
     (let sent = sv_written st @ sv_outbound st in
        after_hello greets False sent \<and>
        (\<not> sv_helloOK st \<longrightarrow> sv_running st = [] \<and> sv_blocked st = [] \<and> sv_gh st = s0) \<and>
        (sv_running st \<noteq> [] \<or> sv_blocked st \<noteq> [] \<longrightarrow> greeted greets sent) \<and>
        (case sv_pc st of
           Sending r \<Rightarrow> (rs_Result r = None \<or> greeting greets r) \<and>
             (sv_helloOK st \<longrightarrow> greeted greets sent \<or> greeting greets r)
         | Handling j \<Rightarrow>
             (\<exists>r es. snd j = Ret (r, es) \<and> (rs_Result r = None \<longrightarrow> rs_Error r \<noteq> None) \<and>
               (rs_Result r = None \<or> greeting greets r)) \<and>
             (sv_helloOK st \<longrightarrow> greeted greets sent)
         | _ \<Rightarrow> sv_helloOK st \<longrightarrow> greeted greets sent))"

text \<open>A response with a result or an error but not both, and a code of the closed set.\<close>

definition proper :: "'r response \<Rightarrow> bool" where
  "proper r \<longleftrightarrow>
     (rs_Result r = None \<longleftrightarrow> rs_Error r \<noteq> None) \<and>
     (\<forall>e. rs_Error r = Some e \<longrightarrow> re_Code e \<in> set closed_codes)"

lemma proper_badRequest [simp]: "proper (badRequest i m)"
  by (simp add: proper_def)

text \<open>
  A runner whose handshake is answered at once, with a greeting or an error, and all of whose
  responses have codes of the closed set, while an invariant of the shared state is kept.
\<close>

locale sidecar_runner = request_runner rn
  for rn :: "('s, 'r) runner" +
  fixes greets :: "'r \<Rightarrow> bool" and I :: "'s \<Rightarrow> bool"
  assumes hello_now: "rq_Method req = ''hello'' \<Longrightarrow>
      \<exists>r es. rn req = Ret (r, es) \<and> (rs_Result r = None \<or> greeting greets r)"
    and run_proper: "good I (\<lambda>x. proper (fst x)) (rn req)"

sublocale sidecar_runner \<subseteq> sound: service rn I "\<lambda>_. proper" "\<lambda>_. True"
  by unfold_locales (rule run_proper)

context sidecar_runner
begin

lemma hello_job:
  assumes "rq_Method req = ''hello''"
  shows "\<exists>r es. rn req = Ret (r, es) \<and> (rs_Result r = None \<longrightarrow> rs_Error r \<noteq> None) \<and>
    (rs_Result r = None \<or> greeting greets r)"
  using hello_now [OF assms] run_one [of req] by (auto simp: one_for_def)

lemma step_gate: "step rn st st' \<Longrightarrow> gate greets s0 st \<Longrightarrow> gate greets s0 st'"
proof (induction rule: step.induct)
  case (answer st f fs r)
  then show ?case
    using on_frame_cases [of f "sv_helloOK st", where ?'a = 'r] by (auto simp: gate_def Let_def)
next
  case (greet st f fs req)
  then show ?case
    using on_frame_cases [of f "sv_helloOK st", where ?'a = 'r] hello_job [of req]
    by (auto simp: gate_def Let_def)
next
  case (spawn st f fs req)
  then show ?case
    using on_frame_cases [of f "sv_helloOK st", where ?'a = 'r] by (auto simp: gate_def Let_def)
next
  case (greeting st req p p' s es)
  then obtain r fs where p: "p = Ret (r, fs)" "rs_Result r = None \<longrightarrow> rs_Error r \<noteq> None"
    "rs_Result r = None \<or> greeting greets r"
    by (auto simp: gate_def Let_def)
  with greeting(2) have "s = sv_gh st" "\<exists>es'. p' = Ret (r, es')" by (cases fs; auto)+
  with greeting p show ?case by (auto simp: gate_def Let_def)
next
  case (greeted st req r)
  then show ?case by (auto simp: gate_def Let_def)
next
  case (work st xs req p ys p' s es)
  then show ?case by (auto simp: gate_def Let_def split: reader_pc.splits)
qed (auto simp: gate_def Let_def split: reader_pc.splits)

lemma steps_gate:
  "steps rn (Run_init frames s) n st \<Longrightarrow> gate greets s st"
  by (erule steps_invariant [where P = "gate greets s"])
    (simp add: gate_def Run_init_def, rule step_gate)

lemma steps_sound:
  assumes "I s" and "steps rn (Run_init frames s) n st"
  shows "I (sv_gh st)" and "r \<in> set (responses st) \<Longrightarrow> proper r"
proof -
  have srv: "served I (\<lambda>_. proper) frames st"
    using assms by (intro sound.steps_served) simp_all
  show "I (sv_gh st)" using srv by (rule servedD)
  show "r \<in> set (responses st) \<Longrightarrow> proper r"
    using servedD(4) [OF srv] by (fastforce simp: answers_def)
qed

end

fun is_hello_result :: "result_val \<Rightarrow> bool" where
  "is_hello_result (RHello h) = True"
| "is_hello_result _ = False"

lemma map_of_registry_hello: "map_of (NewRegistry d) ''hello'' = Some (hello d)"
  by (simp add: NewRegistry_def)

lemma hello_result:
  "\<exists>r. hello d params = Ret r \<and> (\<forall>v. r = Inr v \<longrightarrow> is_hello_result v)"
  by (auto simp: hello_def decode_def bad_def failP_def retP_def split: option.split)

text \<open>Any GitHub surface that meets the handlers' contract gives such a runner.\<close>

lemma closed_reply: "ends_in (herr_in closed_err) any r \<Longrightarrow> proper (fst (deferred req (settle req r)))"
proof (cases r)
  case (Inl e)
  moreover have "closed_err x \<Longrightarrow> re_Code (toRPCError x) \<in> set closed_codes" for x
    by (cases x) (auto simp: toRPCError_def)
  ultimately show "ends_in (herr_in closed_err) any r \<Longrightarrow> ?thesis"
    by (cases e) (auto simp: proper_def)
qed (simp add: proper_def)

lemma registry_sidecar:
  assumes api: "github_api api closed_err I any V" and gh: "dp_GH d = Some api"
  shows "sidecar_runner (run (NewRegistry d)) is_hello_result I"
proof (rule sidecar_runner.intro [OF registry_runner.request_runner_axioms], unfold_locales)
  fix req :: request
  show "\<exists>r es. run (NewRegistry d) req = Ret (r, es) \<and> (rs_Result r = None \<or> greeting is_hello_result r)"
    if "rq_Method req = ''hello''"
    using that hello_result [of d "rq_Params req"]
    by (auto simp: run_def map_of_registry_hello deferred_def settle_def fail_response_def greeting_def
        split: sum.split herr.split)
  show "good I (\<lambda>x. proper (fst x)) (run (NewRegistry d) req)"
  proof (rule good_run [where Q = "ends_in (herr_in closed_err) any"])
    show "good I (ends_in (herr_in closed_err) any) (h (rq_Params req))"
      if "map_of (NewRegistry d) (rq_Method req) = Some h" for h
      using github_api.handler_good [OF api gh map_of_SomeD [OF that]] by simp
    show "proper (fst (deferred req (settle req r)))" if "ends_in (herr_in closed_err) any r" for r
      using that by (rule closed_reply)
  qed simp
qed

interpretation sidecar: sidecar_runner
    "run (main_registry env ae w0 je)"
    is_hello_result client_inv
  for env :: "'w env" and ae and w0 :: 'v and je
  by (rule registry_sidecar [OF client.github_api_axioms]) simp

text \<open>And one whose operations are bounded gives a bounded runner: a request is its handler's actions
  and at most two lines of the log.\<close>

lemma registry_bounded:
  assumes api: "bounded_api api k" and gh: "dp_GH d = Some api"
  shows "bounded_runner (run (NewRegistry d)) (k + 3)"
proof
  fix req :: request
  have "within (run (NewRegistry d) req) (k + 1)"
  proof (cases "map_of (NewRegistry d) (rq_Method req)")
    case (Some h)
    with bounded_api.registry_within [OF api gh] have "within (h (rq_Params req)) (1 + k)"
      by (auto simp: list_all_iff dest: map_of_SomeD)
    then show ?thesis by (simp add: run_def Some within_mapP)
  qed (simp add: run_def)
  moreover have "good (\<lambda>_. True) (\<lambda>x. length (snd x) \<le> 2) (run (NewRegistry d) req)"
    by (rule good_run [where Q = "\<lambda>_. True", OF good_any])
      (auto simp: deferred_def settle_def split: sum.split herr.split)
  ultimately have "costs (run (NewRegistry d) req) (k + 1 + 2)" by (rule within_costs)
  then show "costs (run (NewRegistry d) req) (k + 3)" by (simp add: eval_nat_numeral)
qed

definition requestActions :: nat where "requestActions = methodActions + 3"

interpretation sidecar_bound: bounded_runner "run (main_registry env ae w0 je)" requestActions
  for env :: "'w env" and ae and w0 :: 'v and je
  unfolding requestActions_def by (rule registry_bounded [OF client_bound.bounded_api_axioms]) simp

section \<open>The output\<close>

lemma opt_numbers_inline [simp]:
  "\<forall>(k, v) \<in> set (opt_str a t). numbers_inline v" "\<forall>(k, v) \<in> set (opt_int a i). numbers_inline v"
  "\<forall>(k, v) \<in> set (opt_bool a b). numbers_inline v" "numbers_inline (json_int i)"
  by (auto simp: opt_str_def opt_int_def opt_bool_def json_int_def)

lemmas result_json_defs =
  helloResult_json_def PR_json_def PRFile_json_def PRDetail_json_def FileBlob_json_def
  FileVersions_json_def NewestComment_json_def ThreadComment_json_def Thread_json_def
  PendingComment_json_def PendingReview_json_def Check_json_def Checks_json_def
  TimelineComment_json_def ReviewSummary_json_def Timeline_json_def PostComment_json_def
  PostIssueComment_json_def ResolveThread_json_def SetFileViewed_json_def Merge_json_def
  SetPRState_json_def StartReview_json_def SubmitReview_json_def

lemma result_numbers_inline: "numbers_inline (result_json v)"
  by (cases v) (auto simp: result_json_defs ball_Un split: option.split)

section \<open>Properties\<close>

text \<open>The id a line of the input is answered with.\<close>

definition answer_id :: "string \<Rightarrow> int" where
  "answer_id w =
     (if length w > maxLine then 0
      else case decode_request w of None \<Rightarrow> 0 | Some req \<Rightarrow> rq_ID req)"

lemma frame_ids_segments:
  "map frame_id (concat (map (segment_event maxLine) ws)) = map answer_id (filter (\<lambda>w. w \<noteq> []) ws)"
  by (induction ws) (auto simp: segment_event_def frame_id_def frame_request_def answer_id_def)

text \<open>C2: One response to each request.  Whatever the bytes on the input, the registry and the
  interleaving of the goroutines, when \<open>Run\<close> returns it has written exactly one response for
  every non-empty line of the input: with the request's id, or with id 0 for a line that is too
  long or is not a request.  None is lost, none is sent twice.\<close>

theorem one_response_each:
  assumes "steps (run reg) (Run_init (Run_frames input) s) n st" and "sv_pc st = Returned"
  shows "mset (map rs_ID (sv_written st)) =
    mset (map answer_id (filter (\<lambda>w. w \<noteq> []) (split_on nl (rd_rest input))))"
  using registry_runner.answered_once [OF assms]
  by (simp add: Run_frames_def read_events_segments frame_ids_segments del: mset_map)

definition hello_request :: json where
  "hello_request = JObj [(''id'', JNum ''7''), (''method'', JStr ''hello'')]"

definition two_lines :: reader where
  "two_lines = \<lparr>rd_rest = ''x'' @ nl # json_text hello_request @ [nl], rd_fail = EOF\<rparr>"

lemma two_lines_ids:
  "map answer_id (filter (\<lambda>w. w \<noteq> []) (split_on nl (rd_rest two_lines))) = [0, 7]"
proof -
  have wire: "json_text hello_request =
      ''{'' @ [CHR 0x22] @ ''id'' @ [CHR 0x22] @ '':7,'' @ [CHR 0x22] @ ''method'' @ [CHR 0x22] @ '':'' @
      [CHR 0x22] @ ''hello'' @ [CHR 0x22] @ ''}''"
    by code_simp
  have num: "parse_magnitude False ''7'' = NumOk 7" by code_simp
  have ok: "json_ok hello_request" "json_depth hello_request \<le> max_nesting"
    by (simp_all add: hello_request_def max_nesting_def) code_simp
  have hello: "decode_request (json_text hello_request) =
      Some \<lparr>rq_ID = 7, rq_Method = ''hello'', rq_Params = None\<rparr>"
    by (simp only: decode_request_def unmarshal_text [OF ok])
      (simp add: num hello_request_def request_fields_def zero_request_def find_field_def fld_def)
  have x: "decode_request ''x'' = None" by code_simp
  have "split_on nl (rd_rest two_lines) = [''x'', json_text hello_request, []]"
    unfolding two_lines_def wire by (simp add: nl_def)
  moreover have "length (json_text hello_request) \<le> maxLine" "json_text hello_request \<noteq> []"
    unfolding wire by (simp_all add: maxLine_def)
  ultimately show ?thesis using hello x by (simp add: answer_id_def maxLine_def del: json_text.simps)
qed

lemma test_run_completes:
  "\<exists>n st. steps (run (NewRegistry test_deps)) (Run_init frames s) n st \<and> sv_pc st = Returned"
  using sidecar_bound.run_completes [of script_env test_auth "()" "\<lambda>_ _. []"] by (simp add: test_deps_def)

theorem one_response_each_witness:
  "\<exists>n st. steps (run (NewRegistry test_deps)) (Run_init (Run_frames two_lines) (script [])) n st \<and>
     sv_pc st = Returned \<and> mset (map rs_ID (sv_written st)) = {#0, 7#}"
proof -
  obtain n st where run: "steps (run (NewRegistry test_deps)) (Run_init (Run_frames two_lines) (script [])) n st"
      "sv_pc st = Returned"
    using test_run_completes by blast
  with one_response_each [OF run] show ?thesis
    by (auto simp: two_lines_ids simp del: mset_map)
qed

text \<open>C3: The server neither hangs nor runs on.  In every state a run can reach, \<open>Run\<close> has returned exactly
  when no goroutine can go on, the channel never holds more than its 64 messages, and a run over
  \<open>k\<close> frames has at most \<open>207 k + 3\<close> steps, the actions of its handlers and the lines it logs
  included.\<close>

theorem never_stuck:
  assumes "steps (run (main_registry env ae w0 je)) (Run_init frames s) n st"
  shows "(sv_pc st = Returned \<longleftrightarrow> \<not> (\<exists>st'. step (run (main_registry env ae w0 je)) st st')) \<and>
    length (sv_outbound st) \<le> 64 \<and> n \<le> 207 * length frames + 3"
proof -
  have ok: "srv_ok st"
    by (rule steps_invariant [OF assms]) (simp_all add: srv_ok_init step_srv_ok)
  moreover have "n \<le> 207 * length frames + 3"
    using sidecar_bound.steps_bound [OF assms] by (simp add: requestActions_def methodActions_def)
  ultimately show ?thesis
    using progress [of st "run (main_registry env ae w0 je)"] returned_final [OF ok]
    by (auto simp: srv_ok_def outbound_cap_def)
qed

theorem never_stuck_witness:
  "(\<exists>st'. step (run (NewRegistry test_deps)) (Run_init [Oversized] (script [])) st') \<and>
     \<not> steps (run (NewRegistry test_deps)) (Run_init [Oversized] (script [])) 211
         (Run_init [Oversized] (script []))"
proof -
  let ?st = "Run_init [Oversized] (script []) :: (http_response list client_st, result_val) server"
  note stuck = never_stuck [where env = script_env and ae = test_auth and je = "\<lambda>_ _. []",
      simplified test_startup, folded test_deps_def [simplified test_startup]]
  have "sv_pc ?st \<noteq> Returned" by (simp add: Run_init_def)
  with steps.start stuck [where frames = "[Oversized]" and s = "script []" and n = 0 and st = ?st]
  have "\<exists>st'. step (run (NewRegistry test_deps)) ?st st'" by blast
  moreover have "\<not> steps (run (NewRegistry test_deps)) ?st 211 ?st"
    using stuck [where frames = "[Oversized]" and s = "script []" and n = 211 and st = ?st] by auto
  ultimately show ?thesis by blast
qed

text \<open>C4: The handshake comes first.  Over any registry the program builds, the responses written
  before the first successful \<open>hello\<close> are all errors, and until the handshake is accepted no
  method has been started and the state of the GitHub client is untouched: nothing is called.\<close>

theorem handshake_first:
  assumes "steps (run (main_registry env ae w0 je))
      (Run_init frames s) n st"
  shows "after_hello is_hello_result False (sv_written st) \<and>
    (\<not> sv_helloOK st \<longrightarrow> sv_running st = [] \<and> sv_blocked st = [] \<and> sv_gh st = s)"
  using sidecar.steps_gate [OF assms] by (simp add: gate_def Let_def)

theorem handshake_first_witness:
  "\<exists>n st. steps (run (NewRegistry test_deps)) (Run_init [Oversized] (script [])) n st \<and>
     sv_pc st = Returned \<and> after_hello is_hello_result False (sv_written st)"
proof -
  obtain n st where run: "steps (run (NewRegistry test_deps)) (Run_init [Oversized] (script [])) n st"
      "sv_pc st = Returned"
    using test_run_completes by blast
  with handshake_first [of script_env test_auth "()" "\<lambda>_ _. []" "[Oversized]" "script []" n st]
  show ?thesis by (auto simp: test_deps_def)
qed

text \<open>C21: Nothing outside the closed set of codes reaches the client, in any reachable state, over the
  client the program starts with; and that client's invariant holds throughout.\<close>

theorem codes_closed_on_wire:
  assumes "steps (run (main_registry env ae w0 je))
      (Run_init frames s) n st"
    and "client_inv s" and "r \<in> set (sv_written st)" and "rs_Error r = Some e"
  shows "re_Code e \<in> set closed_codes \<and> client_inv (sv_gh st)"
  using sidecar.steps_sound [OF assms(2,1)] assms(3,4) by (auto simp: responses_def proper_def)

lemma sent_written:
  assumes "sv_pc st = Sending r" and "sv_outbound st = []"
  shows "\<exists>st'. steps rn st 2 st' \<and> sv_written st' = sv_written st @ [r] \<and> sv_gh st' = sv_gh st"
proof -
  let ?s2 = "st\<lparr>sv_pc := Reading, sv_outbound := sv_outbound st @ [r]\<rparr>"
  let ?s3 = "?s2\<lparr>sv_outbound := [], sv_written := sv_written ?s2 @ [r]\<rparr>"
  have "step rn st ?s2" by (rule step.send) (simp_all add: assms outbound_cap_def)
  moreover have "step rn ?s2 ?s3" by (rule step.flush) (simp add: assms)
  ultimately have "steps rn st (Suc (Suc 0)) ?s3" by (blast intro: steps.intros)
  then show ?thesis by (intro exI [of _ ?s3]) (simp add: numeral_2_eq_2)
qed

lemma steps_trans: "steps rn b m c \<Longrightarrow> steps rn a n b \<Longrightarrow> steps rn a (n + m) c"
  by (induction rule: steps.induct) (auto intro: steps.intros)

lemma one_frame_run:
  assumes "on_frame f False = Emit r"
  shows "\<exists>n st. steps rn (Run_init [f] s) n st \<and> sv_written st = [r]"
proof -
  let ?s1 = "(Run_init [f] s)\<lparr>sv_frames := [], sv_pc := Sending r\<rparr>"
  have "step rn (Run_init [f] s) ?s1"
    by (rule step.answer [of _ f "[]"]) (simp_all add: Run_init_def assms)
  moreover obtain st where "steps rn ?s1 2 st" "sv_written st = [r]"
    using sent_written [of ?s1 r rn] by (auto simp: Run_init_def)
  ultimately show ?thesis by (blast intro: steps_first)
qed

text \<open>And one handshake answered at once.\<close>

lemma logs_out:
  "sv_pc st = Handling (req, Ret (r, es)) \<Longrightarrow>
    \<exists>n. steps rn st n (st\<lparr>sv_pc := Handling (req, Ret (r, [])), sv_log := sv_log st @ es\<rparr>)"
proof (induction es arbitrary: st)
  case Nil
  then have "st\<lparr>sv_pc := Handling (req, Ret (r, [])), sv_log := sv_log st @ []\<rparr> = st" by simp
  then show ?case by (metis steps.start)
next
  case (Cons e es)
  let ?s1 = "st\<lparr>sv_pc := Handling (req, Ret (r, es)), sv_gh := sv_gh st, sv_log := sv_log st @ [e]\<rparr>"
  have "step rn st ?s1" using Cons.prems by (rule step.greeting) simp
  moreover obtain n where "steps rn ?s1 n (?s1\<lparr>sv_pc := Handling (req, Ret (r, [])), sv_log := sv_log ?s1 @ es\<rparr>)"
    using Cons.IH [of ?s1] by auto
  ultimately show ?case by (auto intro!: exI [of _ "Suc n"] dest: steps_first)
qed

lemma one_hello_run:
  assumes "on_frame f False = (Inline req :: 'r action)" and "rn req = Ret (r :: 'r response, es)"
  shows "\<exists>n st. steps rn (Run_init [f] s) n st \<and> sv_written st = [r]"
proof -
  let ?s1 = "(Run_init [f] s)\<lparr>sv_frames := [], sv_pc := Handling (req, rn req)\<rparr>"
  let ?s2 = "?s1\<lparr>sv_pc := Handling (req, Ret (r, [])), sv_log := sv_log ?s1 @ es\<rparr>"
  let ?s3 = "?s2\<lparr>sv_pc := Sending r, sv_helloOK := sv_helloOK ?s2 \<or> rs_Error r = None\<rparr>"
  have "step rn (Run_init [f] s) ?s1"
    by (rule step.greet [of _ f "[]"]) (simp_all add: Run_init_def assms)
  moreover obtain n where "steps rn ?s1 n ?s2"
    using logs_out [of ?s1 req r es rn] assms(2) by auto
  moreover have "step rn ?s2 ?s3" by (rule step.greeted) simp
  ultimately have "steps rn (Run_init [f] s) (Suc (Suc n)) ?s3" by (blast intro: steps_first steps.intros)
  moreover obtain st where "steps rn ?s3 2 st" "sv_written st = [r]"
    using sent_written [of ?s3 r rn] by (auto simp: Run_init_def)
  ultimately show ?thesis by (blast dest: steps_trans)
qed

theorem codes_closed_on_wire_witness:
  "\<exists>n st r e. steps (run (NewRegistry test_deps)) (Run_init [Oversized] (script [])) n st \<and>
     sv_written st = [r] \<and> rs_Error r = Some e \<and> re_Code e \<in> set closed_codes \<and> client_inv (sv_gh st)"
proof -
  let ?r = "badRequest 0 ''request exceeds the 16777216 byte frame limit'' :: result_val response"
  obtain n st where run: "steps (run (NewRegistry test_deps)) (Run_init [Oversized] (script [])) n st"
      "sv_written st = [?r]"
    using one_frame_run [of Oversized ?r "run (NewRegistry test_deps)" "script []"]
    by (auto simp: on_frame_def)
  with codes_closed_on_wire [of script_env test_auth "()" "\<lambda>_ _. []" "[Oversized]" "script []" n st ?r]
  show ?thesis by (fastforce simp: test_deps_def)
qed

text \<open>Splitting standard output at the line feeds gives the text of each response in turn.\<close>

lemma stdout_lines:
  "split_on nl (stdout st) = map (\<lambda>r. json_text (response_json result_json r)) (sv_written st) @ [[]]"
proof -
  have nonl: "nl \<notin> set (json_text (response_json result_json r))" for r
    using json_text_no_newline [OF response_numbers_inline [OF result_numbers_inline]]
    by (simp add: nl_def)
  have "split_on nl (concat (map (encode_response result_json) rs)) =
      map (\<lambda>r. json_text (response_json result_json r)) rs @ [[]]" for rs
    by (induction rs) (simp_all add: encode_response_def split_on_append [OF nonl] flip: nl_def)
  then show ?thesis by (simp add: stdout_def)
qed

end
