(* ===== verification/Wire.thy ===== *)
theory Wire
  imports Server_Laws
begin

text \<open>
  The wire as its two ends see it: the text of a request decodes to that request, the line written
  for a response parses back to it, and the reading loop turns the input into its lines.
\<close>

section \<open>The literals \<open>Itoa\<close> writes are JSON numbers\<close>

lemma span_digits_all: "\<forall>c \<in> set ds. digit_val c \<noteq> None \<Longrightarrow> span_digits ds = (ds, [])"
  by (induction ds) auto

lemma digit_char_zero: "n < 10 \<Longrightarrow> digit_char n = CHR ''0'' \<longleftrightarrow> n = 0"
proof -
  assume "n < 10"
  then have "n \<in> {0, 1, 2, 3, 4, 5, 6, 7, 8, 9}" by auto
  then show ?thesis by (auto simp: digit_char_def)
qed

lemma nat_str_head: "0 < n \<Longrightarrow> hd (nat_str n) \<noteq> CHR ''0''"
proof (induction n rule: nat_str.induct)
  case (1 n)
  then show ?case
    by (subst nat_str.simps) (auto simp: digit_char_zero)
qed

lemma scan_nat_str: "scan_int_part (nat_str n) = (nat_str n, [])"
proof (cases "n = 0")
  case True
  then show ?thesis by (simp add: nat_str.simps [of 0] scan_int_part_def digit_char_def)
next
  case False
  obtain c cs where s: "nat_str n = c # cs" by (cases "nat_str n") auto
  with nat_str_head [of n] False have "c \<noteq> CHR ''0''" by auto
  then show ?thesis
    using span_digits_all [of "nat_str n"] nat_str_digits [of _ n] s
    by (simp add: scan_int_part_def)
qed

lemma num_ok_itoa [simp]: "num_ok (itoa i)"
proof -
  obtain c cs where s: "nat_str (nat i) = c # cs" by (cases "nat_str (nat i)") auto
  then have "c \<noteq> CHR ''-''" using nat_str_no_sign [of c "nat i"] by simp
  then have "scan_sign (nat_str (nat i)) = ([], nat_str (nat i))" by (simp add: s scan_sign_def)
  moreover have "scan_sign (CHR ''-'' # t) = (''-'', t)" for t by (simp add: scan_sign_def)
  ultimately show ?thesis
    by (simp add: num_ok_def itoa_def scan_number_def scan_nat_str scan_frac_def scan_exp_def)
qed

section \<open>Requests\<close>

text \<open>The object a client writes for a request.\<close>

definition request_json :: "request \<Rightarrow> json" where
  "request_json r =
     JObj ([(''id'', json_int (rq_ID r)), (''method'', JStr (rq_Method r))] @
           (case rq_Params r of None \<Rightarrow> [] | Some p \<Rightarrow> [(''params'', p)]))"

lemma decode_request_json:
  assumes "json_ok (request_json r)" and "json_depth (request_json r) \<le> max_nesting" and "in_int64 (rq_ID r)"
  shows "decode_request (json_text (request_json r)) = Some r"
proof -
  have "decode_request (json_text (request_json r)) =
      dec_struct request_fields (request_json r) zero_request"
    by (simp add: decode_request_def unmarshal_text assms(1,2))
  also have "\<dots> = Some r"
    using assms(3)
    by (cases r) (auto simp: request_json_def json_int_def request_fields_def zero_request_def
        find_field_def fld_def dec_raw_def parse_int64_itoa split: option.split)
  finally show ?thesis .
qed

text \<open>C25: A request survives the wire: the text of its object decodes to the same id,
  method and parameters, none of them changed by the escaping of strings or the scan of numbers,
  whenever its strings are text, its id fits in 64 bits and its nesting is within the parser's bound.\<close>

theorem request_roundtrip:
  assumes "in_int64 (rq_ID r)" and "utf8_ok (rq_Method r)"
    and "\<And>p. rq_Params r = Some p \<Longrightarrow> json_ok p \<and> json_depth p < max_nesting"
  shows "decode_request (json_text (request_json r)) = Some r"
proof -
  have keys: "utf8_ok ''id''" "utf8_ok ''method''" "utf8_ok ''params''" by code_simp+
  have "json_ok (request_json r)" and "json_depth (request_json r) \<le> max_nesting"
    using assms(2,3) keys
    by (auto simp: request_json_def json_int_def max_nesting_def less_Suc_eq_le split: option.split)
  then show ?thesis using assms(1) by (rule decode_request_json)
qed

theorem request_roundtrip_witness:
  "decode_request (json_text (request_json
      \<lparr>rq_ID = 7, rq_Method = ''get_pr'', rq_Params = Some (JObj [(''owner'', JStr ''o'')])\<rparr>)) =
    Some \<lparr>rq_ID = 7, rq_Method = ''get_pr'', rq_Params = Some (JObj [(''owner'', JStr ''o'')])\<rparr>"
proof (rule request_roundtrip)
  show "in_int64 (rq_ID \<lparr>rq_ID = 7, rq_Method = ''get_pr'', rq_Params = Some (JObj [(''owner'', JStr ''o'')])\<rparr>)"
    by (simp add: in_int64_def min_int64_def max_int64_def)
  show "utf8_ok (rq_Method \<lparr>rq_ID = 7, rq_Method = ''get_pr'', rq_Params = Some (JObj [(''owner'', JStr ''o'')])\<rparr>)"
    by (simp, code_simp)
  fix p
  assume "rq_Params \<lparr>rq_ID = 7, rq_Method = ''get_pr'', rq_Params = Some (JObj [(''owner'', JStr ''o'')])\<rparr> = Some p"
  then have "p = JObj [(''owner'', JStr ''o'')]" by simp
  moreover have "utf8_ok ''owner''" "utf8_ok ''o''" by code_simp+
  ultimately show "json_ok p \<and> json_depth p < max_nesting" by (simp add: max_nesting_def)
qed

section \<open>Responses\<close>

text \<open>
  What the client on the other end makes of a line: the value under each of the keys the protocol
  documents, an absent \<open>retry_after\<close> being 0 and an absent \<open>result\<close> or \<open>error\<close> none.
\<close>

definition read_int :: "json \<Rightarrow> int option" where
  "read_int j = (case j of JNum l \<Rightarrow> (case parse_int64 l of NumOk i \<Rightarrow> Some i | _ \<Rightarrow> None) | _ \<Rightarrow> None)"

definition read_string :: "json \<Rightarrow> string option" where
  "read_string j = (case j of JStr s \<Rightarrow> Some s | _ \<Rightarrow> None)"

definition read_error :: "json \<Rightarrow> rpc_error option" where
  "read_error j =
     (case j of
        JObj kvs \<Rightarrow>
          (case (Option.bind (map_of kvs ''code'') read_string, Option.bind (map_of kvs ''message'') read_string,
               case map_of kvs ''retry_after'' of None \<Rightarrow> Some 0 | Some n \<Rightarrow> read_int n) of
             (Some code, Some msg, Some n) \<Rightarrow> Some \<lparr>re_Code = code, re_Message = msg, re_RetryAfter = n\<rparr>
           | _ \<Rightarrow> None)
      | _ \<Rightarrow> None)"

definition read_response :: "string \<Rightarrow> json response option" where
  "read_response line =
     (case parse_json line of
        Some (JObj kvs) \<Rightarrow>
          (case (Option.bind (map_of kvs ''id'') read_int, map_of kvs ''error'') of
             (Some i, None) \<Rightarrow> Some \<lparr>rs_ID = i, rs_Result = map_of kvs ''result'', rs_Error = None\<rparr>
           | (Some i, Some e) \<Rightarrow>
               map_option (\<lambda>err. \<lparr>rs_ID = i, rs_Result = map_of kvs ''result'', rs_Error = Some err\<rparr>)
                 (read_error e)
           | _ \<Rightarrow> None)
      | _ \<Rightarrow> None)"

lemma parse_response:
  assumes "\<And>v. rs_Result r = Some v \<Longrightarrow> json_ok (enc v) \<and> json_depth (enc v) < max_nesting"
    and "\<And>e. rs_Error r = Some e \<Longrightarrow> utf8_ok (re_Code e) \<and> utf8_ok (re_Message e)"
  shows "parse_json (encode_response enc r) = Some (response_json enc r)"
proof -
  have keys: "utf8_ok ''id''" "utf8_ok ''result''" "utf8_ok ''error''" "utf8_ok ''code''"
    "utf8_ok ''message''" "utf8_ok ''retry_after''" by code_simp+
  have "json_ok (response_json enc r)" and "json_depth (response_json enc r) \<le> max_nesting"
    using assms keys
    by (auto simp: response_json_def rpc_error_json_def json_int_def max_nesting_def less_Suc_eq_le
        split: option.split)
  then show ?thesis
    using parse_json_text [of "response_json enc r" "[CHR 0x0A]"]
    by (simp add: encode_response_def is_json_space_def sep_end_def)
qed

lemma read_error_json: "in_int64 (re_RetryAfter e) \<Longrightarrow> read_error (rpc_error_json e) = Some e"
  by (cases e) (simp add: read_error_def rpc_error_json_def read_string_def read_int_def json_int_def
      parse_int64_itoa)

text \<open>C26: A response survives the wire: from the line written for it, its line feed included, the client
  reads under the keys of the protocol the id, the result's value, and the error's code, message and
  retry hint, each as the server set it and none where the server set none.  The strings are text,
  the numbers fit in 64 bits and the nesting is within the parser's bound.\<close>

theorem response_roundtrip:
  assumes "in_int64 (rs_ID r)"
    and "\<And>v. rs_Result r = Some v \<Longrightarrow> json_ok (enc v) \<and> json_depth (enc v) < max_nesting"
    and "\<And>e. rs_Error r = Some e \<Longrightarrow>
      utf8_ok (re_Code e) \<and> utf8_ok (re_Message e) \<and> in_int64 (re_RetryAfter e)"
  shows "read_response (encode_response enc r) =
    Some \<lparr>rs_ID = rs_ID r, rs_Result = map_option enc (rs_Result r), rs_Error = rs_Error r\<rparr>"
proof -
  have "parse_json (encode_response enc r) = Some (response_json enc r)"
    using assms(2,3) by (intro parse_response) blast+
  then show ?thesis
    using assms(1,3)
    by (cases "rs_Result r"; cases "rs_Error r")
      (simp_all add: read_response_def response_json_def read_int_def json_int_def parse_int64_itoa
        read_error_json)
qed

theorem response_roundtrip_witness:
  "read_response (encode_response result_json
      \<lparr>rs_ID = 7, rs_Result = None, rs_Error = Some \<lparr>re_Code = CodeRateLimited, re_Message = ''slow down'',
        re_RetryAfter = 30\<rparr>\<rparr>) =
    Some \<lparr>rs_ID = 7, rs_Result = None, rs_Error = Some \<lparr>re_Code = CodeRateLimited, re_Message = ''slow down'',
        re_RetryAfter = 30\<rparr>\<rparr>"
proof -
  have "utf8_ok CodeRateLimited" "utf8_ok ''slow down''" by code_simp+
  then show ?thesis
    using response_roundtrip [of "\<lparr>rs_ID = 7, rs_Result = None,
        rs_Error = Some \<lparr>re_Code = CodeRateLimited, re_Message = ''slow down'', re_RetryAfter = 30\<rparr>\<rparr>" result_json]
    by (simp add: in_int64_def min_int64_def max_int64_def)
qed

section \<open>Frames\<close>

text \<open>C27: Whatever the reader's buffer and the frame limit, the reading loop hands on the lines of the
  input: each line past the limit as oversized, each other non-empty line whole, in order, and
  nothing else; a last line without its line feed counts.  It ends with the input's own error.\<close>

theorem reading_loop_lines:
  "read_events n cap r =
    (concat (map (\<lambda>w. if length w > cap then [Oversized] else if w = [] then [] else [Line w])
       (split_on nl (rd_rest r))), rd_fail r)"
  by (simp add: read_events_segments segment_event_def [abs_def])

end
