(* ===== verification/Answers.thy ===== *)
theory Answers
  imports Wire
begin

text \<open>
  What an answer says of its request: a result has the shape of a method that was asked for under
  the same id, and a client that never offers a protocol the program speaks gets nothing but
  errors.
\<close>

section \<open>Results have the shape of their method\<close>

text \<open>The shape each method of the registry answers with.\<close>

fun shape :: "result_val \<Rightarrow> string set" where
  "shape (RHello h) = {''hello''}"
| "shape (RPRs ps) = {''list_prs''}"
| "shape (RPR d) = {''get_pr''}"
| "shape (RFileVersions v) = {''get_file_versions''}"
| "shape (RThreads ts) = {''get_threads''}"
| "shape (RTimeline t) = {''get_timeline''}"
| "shape (RPendingReview r) = {''get_pending_review''}"
| "shape (RChecks c) = {''get_checks''}"
| "shape (RStartReview r) = {''start_review''}"
| "shape (RSubmitReview r) = {''submit_review''}"
| "shape (RPostComment r) = {''post_comment''}"
| "shape (RPostIssueComment r) = {''post_issue_comment''}"
| "shape (RResolveThread r) = {''resolve_thread''}"
| "shape (RSetFileViewed r) = {''set_file_viewed''}"
| "shape (RMerge m) = {''merge_pr''}"
| "shape (RSetPRState r) = {''set_pr_state''}"
| "shape REmpty = {''discard_review'', ''delete_comment'', ''cache_clear''}"

text \<open>What a method's results satisfy, whatever it finds in the shared state.\<close>

abbreviation yields :: "('a \<Rightarrow> bool) \<Rightarrow> ('s, 'e, 'a) proc \<Rightarrow> bool" where
  "yields P \<equiv> good (\<lambda>_. True) (ends_in any P)"

lemma yields_bad: "yields P (bad m)"
  by (simp add: bad_def failP_def)

lemma yields_bindP: "(\<And>a. yields P (f a)) \<Longrightarrow> yields P (bindP m f)"
  by (rule good_bindP [OF good_any]) (auto simp: ends_in_def split: sum.split)

lemma yields_returning: "(\<And>a. P (r a)) \<Longrightarrow> yields P (returning r m)"
  unfolding returning_def by (intro yields_bindP good_retP)

lemma yields_with_pr: "(\<And>p. yields P (f p)) \<Longrightarrow> yields P (with_pr d params fs zero f)"
  unfolding with_pr_def by (intro yields_bindP)

lemma yields_cacheClear: "P REmpty \<Longrightarrow> yields P (cacheClear d params)"
  by (auto simp: cacheClear_def retP_def split: option.splits)

lemma registry_shapes:
  "list_all (\<lambda>(m, h). \<forall>params. yields (\<lambda>v. m \<in> shape v) (h params)) (NewRegistry d)"
  unfolding NewRegistry_def list.pred_inject prod.case handler_defs hello_def
  by (intro list_all_nil conjI allI yields_with_pr yields_returning yields_cacheClear yields_bindP
      good_if good_option yields_bad good_retP; simp)

definition typed_reply :: "request \<Rightarrow> result_val response \<Rightarrow> bool" where
  "typed_reply req r \<longleftrightarrow>
     rs_ID r = rq_ID req \<and> (\<forall>v. rs_Result r = Some v \<longrightarrow> rq_Method req \<in> shape v)"

interpretation typed_registry: service "run (NewRegistry d)" "\<lambda>_. True" typed_reply "\<lambda>_. True"
  for d :: "'s deps"
proof
  fix req :: request
  show "good (\<lambda>_. True) (\<lambda>x. typed_reply req (fst x)) (run (NewRegistry d) req)"
  proof (rule good_run [where Q = "ends_in any (\<lambda>v. rq_Method req \<in> shape v)"])
    show "yields (\<lambda>v. rq_Method req \<in> shape v) (h (rq_Params req))"
      if "map_of (NewRegistry d) (rq_Method req) = Some h" for h
      using registry_shapes [of d] map_of_SomeD [OF that] by (auto simp: list_all_iff)
  qed (auto simp: typed_reply_def split: sum.split_asm)
qed

section \<open>No handshake, no answer\<close>

context sidecar_runner
begin

definition locked :: "frame_event list \<Rightarrow> 's \<Rightarrow> ('s, 'r) server \<Rightarrow> bool" where
  "locked frames s0 st \<longleftrightarrow>
     set (sv_frames st) \<subseteq> set frames \<and> \<not> sv_helloOK st \<and>
     (\<forall>r \<in> set (responses st). rs_Error r \<noteq> None) \<and>
     (\<forall>j. sv_pc st = Handling j \<longrightarrow> (\<exists>r es. snd j = Ret (r, es) \<and> rs_Error r \<noteq> None)) \<and>
     sv_running st = [] \<and> sv_blocked st = [] \<and> sv_gh st = s0"

lemma step_locked:
  assumes refuse: "\<And>f req. f \<in> set frames \<Longrightarrow> frame_request f = Some req \<Longrightarrow>
      rq_Method req = ''hello'' \<Longrightarrow> \<exists>r es. rn req = Ret (r, es) \<and> rs_Error r \<noteq> None"
  shows "step rn st st' \<Longrightarrow> locked frames s0 st \<Longrightarrow> locked frames s0 st'"
proof (induction rule: step.induct)
  case (answer st f fs r)
  then show ?case
    using on_frame_cases [of f "sv_helloOK st", where ?'a = 'r] by (auto simp: locked_def responses_def)
next
  case (greet st f fs req)
  then show ?case
    using on_frame_cases [of f "sv_helloOK st", where ?'a = 'r] refuse [of f req]
    by (auto simp: locked_def responses_def)
next
  case (spawn st f fs req)
  then show ?case
    using on_frame_cases [of f "sv_helloOK st", where ?'a = 'r] by (auto simp: locked_def)
next
  case (greeting st req p p' s es)
  then obtain r fs where p: "p = Ret (r, fs)" "rs_Error r \<noteq> None"
    by (auto simp: locked_def)
  with greeting(2) have "s = sv_gh st" "\<exists>es'. p' = Ret (r, es')" by (cases fs; auto)+
  with greeting p show ?case by (auto simp: locked_def responses_def)
qed (auto simp: locked_def responses_def split: reader_pc.splits)

lemma steps_locked:
  assumes "\<And>f req. f \<in> set frames \<Longrightarrow> frame_request f = Some req \<Longrightarrow>
      rq_Method req = ''hello'' \<Longrightarrow> \<exists>r es. rn req = Ret (r, es) \<and> rs_Error r \<noteq> None"
    and "steps rn (Run_init frames s0) n st"
  shows "locked frames s0 st"
  by (rule steps_invariant [OF assms(2)])
    (simp add: locked_def Run_init_def responses_def, rule step_locked [OF assms(1)])

end

text \<open>A frame that offers a protocol the program speaks; a hello without one offers version 0.\<close>

definition offers_hello :: "frame_event \<Rightarrow> bool" where
  "offers_hello f \<longleftrightarrow>
     (case frame_request f of
        None \<Rightarrow> False
      | Some req \<Rightarrow>
          rq_Method req = ''hello'' \<and>
          (case rq_Params req of
             None \<Rightarrow> True
           | Some v \<Rightarrow>
               (case dec_struct helloParams_fields v \<lparr>hp_Client = [], hp_Protocol = 0\<rparr> of
                  None \<Rightarrow> False
                | Some p \<Rightarrow> hp_Protocol p \<le> Version)))"

lemma hello_refused:
  assumes "frame_request f = Some req" and "rq_Method req = ''hello''" and "\<not> offers_hello f"
  shows "\<exists>r es. run (NewRegistry d) req = Ret (r, es) \<and> rs_Error r \<noteq> None"
  using assms
  by (auto simp: offers_hello_def run_def map_of_registry_hello hello_def decode_def bad_def failP_def
      retP_def Version_def deferred_def settle_def fail_response_def split: option.splits)

section \<open>Two handshakes\<close>

definition hello_with :: "int \<Rightarrow> request" where
  "hello_with version =
     \<lparr>rq_ID = 3, rq_Method = ''hello'', rq_Params = Some (JObj [(''protocol'', json_int version)])\<rparr>"

definition hello_frame :: "int \<Rightarrow> frame_event" where
  "hello_frame version = Line (json_text (request_json (hello_with version)))"

lemma hello_frame_request: "frame_request (hello_frame v) = Some (hello_with v)"
proof -
  have "utf8_ok ''hello''" "utf8_ok ''protocol''" "utf8_ok ''id''" "utf8_ok ''method''" "utf8_ok ''params''"
    by code_simp+
  then have "json_ok (request_json (hello_with v))" "json_depth (request_json (hello_with v)) \<le> max_nesting"
    "in_int64 (rq_ID (hello_with v))"
    by (simp_all add: request_json_def hello_with_def json_int_def max_nesting_def in_int64_def
        min_int64_def max_int64_def)
  from decode_request_json [OF this] show ?thesis by (simp add: frame_request_def hello_frame_def)
qed

lemma hello_frame_params:
  assumes "in_int64 v"
  shows "dec_struct helloParams_fields (JObj [(''protocol'', json_int v)]) \<lparr>hp_Client = [], hp_Protocol = 0\<rparr> =
    Some \<lparr>hp_Client = [], hp_Protocol = v\<rparr>"
  using assms
  by (simp add: helloParams_fields_def json_int_def find_field_def fld_def parse_int64_itoa)

section \<open>Properties\<close>

text \<open>C5: An answer fits its request.  In any reachable state of a run over any registry of the program's
  methods, a response written with a result answers a request that was read, under that request's
  id, and its result has the shape of that request's method.\<close>

theorem answers_fit:
  assumes "steps (run (NewRegistry d)) (Run_init frames s) n st"
    and "r \<in> set (sv_written st)" and "rs_Result r = Some v"
  shows "\<exists>line req. Line line \<in> set frames \<and> decode_request line = Some req \<and>
    rq_ID req = rs_ID r \<and> rq_Method req \<in> shape v"
proof -
  have "served (\<lambda>_. True) typed_reply frames st"
    by (rule typed_registry.steps_served [OF _ _ assms(1)]) simp_all
  from servedD(4) [OF this, of r] assms(2)
  obtain f where f: "f \<in> set frames"
    and "(\<exists>m. r = badRequest (frame_id f) m) \<or> (\<exists>req. frame_request f = Some req \<and> typed_reply req r)"
    by (auto simp: answers_def responses_def)
  with assms(3) obtain req where "frame_request f = Some req" "typed_reply req r" by auto
  with f assms(3) show ?thesis
    by (auto simp: typed_reply_def frame_request_def split: frame_event.splits)
qed

theorem answers_fit_witness:
  "\<exists>n st r v. steps (run (NewRegistry test_deps)) (Run_init [hello_frame 1] (script [])) n st \<and>
     sv_written st = [r] \<and> rs_Result r = Some v \<and> rs_ID r = 3 \<and> ''hello'' \<in> shape v"
proof -
  obtain v where h: "hello test_deps (rq_Params (hello_with 1)) = Ret (Inr v)"
    using hello_frame_params [of 1]
    by (simp add: hello_def decode_def hello_with_def Version_def in_int64_def min_int64_def max_int64_def
        retP_def)
  then have "run (NewRegistry test_deps) (hello_with 1) =
      Ret (deferred (hello_with 1) (\<lparr>rs_ID = 3, rs_Result = Some v, rs_Error = None\<rparr>, []))"
    by (simp add: run_def hello_with_def map_of_registry_hello settle_def)
  moreover have "on_frame (hello_frame 1) False = (Inline (hello_with 1) :: result_val action)"
    by (simp add: on_frame_request hello_frame_request dispatch_def hello_with_def)
  ultimately obtain n st
    where run: "steps (run (NewRegistry test_deps)) (Run_init [hello_frame 1] (script [])) n st"
      and w: "sv_written st = [\<lparr>rs_ID = 3, rs_Result = Some v, rs_Error = None\<rparr>]"
    using one_hello_run [of "hello_frame 1" "hello_with 1" "run (NewRegistry test_deps)"]
    unfolding deferred_def prod.case by blast
  from answers_fit [OF run, of "\<lparr>rs_ID = 3, rs_Result = Some v, rs_Error = None\<rparr>" v] w
  obtain line req where "Line line = hello_frame 1" "decode_request line = Some req" "rq_Method req \<in> shape v"
    by auto
  with hello_frame_request [of 1] have "''hello'' \<in> shape v"
    by (auto simp: frame_request_def hello_with_def split: frame_event.splits)
  with run w show ?thesis by fastforce
qed

text \<open>C24: No handshake, no service.  As long as no frame offers a protocol version that the program
  speaks, every response is an error, nothing is started and the state of the GitHub client stays
  as it was.\<close>

theorem version_mismatch_locks:
  assumes "steps (run (main_registry env ae w0 je))
      (Run_init frames s) n st"
    and "\<forall>f \<in> set frames. \<not> offers_hello f"
  shows "(\<forall>r \<in> set (sv_written st). rs_Error r \<noteq> None) \<and> sv_running st = [] \<and> sv_gh st = s"
proof -
  have "sidecar.locked frames s st"
    by (rule sidecar.steps_locked [OF _ assms(1)]) (metis hello_refused assms(2))
  then show ?thesis by (auto simp: sidecar.locked_def responses_def)
qed

theorem version_mismatch_locks_witness:
  "\<exists>n st. steps (run (NewRegistry test_deps)) (Run_init [hello_frame 99] (script [])) n st \<and>
     sv_pc st = Returned \<and> (\<forall>r \<in> set (sv_written st). rs_Error r \<noteq> None)"
proof -
  have "\<not> offers_hello (hello_frame 99)"
    using hello_frame_params [of 99]
    by (simp add: offers_hello_def hello_frame_request hello_with_def Version_def in_int64_def
        min_int64_def max_int64_def)
  moreover obtain n st where "steps (run (NewRegistry test_deps)) (Run_init [hello_frame 99] (script [])) n st"
      "sv_pc st = Returned"
    using test_run_completes by blast
  ultimately show ?thesis
    using version_mismatch_locks [of script_env test_auth "()" "\<lambda>_ _. []" "[hello_frame 99]" "script []" n st]
    by (auto simp: test_deps_def)
qed

end
