(* ===== verification/Server_Trace.thy ===== *)
theory Server_Trace
  imports Answers "HOL-Library.Sublist"
begin

text \<open>
  What the log says of a run: it accounts for every request that was run, with the code it was
  answered with, and for every internal error, whose cause the answer does not show; and every frame
  that is not accounted for there is one the reader refused.  And runs
  written out: the handshake and one more request, alone.
\<close>

section \<open>The lines of a request\<close>

definition blames :: "request \<Rightarrow> log_entry \<Rightarrow> bool" where
  "blames req e \<longleftrightarrow> lg_Level e = LevelError \<and> (''method'', rq_Method req) \<in> set (lg_Attrs e)"

text \<open>One line for the request, after one that blames it when its code is \<open>internal\<close>.\<close>

definition accounts :: "request \<Rightarrow> 'r response \<Rightarrow> log_entry list \<Rightarrow> bool" where
  "accounts req r ls \<longleftrightarrow>
     rs_ID r = rq_ID req \<and>
     (if outcome r = CodeInternal then \<exists>e. blames req e \<and> ls = [e, request_line req r]
      else ls = [request_line req r])"

text \<open>What a request has logged so far, of which the rest is what it still does.\<close>

definition accounted :: "('s, 'r) job \<Rightarrow> log_entry list \<Rightarrow> bool" where
  "accounted j pre \<longleftrightarrow> good (\<lambda>_. True) (\<lambda>x. accounts (fst j) (fst x) (pre @ snd x)) (snd j)"

text \<open>What the reader answers itself: a frame that is too long, one that is not a request, a request before
  the handshake.  Nothing of these is logged.\<close>

fun refusal :: "frame_event \<Rightarrow> 'r response \<Rightarrow> bool" where
  "refusal Oversized r \<longleftrightarrow> r = badRequest 0 ''request exceeds the 16777216 byte frame limit''"
| "refusal (Line line) r \<longleftrightarrow>
     (case decode_request line of
        None \<Rightarrow> r = badRequest 0 ''invalid JSON''
      | Some req \<Rightarrow> rq_Method req \<noteq> ''hello'' \<and>
          r = badRequest (rq_ID req) ''handshake required: send hello first'')"

text \<open>A frame whose request was run, with the request, its response and its lines.\<close>

type_synonym 'r account = "frame_event \<times> request \<times> 'r response \<times> log_entry list"

abbreviation frame_of :: "'r account \<Rightarrow> frame_event" where
  "frame_of \<equiv> fst"

abbreviation response_of :: "'r account \<Rightarrow> 'r response" where
  "response_of a \<equiv> fst (snd (snd a))"

abbreviation lines_of :: "'r account \<Rightarrow> log_entry list" where
  "lines_of a \<equiv> snd (snd (snd a))"

definition settled :: "'r account \<Rightarrow> bool" where
  "settled a \<longleftrightarrow> (case a of (f, req, r, ls) \<Rightarrow> frame_request f = Some req \<and> accounts req r ls)"

subsection \<open>A log woven from the lines of many\<close>

text \<open>The sequences of \<open>M\<close>, each in its order, with nothing else between.\<close>

inductive weaves :: "'a list multiset \<Rightarrow> 'a list \<Rightarrow> bool" where
  nothing: "weaves {#} []"
| opened: "weaves M zs \<Longrightarrow> weaves (add_mset [] M) zs"
| extended: "weaves (add_mset l M) zs \<Longrightarrow> weaves (add_mset (l @ [z]) M) (zs @ [z])"

lemma weaves_extend: "weaves (add_mset l M) zs \<Longrightarrow> weaves (add_mset (l @ es) M) (zs @ es)"
proof (induction es rule: rev_induct)
  case (snoc e es)
  then show ?case using weaves.extended [of "l @ es" M "zs @ es" e] by simp
qed simp

lemma weaves_subseq: "weaves M zs \<Longrightarrow> l \<in># M \<Longrightarrow> subseq l zs"
proof (induction arbitrary: l rule: weaves.induct)
  case (extended k M zs z)
  then show ?case by (auto intro: subseq_order.trans [OF _ list_emb_append2 [of _ _ "[z]"]]
      list_emb_append_mono subseq_rev_drop_many)
qed auto

lemma weaves_mset: "weaves M zs \<Longrightarrow> mset zs = \<Sum>\<^sub># (image_mset mset M)"
  by (induction rule: weaves.induct) (auto simp: add.commute)

subsection \<open>The books of a run\<close>

definition in_hello :: "('s, 'r) server \<Rightarrow> ('s, 'r) job list" where
  "in_hello st = (case sv_pc st of Handling j \<Rightarrow> [j] | _ \<Rightarrow> [])"

text \<open>A job's book: the frame it came from and the lines it has logged.\<close>

definition booked :: "('s, 'r) job \<Rightarrow> frame_event \<times> log_entry list \<Rightarrow> bool" where
  "booked j b \<longleftrightarrow> accounted j (snd b) \<and> frame_request (fst b) = Some (fst j)"

definition balanced ::
  "frame_event list \<Rightarrow> ('s, 'r) server \<Rightarrow> (frame_event \<times> log_entry list) list \<Rightarrow> 'r account list \<Rightarrow>
    (frame_event \<times> 'r response) list \<Rightarrow> bool" where
  "balanced frames st bs as refused \<longleftrightarrow>
     list_all2 booked (jobs st) bs \<and> list_all settled as \<and>
     list_all (\<lambda>x. refusal (fst x) (snd x)) refused \<and>
     mset frames =
       mset (sv_frames st) + mset (map fst bs) + mset (map frame_of as) + mset (map fst refused) \<and>
     mset (responses st) = mset (map response_of as) + mset (map snd refused) \<and>
     weaves (mset (map snd bs) + mset (map lines_of as)) (sv_log st)"

text \<open>What keeps the balance: nothing new, a job that gets on, a job that is done, a job that starts.\<close>

lemma balanced_same:
  "balanced frames st bs as refused \<Longrightarrow> sv_frames st' = sv_frames st \<Longrightarrow> jobs st' = jobs st \<Longrightarrow>
    mset (responses st') = mset (responses st) \<Longrightarrow> sv_log st' = sv_log st \<Longrightarrow>
    balanced frames st' bs as refused"
  by (simp add: balanced_def)

lemma balanced_job:
  assumes "balanced frames st bs as refused" and "jobs st = xs @ j # ys"
  obtains ps b qs where "bs = ps @ b # qs" "list_all2 booked xs ps" "booked j b" "list_all2 booked ys qs"
  using assms by (auto simp: balanced_def list_all2_append1 list_all2_Cons1)

lemma advance_booked:
  assumes "advance p s = Some (p', s', es)" and "booked (req, p) (f, pre)"
  shows "booked (req, p') (f, pre @ es)"
  using assms by (cases "(p, s)" rule: advance.cases) (auto simp: booked_def accounted_def)

lemma balanced_advance:
  assumes b: "balanced frames st bs as refused" and j: "jobs st = xs @ (req, p) # ys"
    and p: "advance p s = Some (p', s', es)" and j': "jobs st' = xs @ (req, p') # ys"
    and same: "sv_frames st' = sv_frames st" "responses st' = responses st" "sv_log st' = sv_log st @ es"
  shows "\<exists>bs. balanced frames st' bs as refused"
proof -
  obtain ps k qs where bs: "bs = ps @ k # qs" and all: "list_all2 booked xs ps" "booked (req, p) k"
      "list_all2 booked ys qs"
    by (rule balanced_job [OF b j])
  obtain f pre where k: "k = (f, pre)" by (cases k)
  have "weaves (add_mset pre (mset (map snd (ps @ qs)) + mset (map lines_of as))) (sv_log st)"
    using b by (simp add: balanced_def bs k)
  from weaves_extend [OF this, of es]
  have "weaves (mset (map snd (ps @ (f, pre @ es) # qs)) + mset (map lines_of as)) (sv_log st')"
    by (simp add: same)
  moreover have "list_all2 booked (jobs st') (ps @ (f, pre @ es) # qs)"
    using all advance_booked [OF p] by (auto simp: j' k intro!: list_all2_appendI)
  ultimately have "balanced frames st' (ps @ (f, pre @ es) # qs) as refused"
    using b by (simp add: balanced_def same bs k)
  then show ?thesis by blast
qed

lemma balanced_done:
  fixes st :: "('s, 'r) server"
  assumes b: "balanced frames st bs as refused" and j: "jobs st = xs @ (req, Ret (r, [])) # ys"
    and j': "jobs st' = xs @ ys" and same: "sv_frames st' = sv_frames st"
      "mset (responses st') = add_mset r (mset (responses st))" "sv_log st' = sv_log st"
  shows "\<exists>bs as. balanced frames st' bs as refused"
proof -
  obtain ps k qs where bs: "bs = ps @ k # qs" "list_all2 booked xs ps"
      "booked (req, Ret (r, []) :: ('s, 'r) goroutine) k" "list_all2 booked ys qs"
    by (rule balanced_job [OF b j])
  with b same have "balanced frames st' (ps @ qs) ((fst k, req, r, snd k) # as) refused"
    unfolding balanced_def j' by (auto simp: settled_def booked_def accounted_def intro!: list_all2_appendI)
  then show ?thesis by blast
qed

lemma on_frame_refusal: "on_frame f ok = Emit r \<Longrightarrow> refusal f r"
  by (cases f) (auto simp: on_frame_def dispatch_def split: option.splits if_splits)

lemma balanced_refuse:
  assumes b: "balanced frames st bs as refused" and f: "sv_frames st = f # fs"
    and a: "on_frame f ok = (Emit r :: 'r action)"
    and same: "sv_frames st' = fs" "jobs st' = jobs st" "sv_log st' = sv_log st"
      "mset (responses st') = add_mset r (mset (responses st))"
  shows "balanced frames st' bs as ((f, r) # refused)"
  using b f same on_frame_refusal [OF a] by (auto simp: balanced_def)

locale accounting_runner =
  fixes rn :: "('s, 'r) runner"
  assumes run_accounts: "good (\<lambda>_. True) (\<lambda>x. accounts req (fst x) (snd x)) (rn req)"
begin

lemma balanced_start:
  assumes b: "balanced frames st bs as refused" and f: "sv_frames st = f # fs"
    and a: "on_frame f ok = (Inline req :: 'r action) \<or> on_frame f ok = (Spawn req :: 'r action)"
    and j: "jobs st = xs @ ys" "jobs st' = xs @ (req, rn req) # ys"
    and same: "sv_frames st' = fs" "responses st' = responses st" "sv_log st' = sv_log st"
  shows "\<exists>bs. balanced frames st' bs as refused"
proof -
  have k: "booked (req, rn req) (f, [])"
    using a on_frame_cases [of f ok, where ?'a = 'r] run_accounts by (auto simp: booked_def accounted_def)
  obtain ps qs where bs: "bs = ps @ qs" "list_all2 booked xs ps" "list_all2 booked ys qs"
    using b j(1) by (auto simp: balanced_def list_all2_append1)
  have "weaves (mset (map snd (ps @ (f, []) # qs)) + mset (map lines_of as)) (sv_log st')"
    using b bs(1) same weaves.opened by (fastforce simp: balanced_def)
  with b f k bs same have "balanced frames st' (ps @ (f, []) # qs) as refused"
    unfolding balanced_def j(2) by (auto intro!: list_all2_appendI)
  then show ?thesis by blast
qed

lemma step_balanced:
  "step rn st st' \<Longrightarrow> balanced frames st bs as refused \<Longrightarrow> \<exists>bs as refused. balanced frames st' bs as refused"
proof (induction rule: step.induct)
  case (answer st f fs r)
  have "balanced frames (st\<lparr>sv_frames := fs, sv_pc := Sending r\<rparr>) bs as ((f, r) # refused)"
    by (rule balanced_refuse [OF answer(4,2,3)]) (use answer(1) in \<open>simp_all add: server_parts\<close>)
  then show ?case by blast
next
  case (greet st f fs req)
  have "\<exists>bs. balanced frames (st\<lparr>sv_frames := fs, sv_pc := Handling (req, rn req)\<rparr>) bs as refused"
    by (rule balanced_start [OF greet(4,2) disjI1 [OF greet(3)], where xs = "[]" and ys = "jobs st"])
      (use greet(1) in \<open>simp_all add: server_parts\<close>)
  then show ?case by blast
next
  case (spawn st f fs req)
  have "\<exists>bs. balanced frames (st\<lparr>sv_frames := fs, sv_running := sv_running st @ [(req, rn req)]\<rparr>) bs as refused"
    by (rule balanced_start [OF spawn(4,2) disjI2 [OF spawn(3)], where xs = "jobs st" and ys = "[]"])
      (simp_all add: server_parts)
  then show ?case by blast
next
  case (greeting st req p p' s es)
  have "\<exists>bs. balanced frames
      (st\<lparr>sv_pc := Handling (req, p'), sv_gh := s, sv_log := sv_log st @ es\<rparr>) bs as refused"
    by (rule balanced_advance [OF greeting(3) _ greeting(2), where xs = "[]" and ys = "sv_running st"])
      (use greeting(1) in \<open>simp_all add: server_parts\<close>)
  then show ?case by blast
next
  case (greeted st req r)
  have "\<exists>bs as. balanced frames
      (st\<lparr>sv_pc := Sending r, sv_helloOK := sv_helloOK st \<or> rs_Error r = None\<rparr>) bs as refused"
    by (rule balanced_done [OF greeted(2), where xs = "[]" and ys = "sv_running st"])
      (use greeted(1) in \<open>simp_all add: server_parts\<close>)
  then show ?case by blast
next
  case (work st xs req p ys p' s es)
  have "\<exists>bs. balanced frames
      (st\<lparr>sv_running := xs @ (req, p') # ys, sv_gh := s, sv_log := sv_log st @ es\<rparr>) bs as refused"
    by (rule balanced_advance [OF work(3) _ work(2), where xs = "in_hello st @ xs" and ys = ys])
      (use work(1) in \<open>simp_all add: server_parts in_hello_def\<close>)
  then show ?case by blast
next
  case (finish st xs req r ys)
  have "\<exists>bs as. balanced frames
      (st\<lparr>sv_running := xs @ ys, sv_blocked := sv_blocked st @ [r]\<rparr>) bs as refused"
    by (rule balanced_done [OF finish(2), where xs = "in_hello st @ xs" and ys = ys])
      (use finish(1) in \<open>simp_all add: server_parts in_hello_def\<close>)
  then show ?case by blast
qed (intro exI, (erule balanced_same; simp add: server_parts))+

lemma steps_balanced:
  "steps rn (Run_init frames s) n st \<Longrightarrow> \<exists>bs as refused. balanced frames st bs as refused"
proof (erule steps_invariant [where P = "\<lambda>st. \<exists>bs as refused. balanced frames st bs as refused"])
  have "balanced frames (Run_init frames s) [] [] []"
    by (simp add: balanced_def Run_init_def server_parts weaves.nothing)
  then show "\<exists>bs as refused. balanced frames (Run_init frames s) bs as refused" by blast
qed (blast dest: step_balanced)

end

lemma settle_accounts:
  "accounts req (fst (deferred req (settle req r))) (snd (deferred req (settle req r)))"
proof (cases r)
  case (Inl e)
  then show ?thesis
    by (cases e) (auto simp: accounts_def deferred_def settle_def fail_response_def outcome_def panic_error_def
        blames_def error_line_def panic_line_def)
qed (simp add: accounts_def deferred_def settle_def outcome_def CodeInternal_def)

interpretation accounting_registry: accounting_runner "run reg" for reg :: "'s registry"
proof
  fix req
  show "good (\<lambda>_. True) (\<lambda>x. accounts req (fst x) (snd x)) (run reg req)"
  proof (rule good_run [where Q = "\<lambda>_. True", OF good_any])
    show "accounts req (fst (deferred req (settle req r))) (snd (deferred req (settle req r)))" for r
      by (rule settle_accounts)
  qed (simp_all add: accounts_def deferred_def outcome_def CodeInternal_def CodeBadRequest_def)
qed

section \<open>A handshake and a request, alone\<close>

text \<open>The steps of the only goroutine in flight.\<close>

lemma job_out:
  "sv_running st = [(req, p)] \<Longrightarrow> exec p (sv_gh st) = ((r, es), s') \<Longrightarrow>
    \<exists>n. steps rn st n (st\<lparr>sv_running := [(req, Ret (r, []))], sv_gh := s', sv_log := sv_log st @ es\<rparr>)"
proof (induction p arbitrary: st)
  case (Act u k)
  let ?st = "st\<lparr>sv_running := [(req, k (sv_gh st))], sv_gh := u (sv_gh st), sv_log := sv_log st @ []\<rparr>"
  have "step rn st ?st"
    using step.work [of st "[]" req "Act u k" "[]" "k (sv_gh st)" "u (sv_gh st)" "[]" rn] Act.prems(1) by simp
  moreover obtain n where "steps rn ?st n
      (?st\<lparr>sv_running := [(req, Ret (r, []))], sv_gh := s', sv_log := sv_log ?st @ es\<rparr>)"
    using Act.IH [OF rangeI, of ?st "sv_gh st"] Act.prems(2) by auto
  ultimately show ?case by (auto intro!: exI [of _ "Suc n"] dest: steps_first)
next
  case (Ret x)
  then have x: "x = (r, es)" "s' = sv_gh st" by auto
  show ?case
    using Ret.prems(1) unfolding x
  proof (induction es arbitrary: st)
    case Nil
    then have "st\<lparr>sv_running := [(req, Ret (r, []))], sv_gh := sv_gh st, sv_log := sv_log st @ []\<rparr> = st"
      by simp
    then show ?case by (metis steps.start)
  next
    case (Cons e es)
    let ?st = "st\<lparr>sv_running := [(req, Ret (r, es))], sv_gh := sv_gh st, sv_log := sv_log st @ [e]\<rparr>"
    have "step rn st ?st"
      using step.work [of st "[]" req "Ret (r, e # es)" "[]" "Ret (r, es)" "sv_gh st" "[e]" rn] Cons.prems by simp
    moreover obtain n where "steps rn ?st n
        (?st\<lparr>sv_running := [(req, Ret (r, []))], sv_gh := sv_gh ?st, sv_log := sv_log ?st @ es\<rparr>)"
      using Cons.IH [of ?st] by auto
    ultimately show ?case by (auto intro!: exI [of _ "Suc n"] dest: steps_first)
  qed
qed

definition server_of ::
  "frame_event list \<Rightarrow> ('s, 'r) reader_pc \<Rightarrow> bool \<Rightarrow> ('s, 'r) job list \<Rightarrow> 'r response list \<Rightarrow>
    'r response list \<Rightarrow> 'r response list \<Rightarrow> 's \<Rightarrow> log_entry list \<Rightarrow> ('s, 'r) server" where
  "server_of fs pc ok js blk out wr g lg = \<lparr>sv_frames = fs, sv_pc = pc, sv_helloOK = ok,
      sv_running = js, sv_blocked = blk, sv_outbound = out, sv_written = wr, sv_gh = g, sv_log = lg\<rparr>"

definition reaches :: "('s, 'r) runner \<Rightarrow> ('s, 'r) server \<Rightarrow> ('s, 'r) server \<Rightarrow> bool" where
  "reaches rn st st' \<longleftrightarrow> (\<exists>n. steps rn st n st')"

lemma reaches_refl: "reaches rn st st"
  unfolding reaches_def by (blast intro: steps.start)

lemma reaches_step: "reaches rn st st' \<Longrightarrow> step rn st' st'' \<Longrightarrow> reaches rn st st''"
  unfolding reaches_def by (blast intro: steps.more_steps)

lemma reaches_trans: "reaches rn st st' \<Longrightarrow> \<exists>n. steps rn st' n st'' \<Longrightarrow> reaches rn st st''"
  unfolding reaches_def by (blast dest: steps_trans)

lemmas at = server_of_def outbound_cap_def

lemma hello_phase:
  fixes rn :: "('s, 'r) runner"
  assumes hello: "on_frame f False = (Inline q :: 'r action)" "rn q = Ret (r, es)" "rs_Error r = None"
  shows "reaches rn (Run_init (f # fs) s) (server_of fs Reading True [] [] [] [r] s es)"
proof -
  let ?reaches = "reaches rn (Run_init (f # fs) s)"
  have "?reaches (server_of (f # fs) Reading False [] [] [] [] s [])"
    using reaches_refl by (simp add: at Run_init_def)
  from reaches_step [OF this step.greet [of _ f fs q]]
  have "?reaches (server_of fs (Handling (q, Ret (r, es))) False [] [] [] [] s [])"
    using hello by (simp add: at)
  from reaches_trans [OF this logs_out [of _ q r es]]
  have "?reaches (server_of fs (Handling (q, Ret (r, []))) False [] [] [] [] s es)"
    by (simp add: at)
  from reaches_step [OF this step.greeted [of _ q r]]
  have "?reaches (server_of fs (Sending r) True [] [] [] [] s es)"
    using hello by (simp add: at)
  from reaches_step [OF this step.send [of _ r]]
  have "?reaches (server_of fs Reading True [] [] [r] [] s es)"
    by (simp add: at)
  from reaches_step [OF this step.flush [of _ r "[]"]] show ?thesis
    by (simp add: at)
qed

lemma request_phase:
  fixes rn :: "('s, 'r) runner"
  assumes before: "reaches rn st0 (server_of [f] Reading True [] [] [] rs s lg)"
    and req: "on_frame f True = (Spawn q :: 'r action)" "exec (rn q) s = ((r, es), s')"
  shows "reaches rn st0 (server_of [] Returned True [] [] [] (rs @ [r]) s' (lg @ es))"
proof -
  let ?reaches = "reaches rn st0"
  from reaches_step [OF before step.spawn [of _ f "[]" q]]
  have "?reaches (server_of [] Reading True [(q, rn q)] [] [] rs s lg)"
    using req by (simp add: at)
  from reaches_trans [OF this job_out [of _ q "rn q" r es s']]
  have "?reaches (server_of [] Reading True [(q, Ret (r, []))] [] [] rs s' (lg @ es))"
    using req by (simp add: at)
  from reaches_step [OF this step.finish [of _ "[]" q r "[]"]]
  have "?reaches (server_of [] Reading True [] [r] [] rs s' (lg @ es))"
    by (simp add: at)
  from reaches_step [OF this step.report [of _ "[]" r "[]"]]
  have "?reaches (server_of [] Reading True [] [] [r] rs s' (lg @ es))"
    by (simp add: at)
  from reaches_step [OF this step.flush [of _ r "[]"]]
  have "?reaches (server_of [] Reading True [] [] [] (rs @ [r]) s' (lg @ es))"
    by (simp add: at)
  from reaches_step [OF this step.ended]
  have "?reaches (server_of [] Waiting True [] [] [] (rs @ [r]) s' (lg @ es))"
    by (simp add: at)
  from reaches_step [OF this step.close]
  have "?reaches (server_of [] Closed True [] [] [] (rs @ [r]) s' (lg @ es))"
    by (simp add: at)
  from reaches_step [OF this step.return] show ?thesis
    by (simp add: at)
qed

lemma two_frames_run:
  fixes rn :: "('s, 'r) runner" and s :: 's
  assumes hello: "on_frame f1 False = (Inline q1 :: 'r action)" "rn q1 = Ret (r1 :: 'r response, es1)"
      "rs_Error r1 = None"
    and other: "on_frame f2 True = (Spawn q2 :: 'r action)" "exec (rn q2) s = ((r2, es2), s')"
  shows "\<exists>n st. steps rn (Run_init [f1, f2] s) n st \<and> sv_pc st = Returned \<and> sv_written st = [r1, r2] \<and>
    sv_gh st = s' \<and> sv_log st = es1 @ es2"
proof -
  have "reaches rn (Run_init [f1, f2] s) (server_of [f2] Reading True [] [] [] [r1] s es1)"
    by (rule hello_phase) (rule hello)+
  from request_phase [OF this other] show ?thesis
    unfolding reaches_def by (fastforce simp: at)
qed

lemma hello_runs:
  "on_frame (hello_frame 1) False = (Inline (hello_with 1) :: result_val action)"
  "\<exists>v. run (NewRegistry d) (hello_with 1) =
     Ret (deferred (hello_with 1) (\<lparr>rs_ID = 3, rs_Result = Some v, rs_Error = None\<rparr>, []))"
proof -
  show "on_frame (hello_frame 1) False = (Inline (hello_with 1) :: result_val action)"
    by (simp add: on_frame_request hello_frame_request dispatch_def hello_with_def)
  obtain v where "hello d (rq_Params (hello_with 1)) = Ret (Inr v)"
    using hello_frame_params [of 1]
    by (simp add: hello_def decode_def hello_with_def Version_def in_int64_def min_int64_def max_int64_def
        retP_def)
  then show "\<exists>v. run (NewRegistry d) (hello_with 1) =
     Ret (deferred (hello_with 1) (\<lparr>rs_ID = 3, rs_Result = Some v, rs_Error = None\<rparr>, []))"
    by (auto simp: run_def hello_with_def map_of_registry_hello settle_def)
qed

section \<open>Properties\<close>

text \<open>C20: The log accounts for every request.  When \<open>Run\<close> has returned, the frames read fall into two
  parts: those whose request was run, and those the reader refused itself, being too long, not a
  request, or before the handshake.  What was written is one response to each.  The log is woven from
  the lines of the requests that were run and from nothing else, each request's in their order: a line
  with the method, the id and the code of its answer, and before it, exactly when the code is
  \<open>internal\<close> and so hides its cause, a line at the error level that names the method.\<close>

theorem log_accounts:
  assumes "steps (run reg) (Run_init frames s) n st" and "sv_pc st = Returned"
  shows "\<exists>as refused.
    mset frames = mset (map frame_of as) + mset (map fst refused) \<and>
    mset (sv_written st) = mset (map response_of as) + mset (map snd refused) \<and>
    weaves (mset (map lines_of as)) (sv_log st) \<and>
    (\<forall>(f, req, r, ls) \<in> set as. frame_request f = Some req \<and> accounts req r ls) \<and>
    (\<forall>(f, r) \<in> set refused. refusal f r)"
proof -
  have ok: "srv_ok st"
    by (rule steps_invariant [OF assms(1)]) (simp_all add: srv_ok_init step_srv_ok)
  obtain bs as refused where b: "balanced frames st bs as refused"
    using accounting_registry.steps_balanced [OF assms(1)] by blast
  with ok assms(2) have "bs = []" by (auto simp: balanced_def jobs_def srv_ok_def)
  with b ok assms(2) show ?thesis
    by (intro exI [of _ as] exI [of _ refused])
      (auto simp: balanced_def responses_def srv_ok_def list_all_iff settled_def)
qed

text \<open>A method that does not exist: its code is \<open>bad_request\<close>, and one line says so.\<close>

definition odd_request :: request where
  "odd_request = \<lparr>rq_ID = 4, rq_Method = ''nope'', rq_Params = None\<rparr>"

lemma odd_request_read:
  "decode_request (json_text (request_json odd_request)) = Some odd_request"
proof -
  have "utf8_ok ''nope''" "utf8_ok ''id''" "utf8_ok ''method''" by code_simp+
  then show ?thesis
    by (intro decode_request_json) (simp_all add: request_json_def odd_request_def json_int_def
        max_nesting_def in_int64_def min_int64_def max_int64_def)
qed

theorem log_accounts_witness:
  "\<exists>n st (as :: result_val account list) refused. steps (run (NewRegistry test_deps))
       (Run_init [hello_frame 1, Line (json_text (request_json odd_request))] (script [])) n st \<and>
     sv_pc st = Returned \<and> length (sv_written st) = 2 \<and> length (sv_log st) = 2 \<and>
     request_line odd_request (badRequest 4 ''unknown method: nope'' :: result_val response) \<in> set (sv_log st) \<and>
     weaves (mset (map lines_of as)) (sv_log st) \<and>
     (\<forall>(f, req, r, ls) \<in> set as. frame_request f = Some req \<and> accounts req r ls) \<and>
     (\<forall>(f, r) \<in> set refused. refusal f (r :: result_val response))"
proof -
  let ?f = "Line (json_text (request_json odd_request))"
  let ?bad = "badRequest 4 ''unknown method: nope'' :: result_val response"
  obtain v where hello: "run (NewRegistry test_deps) (hello_with 1) =
      Ret (\<lparr>rs_ID = 3, rs_Result = Some v, rs_Error = None\<rparr>,
        [request_line (hello_with 1) \<lparr>rs_ID = 3, rs_Result = Some v, rs_Error = None\<rparr>])"
    using hello_runs(2) [of test_deps] by (auto simp: deferred_def)
  have spawn: "on_frame ?f True = (Spawn odd_request :: result_val action)"
    by (simp add: on_frame_def odd_request_read dispatch_def) (simp add: odd_request_def)
  have "exec (run (NewRegistry test_deps) odd_request) (script []) =
      ((?bad, [request_line odd_request ?bad]), script [])"
    by (simp add: run_def odd_request_def NewRegistry_def deferred_def)
  from two_frames_run [OF hello_runs(1) hello _ spawn this]
  obtain n st where run: "steps (run (NewRegistry test_deps)) (Run_init [hello_frame 1, ?f] (script [])) n st"
    "sv_pc st = Returned" and "length (sv_written st) = 2" "length (sv_log st) = 2"
    "request_line odd_request ?bad \<in> set (sv_log st)"
    by auto
  moreover from log_accounts [OF run]
  obtain as :: "result_val account list" and refused :: "(frame_event \<times> result_val response) list" where
    "weaves (mset (map lines_of as)) (sv_log st)"
    "\<forall>(f, req, r, ls) \<in> set as. frame_request f = Some req \<and> accounts req r ls"
    "\<forall>(f, r) \<in> set refused. refusal f r"
    by blast
  ultimately show ?thesis by blast
qed

end
