(* ===== verification/File_Truth.thy ===== *)
theory File_Truth
  imports Server_Trace
begin

text \<open>
  True file versions end to end: what \<open>get_file_versions\<close> is answered on the wire is the content of
  the two paths at the two commits asked for, while any other methods run in between and share the
  blob cache.
\<close>

section \<open>The parameters\<close>

definition file_params :: "json option \<Rightarrow> getFileVersionsParams option" where
  "file_params params =
     (case params of
        None \<Rightarrow> Some zero_getFileVersions
      | Some v \<Rightarrow> dec_struct getFileVersionsParams_fields v zero_getFileVersions)"

lemma decode_file_params:
  "decode d params getFileVersionsParams_fields zero_getFileVersions = retP p \<longleftrightarrow> file_params params = Some p"
  by (auto simp: decode_def file_params_def bad_def failP_def retP_def split: option.split)

text \<open>Both commits are named, and no name has a character that would end it in a URL or in a key of the
  cache.\<close>

definition base_ref :: "getFileVersionsParams \<Rightarrow> blob_ref" where
  "base_ref p =
     \<lparr>br_owner = pp_Owner p, br_repo = pp_Repo p,
      br_path = (if gf_PreviousPath p = [] then gf_Path p else gf_PreviousPath p), br_ref = gf_Base p\<rparr>"

definition head_ref :: "getFileVersionsParams \<Rightarrow> blob_ref" where
  "head_ref p =
     \<lparr>br_owner = pp_Owner p, br_repo = pp_Repo p, br_path = gf_Path p, br_ref = gf_Head p\<rparr>"

definition pinned :: "getFileVersionsParams \<Rightarrow> bool" where
  "pinned p \<longleftrightarrow>
     gf_Base p \<noteq> [] \<and> gf_Head p \<noteq> [] \<and> plain_ref (base_ref p) \<and> plain_ref (head_ref p)"

definition versions_of :: "(blob_ref \<Rightarrow> string option) \<Rightarrow> getFileVersionsParams \<Rightarrow> FileVersions" where
  "versions_of files p =
     \<lparr>fv_Base = file_blob (files (base_ref p)), fv_Head = file_blob (files (head_ref p)), fv_Truncated = False\<rparr>"

section \<open>The client over an honest server\<close>

definition honest_inv :: "(blob_ref \<Rightarrow> string option) \<Rightarrow> 'w client_st \<Rightarrow> bool" where
  "honest_inv files s \<longleftrightarrow> client_inv s \<and> cache_true files (cs_cache s)"

lemma honest_rely:
  assumes srv: "serves_files env cfg files" and tok: "token_ok cfg"
  shows "cache_rely env cfg (honest_inv files) plain_ref (\<lambda>b t. task_closed t \<and> task_true files b t)"
proof unfold_locales
  show "token_ok cfg" by (rule tok)
  show "honest_inv files s'" if "honest_inv files s" "cs_cache s' = cs_cache s" for s s' :: "'a client_st"
    using that by (simp add: honest_inv_def client_inv_def)
  show "honest_inv files (snd (task_step env cfg b t s)) \<and>
      task_closed (fst (task_step env cfg b t s)) \<and> task_true files b (fst (task_step env cfg b t s))"
    if "plain_ref b" "honest_inv files s" "task_closed t \<and> task_true files b t" for b t and s :: "'a client_st"
  proof -
    obtain t' s' where st: "task_step env cfg b t s = (t', s')" by fastforce
    from that task_step_inv [OF _ st] task_step_closed [OF tok _ st] task_step_true [OF srv that(1) _ _ st]
    show ?thesis by (simp add: st honest_inv_def)
  qed
qed simp_all

lemma honest_versions:
  assumes srv: "serves_files env cfg files" and tok: "token_ok cfg" and p: "pinned p"
  shows "good (honest_inv files) (ends_in closed_err (\<lambda>v. v = versions_of files p))
    (GetFileVersions_go env cfg (pp_Owner p) (pp_Repo p) (pp_Number p)
      (gf_Path p) (gf_PreviousPath p) (gf_Base p) (gf_Head p))"
proof -
  have refs: "plain_ref (base_ref p)" "plain_ref (head_ref p)" "gf_Base p \<noteq> []" "gf_Head p \<noteq> []"
    using p by (auto simp: pinned_def)
  have "good (honest_inv files) (ends_in closed_err (\<lambda>v. v = versions_of files p))
      (both_blobs_go sched env cfg (base_ref p) (head_ref p))" for sched
    using cache_rely.good_both_blobs [OF honest_rely [OF srv tok] refs(1,2), of sched]
    by (rule good_mono) (auto simp: ends_in_def versions_of_def split: sum.splits)
  then show ?thesis
    using refs(3,4) by (simp add: GetFileVersions_go_def Let_def good_readP base_ref_def head_ref_def)
qed

lemma honest_surface:
  assumes srv: "serves_files env cfg files" and tok: "token_ok cfg"
  shows "github_api (client_api env cfg) closed_err (honest_inv files) pinned (\<lambda>p v. v = versions_of files p)"
proof
  show "honest_inv files (clr s)"
    if "ap_ClearCache (client_api env cfg) = Some clr" "honest_inv files s" for clr and s :: "'a client_st"
    using that client_inv_clear [of s] blob_memo.known_clr [of "true_blob files" "cs_cache s"]
    by (auto simp: client_api_def honest_inv_def cache_true_def ClearCache_def)
qed (simp_all add: client_api_def cache_rely.good_client [OF honest_rely [OF srv tok]]
    honest_versions [OF srv tok])

section \<open>The answers\<close>

lemma good_conj:
  "good (\<lambda>_. True) Q1 p \<Longrightarrow> good I Q2 p \<Longrightarrow> good I (\<lambda>r. Q1 r \<and> Q2 r) p"
  by (induction p) auto

definition asks_pinned :: "request \<Rightarrow> bool" where
  "asks_pinned req \<longleftrightarrow>
     (rq_Method req = ''get_file_versions'' \<longrightarrow> (\<forall>p. file_params (rq_Params req) = Some p \<longrightarrow> pinned p))"

definition true_reply :: "(blob_ref \<Rightarrow> string option) \<Rightarrow> request \<Rightarrow> result_val response \<Rightarrow> bool" where
  "true_reply files req r \<longleftrightarrow>
     typed_reply req r \<and>
     (\<forall>v. rs_Result r = Some (RFileVersions v) \<longrightarrow>
        (\<exists>p. file_params (rq_Params req) = Some p \<and> v = versions_of files p))"

lemma honest_service:
  assumes srv: "serves_files env cfg files" and tok: "token_ok cfg"
  shows "service (run (NewRegistry \<lparr>dp_GH = Some (client_api env cfg), dp_json_err = je\<rparr>))
    (honest_inv files) (true_reply files) asks_pinned"
proof
  fix req
  let ?d = "\<lparr>dp_GH = Some (client_api env cfg), dp_json_err = je\<rparr>"
  assume ask: "asks_pinned req"
  note api = honest_surface [OF srv tok]
  have "good (honest_inv files) (\<lambda>x. \<forall>v. rs_Result (fst x) = Some (RFileVersions v) \<longrightarrow>
      rq_Method req = ''get_file_versions'' \<longrightarrow>
      (\<exists>p. file_params (rq_Params req) = Some p \<and> v = versions_of files p)) (run (NewRegistry ?d) req)"
  proof (rule good_run [where Q = "\<lambda>r. \<forall>v. r = Inr (RFileVersions v) \<longrightarrow>
      rq_Method req = ''get_file_versions'' \<longrightarrow>
      (\<exists>p. file_params (rq_Params req) = Some p \<and> v = versions_of files p)"])
    fix h
    assume h: "map_of (NewRegistry ?d) (rq_Method req) = Some h"
    show "good (honest_inv files) (\<lambda>r. \<forall>v. r = Inr (RFileVersions v) \<longrightarrow>
        rq_Method req = ''get_file_versions'' \<longrightarrow>
        (\<exists>p. file_params (rq_Params req) = Some p \<and> v = versions_of files p)) (h (rq_Params req))"
    proof (cases "rq_Method req = ''get_file_versions''")
      case True
      with h have "h = getFileVersions ?d" by (simp add: NewRegistry_def)
      moreover have "good (honest_inv files)
          (ends_in (herr_in closed_err) (\<lambda>v. \<exists>p fv. v = RFileVersions fv \<and> fv = versions_of files p \<and>
            decode ?d (rq_Params req) getFileVersionsParams_fields zero_getFileVersions =
              (retP p :: ('a client_st, _) hsem)))
          (getFileVersions ?d (rq_Params req))"
        using ask True by (intro github_api.good_getFileVersions [OF api])
          (simp_all add: decode_file_params asks_pinned_def)
      ultimately show ?thesis
        by (auto simp: decode_file_params elim!: good_mono)
    next
      case False
      have "good (honest_inv files) (ends_in (herr_in closed_err) any) (h (rq_Params req))"
        using False by (intro github_api.handler_good [OF api _ map_of_SomeD [OF h]]) simp_all
      with False show ?thesis by (auto elim: good_mono)
    qed
  qed (auto split: sum.splits)
  from good_conj [OF typed_registry.serves this]
  show "good (honest_inv files) (\<lambda>x. true_reply files req (fst x)) (run (NewRegistry ?d) req)"
    by (rule good_mono) (auto simp: true_reply_def typed_reply_def)
qed

lemma startup_inv: "client_inv (snd (startup ae w))"
  using cache_ok_new
  by (auto simp: startup_def New_def client_inv_def newCache_def maxBlobBytes_def split: sum.split)

lemma startup_honest: "honest_inv files (snd (startup ae w))"
proof -
  have "cs_cache (snd (startup ae w)) = newCache" by (simp add: startup_def New_def split: sum.split)
  then show ?thesis
    using startup_inv [of ae w] cache_true_new [of files] by (simp add: honest_inv_def New_def)
qed

section \<open>Properties\<close>

text \<open>C7: Both versions on the wire are the true ones.  Against a server of file contents, whatever else it
  answers, in a session in which every \<open>get_file_versions\<close> names its two commits, each answer written
  with file versions has, of a request that was read and has its id, the contents of the base path
  (the previous path of a rename) at the base commit and of the path at the head commit: a missing
  path as missing, and a content up to its first 32 MiB.  Any number of requests, of any methods, may
  run at the same time and share the cache, flushes of it included.\<close>

theorem versions_true_on_wire:
  assumes "serves_files env (fst (startup ae w)) files"
    and "steps (run (main_registry env ae w je)) (Run_init frames (snd (startup ae w))) n st"
    and "\<forall>f \<in> set frames. \<forall>req. frame_request f = Some req \<longrightarrow> asks_pinned req"
    and "r \<in> set (sv_written st)" and "rs_Result r = Some (RFileVersions v)"
  shows "\<exists>line req p. Line line \<in> set frames \<and> decode_request line = Some req \<and> rq_ID req = rs_ID r \<and>
    rq_Method req = ''get_file_versions'' \<and> file_params (rq_Params req) = Some p \<and> v = versions_of files p"
proof -
  have "served (honest_inv files) (true_reply files) frames st"
    using assms(3) by (intro service.steps_served [OF honest_service [OF assms(1) startup_token_ok] _ startup_honest assms(2)])
      blast
  from servedD(4) [OF this, of r] assms(4)
  obtain f where f: "f \<in> set frames"
    and "(\<exists>m. r = badRequest (frame_id f) m) \<or> (\<exists>req. frame_request f = Some req \<and> true_reply files req r)"
    by (auto simp: answers_def responses_def)
  with assms(5) obtain req where "frame_request f = Some req" "true_reply files req r" by auto
  with f assms(5) show ?thesis
    by (fastforce simp: true_reply_def typed_reply_def frame_request_def split: frame_event.splits)
qed

definition files_request :: request where
  "files_request =
     \<lparr>rq_ID = 4, rq_Method = ''get_file_versions'', rq_Params = Some (JObj
        [(''owner'', JStr ''o''), (''repo'', JStr ''r''), (''number'', json_int 7), (''path'', JStr ''new.go''),
         (''previous_path'', JStr ''old.go''), (''base'', JStr ''b0''), (''head'', JStr ''h0'')])\<rparr>"

definition files_frame :: frame_event where
  "files_frame = Line (json_text (request_json files_request))"

lemma files_frame_request: "frame_request files_frame = Some files_request"
proof -
  have "utf8_ok ''get_file_versions''" "utf8_ok ''id''" "utf8_ok ''method''" "utf8_ok ''params''"
    "utf8_ok ''owner''" "utf8_ok ''o''" "utf8_ok ''repo''" "utf8_ok ''r''" "utf8_ok ''number''"
    "utf8_ok ''path''" "utf8_ok ''new.go''" "utf8_ok ''previous_path''" "utf8_ok ''old.go''" "utf8_ok ''base''"
    "utf8_ok ''b0''" "utf8_ok ''head''" "utf8_ok ''h0''"
    by code_simp+
  then have "json_ok (request_json files_request)" "json_depth (request_json files_request) \<le> max_nesting"
    "in_int64 (rq_ID files_request)"
    by (simp_all add: request_json_def files_request_def json_int_def max_nesting_def in_int64_def
        min_int64_def max_int64_def)
  from decode_request_json [OF this] show ?thesis by (simp add: frame_request_def files_frame_def)
qed

definition files_params :: getFileVersionsParams where
  "files_params =
     \<lparr>pp_Owner = ''o'', pp_Repo = ''r'', pp_Number = 7, gf_Path = ''new.go'', gf_PreviousPath = ''old.go'',
      gf_Base = ''b0'', gf_Head = ''h0''\<rparr>"

lemma files_request_params: "file_params (rq_Params files_request) = Some files_params"
proof -
  have "in_int64 7" by (simp add: in_int64_def min_int64_def max_int64_def)
  then show ?thesis
    by (simp add: file_params_def files_request_def files_params_def getFileVersionsParams_fields_def
        prParams_fields_def zero_getFileVersions_def json_int_def find_field_def fld_def parse_int64_itoa)
qed

lemma files_request_runs:
  assumes "GetFileVersions env cfg ''o'' ''r'' 7 ''new.go'' ''old.go'' ''b0'' ''h0'' s = (Inr v, s')"
  shows "exec (run (NewRegistry \<lparr>dp_GH = Some (client_api env cfg), dp_json_err = je\<rparr>) files_request) s =
    ((\<lparr>rs_ID = 4, rs_Result = Some (RFileVersions v), rs_Error = None\<rparr>,
      [request_line files_request \<lparr>rs_ID = 4, rs_Result = Some (RFileVersions v), rs_Error = None\<rparr>]), s')"
proof -
  let ?d = "\<lparr>dp_GH = Some (client_api env cfg), dp_json_err = je\<rparr>"
  have dec: "decode ?d (rq_Params files_request) getFileVersionsParams_fields zero_getFileVersions =
      (retP files_params :: ('a client_st, _) hsem)"
    using files_request_params by (simp add: decode_file_params)
  have "getFileVersions ?d (rq_Params files_request) =
      returning RFileVersions (lift_err (GetFileVersions_go env cfg ''o'' ''r'' 7 ''new.go'' ''old.go'' ''b0'' ''h0''))"
    unfolding getFileVersions_def with_pr_def dec
    by (simp add: files_params_def requirePR_def requireRepo_def with_gh_def) (simp add: client_api_def)
  then have "exec (getFileVersions ?d (rq_Params files_request)) s = (Inr (RFileVersions v), s')"
    using assms by (simp add: returning_def exec_bindP bindE_def exec_lift exec_retP alone_GetFileVersions)
  moreover have "map_of (NewRegistry ?d) (rq_Method files_request) = Some (getFileVersions ?d)"
    by (simp add: NewRegistry_def files_request_def)
  ultimately show ?thesis
    by (simp add: run_def exec_mapP settle_def deferred_def) (simp add: files_request_def)
qed

lemma commit_versions:
  "\<exists>s'. GetFileVersions commit_env test_cfg ''o'' ''r'' 7 ''new.go'' ''old.go'' ''b0'' ''h0''
      (snd (startup test_auth ())) =
    (Inr \<lparr>fv_Base = \<lparr>fb_Content = ''b0'', fb_Missing = False\<rparr>,
      fv_Head = \<lparr>fb_Content = ''h0'', fb_Missing = False\<rparr>, fv_Truncated = False\<rparr>, s')"
proof -
  have "cache_true (\<lambda>b. Some (br_ref b)) (cs_cache (snd (startup test_auth ())))"
    using startup_honest [of "\<lambda>b. Some (br_ref b)" test_auth "()"] by (simp add: honest_inv_def)
  moreover have "plain_ref \<lparr>br_owner = ''o'', br_repo = ''r'', br_path = p, br_ref = ''b0''\<rparr>"
    "plain_ref \<lparr>br_owner = ''o'', br_repo = ''r'', br_path = p, br_ref = ''h0''\<rparr>" for p
    by (simp_all add: plain_ref_def)
  ultimately show ?thesis
    using answered_versions [OF commit_serves commit_answers, where owner = "''o''" and repo = "''r''"
        and base = "''b0''" and head = "''h0''" and path = "''new.go''" and basePath = "''old.go''"
        and s = "snd (startup test_auth ())" and n = 7]
    by (simp add: maxResponse_def)
qed

theorem versions_true_on_wire_witness:
  "\<exists>n st r v. steps (run (main_registry commit_env test_auth () (\<lambda>_ _. [])))
       (Run_init [hello_frame 1, files_frame] (snd (startup test_auth ()))) n st \<and>
     r \<in> set (sv_written st) \<and> rs_ID r = 4 \<and> rs_Result r = Some (RFileVersions v) \<and>
     v = \<lparr>fv_Base = \<lparr>fb_Content = ''b0'', fb_Missing = False\<rparr>,
       fv_Head = \<lparr>fb_Content = ''h0'', fb_Missing = False\<rparr>, fv_Truncated = False\<rparr>"
proof -
  let ?env = "commit_env" and ?s = "snd (startup test_auth ())"
  let ?reg = "main_registry ?env test_auth () (\<lambda>_ _. [])"
  let ?v = "\<lparr>fv_Base = \<lparr>fb_Content = ''b0'', fb_Missing = False\<rparr>,
       fv_Head = \<lparr>fb_Content = ''h0'', fb_Missing = False\<rparr>, fv_Truncated = False\<rparr>"
  let ?files = "\<lambda>b. Some (br_ref b)"
  let ?r = "\<lparr>rs_ID = 4, rs_Result = Some (RFileVersions ?v), rs_Error = None\<rparr> :: result_val response"
  obtain v where hello: "run ?reg (hello_with 1) =
      Ret (\<lparr>rs_ID = 3, rs_Result = Some v, rs_Error = None\<rparr>,
        [request_line (hello_with 1) \<lparr>rs_ID = 3, rs_Result = Some v, rs_Error = None\<rparr>])"
    using hello_runs(2) by (fastforce simp: deferred_def)
  have spawn: "on_frame files_frame True = (Spawn files_request :: result_val action)"
    by (simp add: on_frame_request files_frame_request dispatch_def) (simp add: files_request_def)
  obtain s' where "GetFileVersions ?env test_cfg ''o'' ''r'' 7 ''new.go'' ''old.go'' ''b0'' ''h0'' ?s = (Inr ?v, s')"
    using commit_versions by blast
  then have "exec (run ?reg files_request) ?s = ((?r, [request_line files_request ?r]), s')"
    using files_request_runs by simp
  from two_frames_run [OF hello_runs(1) hello _ spawn this]
  obtain n st where run: "steps (run ?reg) (Run_init [hello_frame 1, files_frame] ?s) n st"
    and w: "?r \<in> set (sv_written st)"
    by auto
  have srv: "serves_files ?env (fst (startup test_auth ())) ?files"
    by (simp add: commit_serves)
  have "pinned files_params"
    by (simp add: pinned_def files_params_def plain_ref_def base_ref_def head_ref_def)
  then have ask: "\<forall>f \<in> set [hello_frame 1, files_frame]. \<forall>req. frame_request f = Some req \<longrightarrow> asks_pinned req"
    using files_request_params
    by (simp add: hello_frame_request files_frame_request asks_pinned_def) (simp add: hello_with_def)
  from versions_true_on_wire [OF srv run ask w] obtain line req p
    where line: "Line line \<in> set [hello_frame 1, files_frame]" "decode_request line = Some req"
      and "rq_Method req = ''get_file_versions''" "file_params (rq_Params req) = Some p"
      and v: "?v = versions_of ?files p"
    by auto
  moreover have "frame_request (Line line) = Some req" using line(2) by (simp add: frame_request_def)
  then have "req = hello_with 1 \<or> req = files_request"
    using line(1) hello_frame_request [of 1] files_frame_request by auto
  ultimately have "p = files_params" using files_request_params by (auto simp: hello_with_def)
  with v run w show ?thesis by (intro exI [of _ n] exI [of _ st] exI [of _ ?r]) auto
qed

end
