(* ===== verification/Sequential.thy ===== *)
theory Sequential
  imports File_Truth
begin

text \<open>
  A request that is served alone.  The methods of the client are stated twice: as computations, where
  what they return and which calls they make is proved, and as goroutines, which is how the server runs
  them.  Here the two meet: when nothing else is in flight, a request is answered, and the state left,
  as the computations say, however the reader, the goroutine and the writer are scheduled.
\<close>

section \<open>The surface of computations\<close>

definition sequential_api :: "'w env \<Rightarrow> client_cfg \<Rightarrow> 'w client_st api" where
  "sequential_api env cfg =
     \<lparr>ap_ListPRs = (\<lambda>owner repo flt. atomP (ListPRs env cfg owner repo flt)),
      ap_GetPR = (\<lambda>owner repo n. atomP (GetPR env cfg owner repo n)),
      ap_GetFileVersions = (\<lambda>owner repo n p bp b h. atomP (GetFileVersions env cfg owner repo n p bp b h)),
      ap_HeadSHA = (\<lambda>owner repo n. atomP (HeadSHA env cfg owner repo n)),
      ap_GetThreads = (\<lambda>owner repo n. atomP (GetThreads env cfg owner repo n)),
      ap_GetTimeline = (\<lambda>owner repo n. atomP (GetTimeline env cfg owner repo n)),
      ap_GetPendingReview = (\<lambda>owner repo n. atomP (GetPendingReview env cfg owner repo n)),
      ap_GetChecks = (\<lambda>owner repo n. atomP (GetChecks env cfg owner repo n)),
      ap_StartReview = (\<lambda>owner repo n. atomP (StartReview env cfg owner repo n)),
      ap_SubmitReview = (\<lambda>i event body. atomP (SubmitReview env cfg i event body)),
      ap_DiscardReview = (\<lambda>i. atomP (DiscardReview env cfg i)),
      ap_PostComment = (\<lambda>owner repo n inp. atomP (PostComment env cfg owner repo n inp)),
      ap_PostIssueComment = (\<lambda>owner repo n body. atomP (PostIssueComment env cfg owner repo n body)),
      ap_DeleteComment = (\<lambda>i. atomP (DeleteComment env cfg i)),
      ap_ResolveThread = (\<lambda>i v. atomP (ResolveThread env cfg i v)),
      ap_SetFileViewed = (\<lambda>owner repo n path v. atomP (SetFileViewed env cfg owner repo n path v)),
      ap_MergePR = (\<lambda>owner repo n m d sj b. atomP (MergePR env cfg owner repo n m d sj b)),
      ap_SetPRState = (\<lambda>owner repo n st. atomP (SetPRState env cfg owner repo n st)),
      ap_TokenStatus = TokenStatus cfg, ap_ClearCache = Some ClearCache\<rparr>"

lemma exec_client_api:
  "exec (ap_ListPRs (client_api env cfg) ow re f) = exec (ap_ListPRs (sequential_api env cfg) ow re f)"
  "exec (ap_GetPR (client_api env cfg) ow re n) = exec (ap_GetPR (sequential_api env cfg) ow re n)"
  "exec (ap_GetFileVersions (client_api env cfg) ow re n p bp b h) =
     exec (ap_GetFileVersions (sequential_api env cfg) ow re n p bp b h)"
  "exec (ap_HeadSHA (client_api env cfg) ow re n) = exec (ap_HeadSHA (sequential_api env cfg) ow re n)"
  "exec (ap_GetThreads (client_api env cfg) ow re n) = exec (ap_GetThreads (sequential_api env cfg) ow re n)"
  "exec (ap_GetTimeline (client_api env cfg) ow re n) = exec (ap_GetTimeline (sequential_api env cfg) ow re n)"
  "exec (ap_GetPendingReview (client_api env cfg) ow re n) = exec (ap_GetPendingReview (sequential_api env cfg) ow re n)"
  "exec (ap_GetChecks (client_api env cfg) ow re n) = exec (ap_GetChecks (sequential_api env cfg) ow re n)"
  "exec (ap_StartReview (client_api env cfg) ow re n) = exec (ap_StartReview (sequential_api env cfg) ow re n)"
  "exec (ap_SubmitReview (client_api env cfg) i ev b) = exec (ap_SubmitReview (sequential_api env cfg) i ev b)"
  "exec (ap_DiscardReview (client_api env cfg) i) = exec (ap_DiscardReview (sequential_api env cfg) i)"
  "exec (ap_PostComment (client_api env cfg) ow re n inp) = exec (ap_PostComment (sequential_api env cfg) ow re n inp)"
  "exec (ap_PostIssueComment (client_api env cfg) ow re n b) = exec (ap_PostIssueComment (sequential_api env cfg) ow re n b)"
  "exec (ap_DeleteComment (client_api env cfg) i) = exec (ap_DeleteComment (sequential_api env cfg) i)"
  "exec (ap_ResolveThread (client_api env cfg) i v) = exec (ap_ResolveThread (sequential_api env cfg) i v)"
  "exec (ap_SetFileViewed (client_api env cfg) ow re n p v) = exec (ap_SetFileViewed (sequential_api env cfg) ow re n p v)"
  "exec (ap_MergePR (client_api env cfg) ow re n m v sj b) = exec (ap_MergePR (sequential_api env cfg) ow re n m v sj b)"
  "exec (ap_SetPRState (client_api env cfg) ow re n b) = exec (ap_SetPRState (sequential_api env cfg) ow re n b)"
  by (simp_all only: client_api_def sequential_api_def api.simps exec_atomP alone_client alone_GetFileVersions)

lemma exec_lift_cong: "exec m = exec m' \<Longrightarrow> exec (lift_err m) = exec (lift_err m')"
  by (simp add: fun_eq_iff exec_lift)

abbreviation client_deps :: "'w env \<Rightarrow> client_cfg \<Rightarrow> (string list \<Rightarrow> json \<Rightarrow> string) \<Rightarrow> 'w client_st deps" where
  "client_deps env cfg je \<equiv> \<lparr>dp_GH = Some (client_api env cfg), dp_json_err = je\<rparr>"

abbreviation sequential_deps :: "'w env \<Rightarrow> client_cfg \<Rightarrow> (string list \<Rightarrow> json \<Rightarrow> string) \<Rightarrow> 'w client_st deps" where
  "sequential_deps env cfg je \<equiv> \<lparr>dp_GH = Some (sequential_api env cfg), dp_json_err = je\<rparr>"

lemma exec_with_pr:
  assumes "\<And>p. exec (f p) = exec (g p)"
  shows "exec (with_pr (client_deps env cfg je) params fs zero f) =
    exec (with_pr (sequential_deps env cfg je) params fs zero g)"
  using assms decode_cong [of "client_deps env cfg je" "sequential_deps env cfg je" params fs zero]
  by (simp add: with_pr_def exec_bindP)

lemma exec_returning: "exec m = exec m' \<Longrightarrow> exec (returning r m) = exec (returning r m')"
  by (simp add: returning_def exec_bindP)

lemma exec_if: "exec p = exec p' \<Longrightarrow> exec q = exec q' \<Longrightarrow> exec (if b then p else q) = exec (if b then p' else q')"
  by simp

lemma exec_option:
  "exec p = exec p' \<Longrightarrow> (\<And>y. exec (f y) = exec (g y)) \<Longrightarrow>
    exec (case x of None \<Rightarrow> p | Some y \<Rightarrow> f y) = exec (case x of None \<Rightarrow> p' | Some y \<Rightarrow> g y)"
  by (cases x) simp_all

lemma exec_bind_cong: "exec m = exec m' \<Longrightarrow> (\<And>a. exec (f a) = exec (g a)) \<Longrightarrow> exec (bindP m f) = exec (bindP m' g)"
  by (simp add: exec_bindP)

lemma exec_with_gh:
  "exec (f (client_api env cfg)) = exec (f (sequential_api env cfg)) \<Longrightarrow>
    exec (with_gh (client_deps env cfg je) f) = exec (with_gh (sequential_deps env cfg je) f)"
  unfolding with_gh_def deps.simps option.case by (rule exec_lift_cong)

lemma guardHead_alone:
  "exec (guardHead (client_deps env cfg je) ow re n e) = exec (guardHead (sequential_deps env cfg je) ow re n e)"
proof -
  have "exec (with_gh (client_deps env cfg je) (\<lambda>api. ap_HeadSHA api ow re n)) =
      exec (with_gh (sequential_deps env cfg je) (\<lambda>api. ap_HeadSHA api ow re n))"
    by (rule exec_with_gh [OF exec_client_api(4)])
  then show ?thesis by (simp only: guardHead_def exec_branches exec_bindP)
qed

lemma exec_handlers:
  "exec (getPR (client_deps env cfg je) ps) = exec (getPR (sequential_deps env cfg je) ps)"
  "exec (getFileVersions (client_deps env cfg je) ps) = exec (getFileVersions (sequential_deps env cfg je) ps)"
  "exec (getThreads (client_deps env cfg je) ps) = exec (getThreads (sequential_deps env cfg je) ps)"
  "exec (getTimeline (client_deps env cfg je) ps) = exec (getTimeline (sequential_deps env cfg je) ps)"
  "exec (getPendingReview (client_deps env cfg je) ps) = exec (getPendingReview (sequential_deps env cfg je) ps)"
  "exec (getChecks (client_deps env cfg je) ps) = exec (getChecks (sequential_deps env cfg je) ps)"
  "exec (startReview (client_deps env cfg je) ps) = exec (startReview (sequential_deps env cfg je) ps)"
  "exec (submitReview (client_deps env cfg je) ps) = exec (submitReview (sequential_deps env cfg je) ps)"
  "exec (discardReview (client_deps env cfg je) ps) = exec (discardReview (sequential_deps env cfg je) ps)"
  "exec (postComment (client_deps env cfg je) ps) = exec (postComment (sequential_deps env cfg je) ps)"
  "exec (postIssueComment (client_deps env cfg je) ps) = exec (postIssueComment (sequential_deps env cfg je) ps)"
  "exec (deleteComment (client_deps env cfg je) ps) = exec (deleteComment (sequential_deps env cfg je) ps)"
  "exec (resolveThread (client_deps env cfg je) ps) = exec (resolveThread (sequential_deps env cfg je) ps)"
  "exec (setFileViewed (client_deps env cfg je) ps) = exec (setFileViewed (sequential_deps env cfg je) ps)"
  "exec (mergePR (client_deps env cfg je) ps) = exec (mergePR (sequential_deps env cfg je) ps)"
  "exec (setPRState (client_deps env cfg je) ps) = exec (setPRState (sequential_deps env cfg je) ps)"
  unfolding handler_defs
  by (intro exec_with_pr exec_if exec_option exec_bind_cong exec_returning exec_with_gh guardHead_alone exec_client_api refl)+

lemma exec_listPRs:
  "exec (listPRs (client_deps env cfg je) ps) = exec (listPRs (sequential_deps env cfg je) ps)"
proof -
  have "decode (client_deps env cfg je) ps listPRsParams_fields z =
      (decode (sequential_deps env cfg je) ps listPRsParams_fields z :: ('a client_st, _) hsem)" for z
    by (rule decode_cong) simp
  then show ?thesis
    unfolding listPRs_def
    by (simp only:) (intro exec_bind_cong exec_returning exec_with_gh exec_client_api refl)
qed

lemma same_constants:
  "hello (client_deps env cfg je) ps = hello (sequential_deps env cfg je) ps"
  "cacheClear (client_deps env cfg je) ps = cacheClear (sequential_deps env cfg je) ps"
  by (simp_all add: hello_def cacheClear_def decode_def client_api_def sequential_api_def cong: if_cong option.case_cong)

lemma exec_run:
  "exec (run (NewRegistry (client_deps env cfg je)) req) = exec (run (NewRegistry (sequential_deps env cfg je)) req)"
proof -
  have "rel_option (\<lambda>h h'. \<forall>ps. exec (h ps) = exec (h' ps))
      (map_of (NewRegistry (client_deps env cfg je)) (rq_Method req))
      (map_of (NewRegistry (sequential_deps env cfg je)) (rq_Method req))"
    by (simp add: NewRegistry_def exec_handlers exec_listPRs same_constants)
  then show ?thesis
    by (auto simp: run_def fun_eq_iff exec_mapP elim: option.rel_cases)
qed

section \<open>One request in flight\<close>

text \<open>
  The states of a run over the handshake and one more request: before and in the handshake, its answer
  being sent, before the request, while it runs, while its answer waits, and after.
\<close>

definition sent_so_far :: "'r list \<Rightarrow> 'r list \<Rightarrow> 'r list \<Rightarrow> bool" where
  "sent_so_far wr out rs \<longleftrightarrow> wr @ out = rs"

lemma sent_intros:
  "sent_so_far [] [r] [r]" "sent_so_far wr (r # out) rs \<Longrightarrow> sent_so_far (wr @ [r]) out rs"
  "sent_so_far wr out [r1] \<Longrightarrow> sent_so_far wr (out @ [r2]) [r1, r2]"
  by (simp_all add: sent_so_far_def)

inductive lone ::
  "('s, 'r) runner \<Rightarrow> frame_event \<times> request \<times> 'r response \<times> log_entry list \<Rightarrow>
    frame_event \<times> request \<times> 'r response \<times> log_entry list \<Rightarrow> 's \<Rightarrow> 's \<Rightarrow> ('s, 'r) server \<Rightarrow> bool"
  for rn a b s s' where
  before: "a = (f1, q1, r1, es1) \<Longrightarrow> b = (f2, q2, r2, es2) \<Longrightarrow>
     lone rn a b s s' (server_of [f1, f2] Reading False [] [] [] [] s [])"
| handshake: "a = (f1, q1, r1, ds @ es) \<Longrightarrow> b = (f2, q2, r2, es2) \<Longrightarrow>
     lone rn a b s s' (server_of [f2] (Handling (q1, Ret (r1, es))) False [] [] [] [] s ds)"
| greeted: "a = (f1, q1, r1, es1) \<Longrightarrow> b = (f2, q2, r2, es2) \<Longrightarrow>
     lone rn a b s s' (server_of [f2] (Sending r1) True [] [] [] [] s es1)"
| between: "a = (f1, q1, r1, es1) \<Longrightarrow> b = (f2, q2, r2, es2) \<Longrightarrow> sent_so_far wr out [r1] \<Longrightarrow>
     lone rn a b s s' (server_of [f2] Reading True [] [] out wr s es1)"
| works: "a = (f1, q1, r1, es1) \<Longrightarrow> b = (f2, q2, r2, ds @ es) \<Longrightarrow> sent_so_far wr out [r1] \<Longrightarrow>
     pc \<in> {Reading, Waiting} \<Longrightarrow> exec p g = ((r2, es), s') \<Longrightarrow> lg = es1 @ ds \<Longrightarrow>
     lone rn a b s s' (server_of [] pc True [(q2, p)] [] out wr g lg)"
| waits: "a = (f1, q1, r1, es1) \<Longrightarrow> b = (f2, q2, r2, es2) \<Longrightarrow> sent_so_far wr out [r1] \<Longrightarrow>
     pc \<in> {Reading, Waiting} \<Longrightarrow>
     lone rn a b s s' (server_of [] pc True [] [r2] out wr s' (es1 @ es2))"
| after: "a = (f1, q1, r1, es1) \<Longrightarrow> b = (f2, q2, r2, es2) \<Longrightarrow> sent_so_far wr out [r1, r2] \<Longrightarrow>
     pc \<in> {Reading, Waiting, Closed, Returned} \<Longrightarrow>
     lone rn a b s s' (server_of [] pc True [] [] out wr s' (es1 @ es2))"

lemmas lone_server = lone.intros [unfolded server_of_def]

lemma advance_exec:
  "advance p g = Some (p', t, ls) \<Longrightarrow> exec p g = ((r, es), s') \<Longrightarrow> \<exists>es'. es = ls @ es' \<and> exec p' t = ((r, es'), s')"
  by (cases "(p, g)" rule: advance.cases) auto

lemma lone_working:
  assumes "sent_so_far wr out [r1]" and "pc = Reading \<or> pc = Waiting" and "exec p g = ((r2, es), s')"
    and "es2 = ds @ es"
  shows "lone rn (f1, q1, r1, es1) (f2, q2, r2, es2) s s'
    \<lparr>sv_frames = [], sv_pc = pc, sv_helloOK = True, sv_running = [(q2, p)], sv_blocked = [],
     sv_outbound = out, sv_written = wr, sv_gh = g, sv_log = es1 @ ds\<rparr>"
  by (rule lone_server(5)) (use assms in auto)

lemma lone_waiting:
  assumes "sent_so_far wr out [r1]" and "pc = Reading \<or> pc = Waiting"
  shows "lone rn (f1, q1, r1, es1) (f2, q2, r2, es2) s s'
    \<lparr>sv_frames = [], sv_pc = pc, sv_helloOK = True, sv_running = [], sv_blocked = [r2],
     sv_outbound = out, sv_written = wr, sv_gh = s', sv_log = es1 @ es2\<rparr>"
  by (rule lone_server(6)) (use assms in auto)

lemma lone_after:
  assumes "sent_so_far wr out [r1, r2]" and "pc \<in> {Reading, Waiting, Closed, Returned}"
  shows "lone rn (f1, q1, r1, es1) (f2, q2, r2, es2) s s'
    \<lparr>sv_frames = [], sv_pc = pc, sv_helloOK = True, sv_running = [], sv_blocked = [],
     sv_outbound = out, sv_written = wr, sv_gh = s', sv_log = es1 @ es2\<rparr>"
  by (rule lone_server(7)) (use assms in auto)

lemma lone_advanced:
  assumes "advance p g = Some (p', t, ls)" and "sent_so_far wr out [r1]" and "pc = Reading \<or> pc = Waiting"
    and "exec p g = ((r2, es), s')" and "es2 = ds @ es"
  shows "lone rn (f1, q1, r1, es1) (f2, q2, r2, es2) s s'
    \<lparr>sv_frames = [], sv_pc = pc, sv_helloOK = True, sv_running = [(q2, p')], sv_blocked = [],
     sv_outbound = out, sv_written = wr, sv_gh = t, sv_log = es1 @ ds @ ls\<rparr>"
proof -
  obtain es' where "es = ls @ es'" "exec p' t = ((r2, es'), s')" using advance_exec [OF assms(1,4)] by blast
  with lone_working [OF assms(2,3) this(2), of es2 "ds @ ls"] assms(5) show ?thesis by simp
qed

lemma step_lone:
  fixes rn :: "('s, 'r) runner"
  assumes hello: "on_frame f1 False = (Inline q1 :: 'r action)" "rn q1 = Ret (r1, es1)" "rs_Error r1 = None"
    and other: "on_frame f2 True = (Spawn q2 :: 'r action)" "exec (rn q2) s = ((r2, es2), s')"
  shows "lone rn (f1, q1, r1, es1) (f2, q2, r2, es2) s s' st \<Longrightarrow> step rn st st' \<Longrightarrow>
    lone rn (f1, q1, r1, es1) (f2, q2, r2, es2) s s' st'"
proof (induction rule: lone.induct)
  case (before f1' q1' r1' es1' f2' q2' r2' es2')
  then show ?case
    using hello lone_server(2) [of _ f1 q1 r1 "[]" es1]
    by (auto simp: server_of_def elim!: step.cases)
next
  case (handshake f1' q1' r1' ds es f2' q2' r2' es2')
  show ?case
  proof (cases es)
    case Nil
    with handshake hello lone_server(3) [of _ f1 q1 r1 es1] show ?thesis
      by (auto simp: server_of_def elim!: step.cases)
  next
    case (Cons e es')
    with handshake lone_server(2) [of _ f1 q1 r1 "ds @ [e]" es'] show ?thesis
      by (auto simp: server_of_def elim!: step.cases)
  qed
next
  case (greeted f1' q1' r1' es1' f2' q2' r2' es2')
  then show ?case
    using lone_server(4) [of _ f1 q1 r1 es1 _ f2 q2 r2 es2 "[]" "[r1]"]
    by (auto simp: server_of_def sent_intros elim!: step.cases)
next
  case (between f1' q1' r1' es1' f2' q2' r2' es2' wr out)
  then show ?case
    using other lone_server(4) [of _ f1 q1 r1 es1 _ f2 q2 r2 es2 "wr @ [hd out]" "tl out"]
      lone_server(5) [of _ f1 q1 r1 es1 _ f2 q2 r2 "[]" es2 wr out Reading "rn q2" s]
    by (auto simp: server_of_def sent_intros elim!: step.cases)
next
  case (works f1' q1' r1' es1' f2' q2' r2' ds es wr out pc p g lg)
  then show ?case
    using lone_working [where wr = "wr @ [hd out]" and out = "tl out" and pc = pc and p = p and g = g and es = es and ds = ds]
      lone_working [where wr = wr and out = out and pc = Waiting and p = p and g = g and es = es and ds = ds]
      lone_advanced [where p = p and g = g and wr = wr and out = out and pc = pc and es = es and ds = ds]
      lone_waiting [where wr = wr and out = out and pc = pc]
    by (auto simp: server_of_def Cons_eq_append_conv sent_intros elim!: step.cases)
next
  case (waits f1' q1' r1' es1' f2' q2' r2' es2' wr out pc)
  then show ?case
    using lone_waiting [where wr = "wr @ [hd out]" and out = "tl out" and pc = pc]
      lone_waiting [where wr = wr and out = out and pc = Waiting]
      lone_after [where wr = wr and out = "out @ [r2]" and pc = pc]
    by (auto simp: server_of_def Cons_eq_append_conv sent_intros elim!: step.cases)
next
  case (after f1' q1' r1' es1' f2' q2' r2' es2' wr out pc)
  then show ?case
    using lone_after [where wr = "wr @ [hd out]" and out = "tl out" and pc = pc]
      lone_after [where wr = wr and out = out and pc = Waiting]
      lone_after [where wr = wr and out = out and pc = Closed]
      lone_after [where wr = wr and out = out and pc = Returned]
    by (auto simp: server_of_def sent_intros elim!: step.cases)
qed

lemma run_lone:
  fixes rn :: "('s, 'r) runner"
  assumes hello: "on_frame f1 False = (Inline q1 :: 'r action)" "rn q1 = Ret (r1, es1)" "rs_Error r1 = None"
    and other: "on_frame f2 True = (Spawn q2 :: 'r action)" "exec (rn q2) s = ((r2, es2), s')"
    and run: "steps rn (Run_init [f1, f2] s) n st" "sv_pc st = Returned"
  shows "sv_written st = [r1, r2] \<and> sv_gh st = s' \<and> sv_log st = es1 @ es2"
proof -
  have "lone rn (f1, q1, r1, es1) (f2, q2, r2, es2) s s' (Run_init [f1, f2] s)"
    using lone.before [of "(f1, q1, r1, es1)" f1 q1 r1 es1 "(f2, q2, r2, es2)" f2 q2 r2 es2 rn s s']
    by (simp add: Run_init_def server_of_def)
  then have "lone rn (f1, q1, r1, es1) (f2, q2, r2, es2) s s' st"
    by (rule steps_invariant [OF run(1)]) (rule step_lone [OF hello other])
  moreover have "srv_ok st"
    by (rule steps_invariant [OF run(1)]) (simp_all add: srv_ok_init step_srv_ok)
  ultimately show ?thesis
    using run(2) by (auto simp: server_of_def srv_ok_def sent_so_far_def elim!: lone.cases)
qed

text \<open>C8: A request served alone.  The server is started with any environment, is greeted, and then
  asked for one more method, whatever it is.  However its goroutines are scheduled, once it has
  returned it has written the answer to the greeting and then the answer the computations of the client
  give to the request, it has left the client's state as they leave it, and has logged the lines of the two.\<close>

theorem served_alone:
  assumes "frame_request f = Some req" and "rq_Method req \<noteq> ''hello''"
    and "steps (run (main_registry env ae w je)) (Run_init [hello_frame 1, f] s) n st" and "sv_pc st = Returned"
  shows "\<exists>r1. rs_Error r1 = None \<and>
    (case exec (run (NewRegistry (sequential_deps env (fst (startup ae w)) je)) req) s of
       ((r, lines), s') \<Rightarrow>
         sv_written st = [r1, r] \<and> sv_gh st = s' \<and> sv_log st = request_line (hello_with 1) r1 # lines)"
proof -
  let ?reg = "main_registry env ae w je"
  obtain v where hello: "run ?reg (hello_with 1) =
      Ret (\<lparr>rs_ID = 3, rs_Result = Some v, rs_Error = None\<rparr>,
        [request_line (hello_with 1) \<lparr>rs_ID = 3, rs_Result = Some v, rs_Error = None\<rparr>])"
    using hello_runs(2) by (fastforce simp: deferred_def)
  have spawn: "on_frame f True = (Spawn req :: result_val action)"
    using assms(1,2) by (simp add: on_frame_request dispatch_def)
  obtain r lines s' where run: "exec (run ?reg req) s = ((r, lines), s')" by (metis surj_pair)
  moreover have "exec (run (NewRegistry (sequential_deps env (fst (startup ae w)) je)) req) s = ((r, lines), s')"
    using run exec_run [of env "fst (startup ae w)" je req] by simp
  ultimately show ?thesis
    using run_lone [OF hello_runs(1) hello _ spawn run assms(3,4)] by auto
qed

theorem served_alone_witness:
  "\<exists>n st r1 v. steps (run (main_registry commit_env test_auth () (\<lambda>_ _. [])))
       (Run_init [hello_frame 1, files_frame] (snd (startup test_auth ()))) n st \<and> sv_pc st = Returned \<and>
     sv_written st = [r1, \<lparr>rs_ID = 4, rs_Result = Some (RFileVersions v), rs_Error = None\<rparr>] \<and>
     fv_Base v = \<lparr>fb_Content = ''b0'', fb_Missing = False\<rparr> \<and>
     fv_Head v = \<lparr>fb_Content = ''h0'', fb_Missing = False\<rparr>"
proof -
  let ?env = "commit_env" and ?s = "snd (startup test_auth ())"
  let ?v = "\<lparr>fv_Base = \<lparr>fb_Content = ''b0'', fb_Missing = False\<rparr>,
       fv_Head = \<lparr>fb_Content = ''h0'', fb_Missing = False\<rparr>, fv_Truncated = False\<rparr>"
  let ?r = "\<lparr>rs_ID = 4, rs_Result = Some (RFileVersions ?v), rs_Error = None\<rparr> :: result_val response"
  obtain s' where "GetFileVersions ?env test_cfg ''o'' ''r'' 7 ''new.go'' ''old.go'' ''b0'' ''h0'' ?s = (Inr ?v, s')"
    using commit_versions by blast
  then have alone: "exec (run (NewRegistry (sequential_deps ?env (fst (startup test_auth ())) (\<lambda>_ _. []))) files_request) ?s =
      ((?r, [request_line files_request ?r]), s')"
    using files_request_runs unfolding exec_run [symmetric] by simp
  have "rq_Method files_request \<noteq> ''hello''" by (simp add: files_request_def)
  moreover obtain n st where run: "steps (run (main_registry ?env test_auth () (\<lambda>_ _. [])))
      (Run_init [hello_frame 1, files_frame] ?s) n st" "sv_pc st = Returned"
    using sidecar_bound.run_completes [of ?env test_auth "()" "\<lambda>_ _. []" "[hello_frame 1, files_frame]" ?s] by blast
  ultimately obtain r1 where "sv_written st = [r1, ?r]"
    using served_alone [OF files_frame_request _ run] alone by auto
  with run show ?thesis by (intro exI [of _ n] exI [of _ st] exI [of _ r1] exI [of _ ?v]) auto
qed

end
