(* ===== verification/Stdout.thy ===== *)
theory Stdout
  imports Sequential
begin

text \<open>
  \<open>Run\<close>'s writer over a standard output that can fail.  In \<open>Server\<close> a response the writer has taken
  off the channel counts as written; here it is handed to \<open>json.Encoder\<close>, whose destination may refuse
  a write or take a part of it.  The encoder keeps its first error and writes nothing after it; the
  writer logs the error of each response and goes on to the next.
\<close>

section \<open>The encoder and the writer\<close>

text \<open>What the destination has been given and how many writes it has seen; and what it does with each:
  take it all, or the first bytes of it and fail.\<close>

record sink =
  sk_bytes :: string
  sk_writes :: nat

type_synonym faults = "nat \<Rightarrow> (nat \<times> string) option"

definition Write :: "faults \<Rightarrow> string \<Rightarrow> sink \<Rightarrow> string option \<times> sink" where
  "Write flt b sk =
     (let seen = Suc (sk_writes sk) in
      case flt (sk_writes sk) of
        None \<Rightarrow> (None, \<lparr>sk_bytes = sk_bytes sk @ b, sk_writes = seen\<rparr>)
      | Some (k, e) \<Rightarrow> (Some e, \<lparr>sk_bytes = sk_bytes sk @ take k b, sk_writes = seen\<rparr>))"

record encoder =
  en_w :: sink
  en_err :: "string option"

definition NewEncoder :: encoder where
  "NewEncoder = \<lparr>en_w = \<lparr>sk_bytes = [], sk_writes = 0\<rparr>, en_err = None\<rparr>"

definition Encode :: "faults \<Rightarrow> string \<Rightarrow> encoder \<Rightarrow> string option \<times> encoder" where
  "Encode flt b enc =
     (case en_err enc of
        Some e \<Rightarrow> (Some e, enc)
      | None \<Rightarrow> (case Write flt b (en_w enc) of (e, sk) \<Rightarrow> (e, \<lparr>en_w = sk, en_err = e\<rparr>)))"

definition encode_error :: "string \<Rightarrow> log_entry" where
  "encode_error e = \<lparr>lg_Level = LevelError, lg_Msg = ''encode response'', lg_Attrs = [(''err'', e)]\<rparr>"

text \<open>The body of the writer's loop: what it logs and the encoder it leaves.\<close>

definition write_msg :: "faults \<Rightarrow> result_val response \<Rightarrow> encoder \<Rightarrow> log_entry list \<times> encoder" where
  "write_msg flt msg enc =
     (case Encode flt (encode_response result_json msg) enc of
        (None, enc') \<Rightarrow> ([], enc')
      | (Some e, enc') \<Rightarrow> ([encode_error e], enc'))"

fun write_all :: "faults \<Rightarrow> result_val response list \<Rightarrow> encoder \<Rightarrow> log_entry list \<times> encoder" where
  "write_all flt [] enc = ([], enc)"
| "write_all flt (msg # msgs) enc =
     (case write_msg flt msg enc of
        (ls, enc') \<Rightarrow> (case write_all flt msgs enc' of (ls', enc'') \<Rightarrow> (ls @ ls', enc'')))"

lemma write_all_append:
  "write_all flt (xs @ ys) enc =
     (case write_all flt xs enc of (ls, enc') \<Rightarrow>
        (case write_all flt ys enc' of (ls', enc'') \<Rightarrow> (ls @ ls', enc'')))"
  by (induction xs arbitrary: enc) (simp_all split: prod.split)

text \<open>Once it has failed, the encoder writes nothing more, and each response is a line of the log.\<close>

lemma write_all_failed:
  "en_err enc = Some e \<Longrightarrow> write_all flt rs enc = (replicate (length rs) (encode_error e), enc)"
  by (induction rs) (simp_all add: write_msg_def Encode_def)

text \<open>Until then, it is one write to a response.\<close>

lemma write_all_sound:
  assumes "en_err enc = None" and "\<forall>i < length rs. flt (sk_writes (en_w enc) + i) = None"
  shows "write_all flt rs enc =
    ([], \<lparr>en_w = \<lparr>sk_bytes = sk_bytes (en_w enc) @ concat (map (encode_response result_json) rs),
                 sk_writes = sk_writes (en_w enc) + length rs\<rparr>, en_err = None\<rparr>)"
  using assms
proof (induction rs arbitrary: enc)
  case (Cons r rs)
  let ?enc = "\<lparr>en_w = \<lparr>sk_bytes = sk_bytes (en_w enc) @ encode_response result_json r,
                      sk_writes = Suc (sk_writes (en_w enc))\<rparr>, en_err = None\<rparr>"
  have "flt (sk_writes (en_w enc)) = None" using Cons.prems(2) by (metis add_0_right length_Cons zero_less_Suc)
  then have first: "write_msg flt r enc = ([], ?enc)"
    using Cons.prems(1) by (simp add: write_msg_def Encode_def Write_def)
  have "\<forall>i < length rs. flt (sk_writes (en_w ?enc) + i) = None"
    using Cons.prems(2) by fastforce
  with Cons.IH [of ?enc] first show ?case by simp
qed simp

lemma write_all_breaks:
  assumes "\<forall>j < i. flt j = None" and "flt i = Some (k, e)" and "i < length rs"
  shows "write_all flt rs NewEncoder =
    (replicate (length rs - i) (encode_error e),
     \<lparr>en_w = \<lparr>sk_bytes = concat (map (encode_response result_json) (take i rs)) @
                take k (encode_response result_json (rs ! i)),
             sk_writes = Suc i\<rparr>, en_err = Some e\<rparr>)"
proof -
  define enc where "enc = \<lparr>en_w = \<lparr>sk_bytes = concat (map (encode_response result_json) (take i rs)),
    sk_writes = i\<rparr>, en_err = None\<rparr>"
  have before: "write_all flt (take i rs) NewEncoder = ([], enc)"
    using write_all_sound [of NewEncoder "take i rs" flt] assms(1,3) by (simp add: NewEncoder_def enc_def)
  have fails: "write_msg flt (rs ! i) enc = ([encode_error e],
      \<lparr>en_w = \<lparr>sk_bytes = sk_bytes (en_w enc) @ take k (encode_response result_json (rs ! i)),
              sk_writes = Suc i\<rparr>, en_err = Some e\<rparr>)"
    using assms(2) by (simp add: write_msg_def Encode_def Write_def enc_def)
  have "length rs - i = Suc (length (drop (Suc i) rs))" using assms(3) by simp
  then have "write_all flt (take i rs @ rs ! i # drop (Suc i) rs) NewEncoder =
      (replicate (length rs - i) (encode_error e),
       \<lparr>en_w = \<lparr>sk_bytes = sk_bytes (en_w enc) @ take k (encode_response result_json (rs ! i)),
               sk_writes = Suc i\<rparr>, en_err = Some e\<rparr>)"
    by (simp add: write_all_append before fails write_all_failed)
  then show ?thesis
    using id_take_nth_drop [OF assms(3)] by (simp add: enc_def)
qed

section \<open>Run with its writer\<close>

text \<open>The server, the encoder of its writer, and all that has been logged, in order.\<close>

record 's process =
  pr_server :: "('s, result_val) server"
  pr_encoder :: encoder
  pr_log :: "log_entry list"

definition Run_process :: "frame_event list \<Rightarrow> 's \<Rightarrow> 's process" where
  "Run_process frames s = \<lparr>pr_server = Run_init frames s, pr_encoder = NewEncoder, pr_log = []\<rparr>"

inductive move :: "('s, result_val) runner \<Rightarrow> faults \<Rightarrow> 's process \<Rightarrow> 's process \<Rightarrow> bool" for rn flt where
  takes: "sv_outbound st = r # rs \<Longrightarrow> write_msg flt r enc = (ls, enc') \<Longrightarrow>
     move rn flt \<lparr>pr_server = st, pr_encoder = enc, pr_log = lg\<rparr>
       \<lparr>pr_server = st\<lparr>sv_outbound := rs, sv_written := sv_written st @ [r]\<rparr>, pr_encoder = enc', pr_log = lg @ ls\<rparr>"
| goes_on: "step rn st st' \<Longrightarrow> sv_written st' = sv_written st \<Longrightarrow> sv_log st' = sv_log st @ ls \<Longrightarrow>
     move rn flt \<lparr>pr_server = st, pr_encoder = enc, pr_log = lg\<rparr>
       \<lparr>pr_server = st', pr_encoder = enc, pr_log = lg @ ls\<rparr>"

inductive moves :: "('s, result_val) runner \<Rightarrow> faults \<Rightarrow> 's process \<Rightarrow> nat \<Rightarrow> 's process \<Rightarrow> bool" for rn flt where
  at_start: "moves rn flt p 0 p"
| move_on: "moves rn flt p n p' \<Longrightarrow> move rn flt p' p'' \<Longrightarrow> moves rn flt p (Suc n) p''"

text \<open>The fate of the output has no part in what the server does: its steps and those of \<open>Server\<close> are
  the same, one for one.\<close>

lemma step_kinds:
  assumes "step rn st st'"
  obtains (flushes) r rs where "sv_outbound st = r # rs"
      "st' = st\<lparr>sv_outbound := rs, sv_written := sv_written st @ [r]\<rparr>"
  | (others) ls where "sv_written st' = sv_written st" "sv_log st' = sv_log st @ ls"
  using assms by cases auto

lemma move_step: "move rn flt p p' \<Longrightarrow> step rn (pr_server p) (pr_server p')"
  by (induction rule: move.induct) (auto intro: step.flush)

lemma step_move:
  assumes "step rn (pr_server p) st'"
  shows "\<exists>p'. move rn flt p p' \<and> pr_server p' = st'"
proof (cases p)
  case p: (fields st enc lg)
  from assms have "step rn st st'" by (simp add: p)
  then show ?thesis
  proof (cases rule: step_kinds)
    case (flushes r rs)
    obtain ls enc' where "write_msg flt r enc = (ls, enc')" by (cases "write_msg flt r enc")
    then show ?thesis using move.takes [OF flushes(1)] flushes(2) by (force simp: p)
  next
    case (others ls)
    then show ?thesis using move.goes_on [OF \<open>step rn st st'\<close>] by (force simp: p)
  qed
qed

lemma moves_steps: "moves rn flt p n p' \<Longrightarrow> steps rn (pr_server p) n (pr_server p')"
  by (induction rule: moves.induct) (auto intro: steps.intros dest: move_step)

lemma steps_moves: "steps rn (pr_server p) n st \<Longrightarrow> \<exists>p'. moves rn flt p n p' \<and> pr_server p' = st"
proof (induction n arbitrary: st)
  case 0
  then show ?case by (auto intro: moves.at_start)
next
  case (Suc n)
  then obtain p' where "moves rn flt p n p'" "step rn (pr_server p') st" by (auto simp: steps_Suc)
  then show ?case using step_move [of rn p' st flt] by (blast intro: moves.move_on)
qed

lemma shuffles_snoc: "zs \<in> shuffles xs ys \<Longrightarrow> zs @ us \<in> shuffles (xs @ us) ys"
proof (induction xs ys arbitrary: zs rule: shuffles.induct)
  case (1 ys)
  then show ?case
  proof (induction ys arbitrary: zs)
    case (Cons y ys)
    then show ?case by (cases us) (auto intro: Cons_in_shuffles_rightI)
  qed simp
qed (auto intro: Cons_in_shuffles_leftI Cons_in_shuffles_rightI)

text \<open>All the writer has done so far, and that the log is that of the server with the writer's lines
  somewhere in between.\<close>

definition writer_kept :: "faults \<Rightarrow> 's process \<Rightarrow> bool" where
  "writer_kept flt p \<longleftrightarrow>
     (case write_all flt (sv_written (pr_server p)) NewEncoder of (ls, enc) \<Rightarrow>
        pr_encoder p = enc \<and> pr_log p \<in> shuffles (sv_log (pr_server p)) ls)"

lemma move_writer_kept: "move rn flt p p' \<Longrightarrow> writer_kept flt p \<Longrightarrow> writer_kept flt p'"
proof (induction rule: move.induct)
  case (takes st r rs enc ls enc' lg)
  obtain ls' enc0 where all: "write_all flt (sv_written st) NewEncoder = (ls', enc0)" by fastforce
  with takes have "enc0 = enc" "lg \<in> shuffles (sv_log st) ls'" by (simp_all add: writer_kept_def)
  moreover have "lg @ ls \<in> shuffles (sv_log st) (ls' @ ls)"
    using shuffles_snoc [of lg ls' "sv_log st" ls] calculation(2) by (simp add: shuffles_commutes)
  ultimately show ?case using takes(2) all by (simp add: writer_kept_def write_all_append)
next
  case (goes_on st st' ls enc lg)
  then show ?case by (auto simp: writer_kept_def intro: shuffles_snoc)
qed

lemma moves_writer_kept: "moves rn flt (Run_process frames s) n p \<Longrightarrow> writer_kept flt p"
proof (induction "Run_process frames s" n p rule: moves.induct)
  case at_start
  then show ?case by (simp add: writer_kept_def Run_process_def Run_init_def)
qed (rule move_writer_kept)

lemma moves_runs:
  "moves rn flt (Run_process frames s) n p \<Longrightarrow> steps rn (Run_init frames s) n (pr_server p)"
  using moves_steps by (fastforce simp: Run_process_def)

lemma moves_go_on: "(\<exists>p'. move rn flt p p') \<longleftrightarrow> (\<exists>st. step rn (pr_server p) st)"
  using move_step step_move by metis

definition sidecar_process :: "auth_env \<Rightarrow> 'w \<Rightarrow> reader \<Rightarrow> 'w client_st process" where
  "sidecar_process ae w input = Run_process (Run_frames input) (snd (startup ae w))"

text \<open>What is on standard output, and what the writer has logged, once all of \<open>rs\<close> have been handed to it.\<close>

definition delivered :: "faults \<Rightarrow> result_val response list \<Rightarrow> string \<Rightarrow> log_entry list \<Rightarrow> bool" where
  "delivered flt rs out ls \<longleftrightarrow>
     (\<forall>i < length rs. flt i = None) \<and> out = concat (map (encode_response result_json) rs) \<and> ls = [] \<or>
     (\<exists>i k e. i < length rs \<and> (\<forall>j < i. flt j = None) \<and> flt i = Some (k, e) \<and>
        out = concat (map (encode_response result_json) (take i rs)) @ take k (encode_response result_json (rs ! i)) \<and>
        ls = replicate (length rs - i) (encode_error e))"

lemma write_all_delivers:
  assumes "write_all flt rs NewEncoder = (ls, enc)"
  shows "delivered flt rs (sk_bytes (en_w enc)) ls"
proof (cases "\<forall>i < length rs. flt i = None")
  case True
  with assms show ?thesis
    using write_all_sound [of NewEncoder rs flt] by (simp add: NewEncoder_def delivered_def)
next
  case False
  let ?fails = "\<lambda>i. flt i \<noteq> None"
  from False obtain j where j: "j < length rs" "?fails j" by blast
  define i where "i = (LEAST i. ?fails i)"
  have "?fails i" unfolding i_def by (rule LeastI [of ?fails, OF j(2)])
  then obtain k e where fails: "flt i = Some (k, e)" by auto
  have before: "\<forall>j < i. flt j = None" using not_less_Least [of _ ?fails] unfolding i_def by blast
  have "i \<le> j" unfolding i_def by (rule Least_le [of ?fails, OF j(2)])
  with j have "i < length rs" by simp
  with write_all_breaks [OF before fails this] assms before fails show ?thesis
    by (auto simp: delivered_def)
qed

text \<open>C22: When standard output fails.  The program is started with any environment and input, and its
  standard output takes each write whole, or takes the first bytes of it and fails, as it likes.  Then
  the program still ends, after as many moves as before, and only when nothing is left to do; and it has
  made one response for every non-empty line.  If no write has failed, all their lines are on standard
  output.  If one has, those before it are, with the bytes it took of its own and nothing after them,
  so that no line is damaged but the last; and the log has one more error for each response lost.\<close>

theorem output_may_fail:
  assumes run: "moves (run (main_registry env ae w je)) flt (sidecar_process ae w input) n p"
  shows "n \<le> 207 * length (Run_frames input) + 3 \<and>
    (sv_pc (pr_server p) = Returned \<longleftrightarrow> \<not> (\<exists>p'. move (run (main_registry env ae w je)) flt p p')) \<and>
    (sv_pc (pr_server p) = Returned \<longrightarrow>
      (\<exists>rs ls. mset (map rs_ID rs) = mset (map answer_id (filter (\<lambda>l. l \<noteq> []) (split_on nl (rd_rest input)))) \<and>
         delivered flt rs (sk_bytes (en_w (pr_encoder p))) ls \<and>
         pr_log p \<in> shuffles (sv_log (pr_server p)) ls))"
proof (intro conjI impI)
  let ?rn = "run (main_registry env ae w je)" and ?st = "pr_server p"
  note steps = moves_runs [OF run [unfolded sidecar_process_def]]
  show "n \<le> 207 * length (Run_frames input) + 3"
    using sidecar_bound.steps_bound [OF steps] by (simp add: requestActions_def methodActions_def)
  have "srv_ok ?st" by (rule steps_invariant [OF steps]) (simp_all add: srv_ok_init step_srv_ok)
  then show "sv_pc ?st = Returned \<longleftrightarrow> \<not> (\<exists>p'. move ?rn flt p p')"
    using progress [of ?st ?rn] returned_final [of ?st ?rn] unfolding moves_go_on by blast
  assume returned: "sv_pc ?st = Returned"
  obtain ls where ls: "write_all flt (sv_written ?st) NewEncoder = (ls, pr_encoder p)" "pr_log p \<in> shuffles (sv_log ?st) ls"
    using moves_writer_kept [OF run [unfolded sidecar_process_def]] by (auto simp: writer_kept_def split: prod.splits)
  have "mset (map rs_ID (sv_written ?st)) = mset (map answer_id (filter (\<lambda>l. l \<noteq> []) (split_on nl (rd_rest input))))"
    using registry_runner.answered_once [OF steps returned]
    by (simp add: Run_frames_def read_events_segments frame_ids_segments del: mset_map)
  with write_all_delivers [OF ls(1)] ls(2) show "\<exists>rs ls.
      mset (map rs_ID rs) = mset (map answer_id (filter (\<lambda>l. l \<noteq> []) (split_on nl (rd_rest input)))) \<and>
      delivered flt rs (sk_bytes (en_w (pr_encoder p))) ls \<and> pr_log p \<in> shuffles (sv_log ?st) ls"
    by blast
qed

definition no_answers :: "http_response list" where "no_answers = []"

text \<open>Two lines of input, and an output that breaks after the first byte of the first response: two
  errors are logged.\<close>

theorem output_may_fail_witness:
  "\<exists>n p ls. moves (run (main_registry script_env test_auth no_answers (\<lambda>_ _. []))) (\<lambda>i. Some (1, ''EPIPE''))
       (sidecar_process test_auth no_answers two_lines) n p \<and> sv_pc (pr_server p) = Returned \<and>
     length (sk_bytes (en_w (pr_encoder p))) = 1 \<and>
     ls = replicate 2 (encode_error ''EPIPE'') \<and> pr_log p \<in> shuffles (sv_log (pr_server p)) ls"
proof -
  let ?rn = "run (main_registry script_env test_auth no_answers (\<lambda>_ _. []))" and ?flt = "\<lambda>i. Some (1, ''EPIPE'')"
  let ?p = "sidecar_process test_auth no_answers two_lines"
  obtain n st where run: "steps ?rn (pr_server ?p) n st" "sv_pc st = Returned"
    using sidecar_bound.run_completes [of script_env test_auth no_answers "\<lambda>_ _. []"]
    unfolding sidecar_process_def Run_process_def process.simps by blast
  obtain p where p: "moves ?rn ?flt ?p n p" "pr_server p = st" using steps_moves [OF run(1)] by blast
  with output_may_fail [OF p(1)] run(2) obtain rs ls
    where rs: "mset (map rs_ID rs) = {#0, 7#}"
      and "delivered ?flt rs (sk_bytes (en_w (pr_encoder p))) ls" "pr_log p \<in> shuffles (sv_log st) ls"
    by (auto simp: two_lines_ids simp del: mset_map)
  moreover have "length rs = 2" using arg_cong [OF rs, of size] by simp
  ultimately have "sk_bytes (en_w (pr_encoder p)) = take 1 (encode_response result_json (rs ! 0))"
      "ls = replicate 2 (encode_error ''EPIPE'')"
    by (auto simp: delivered_def dest: spec [of _ 0])
  moreover have "length (take 1 (encode_response result_json (rs ! 0))) = 1"
    by (simp add: encode_response_def)
  ultimately show ?thesis
    using p run(2) \<open>pr_log p \<in> shuffles (sv_log st) ls\<close> by metis
qed

end
