(* ===== verification/Secrecy.thy ===== *)
theory Secrecy
  imports Server_Laws
begin

text \<open>
  The token stays inside: a run of the server with one token and the same run with another write
  the same bytes, as long as GitHub itself answers both alike.  Two programs are twins when, action by
  action, they go from related states to related states and end in the same result; the relation of
  the client's states ignores nothing but the \<open>Authorization\<close> header of the calls made.
\<close>

section \<open>Two clients that differ in their token\<close>

definition masked :: "http_request \<Rightarrow> http_request" where
  "masked r = r\<lparr>hq_Header := filter (\<lambda>(k, v). k \<noteq> ''Authorization'') (hq_Header r)\<rparr>"

text \<open>GitHub answers alike whatever the \<open>Authorization\<close> header: both tokens may do the same.\<close>

definition blind :: "'w env \<Rightarrow> bool" where
  "blind env \<longleftrightarrow> (\<forall>r1 r2 w. masked r1 = masked r2 \<longrightarrow> http_do env r1 w = http_do env r2 w)"

definition twins :: "client_cfg \<Rightarrow> client_cfg \<Rightarrow> bool" where
  "twins cfg1 cfg2 \<longleftrightarrow> (\<exists>t. cfg2 = cfg1\<lparr>cf_token := t\<rparr>)"

definition same_but_token :: "'w client_st \<Rightarrow> 'w client_st \<Rightarrow> bool" where
  "same_but_token s1 s2 \<longleftrightarrow>
     cs_viewer s1 = cs_viewer s2 \<and> cs_cache s1 = cs_cache s2 \<and> cs_net s1 = cs_net s2 \<and>
     map masked (cs_calls s1) = map masked (cs_calls s2) \<and> cs_log s1 = cs_log s2"

lemma twins_simps:
  assumes "twins cfg1 cfg2"
  shows "cf_restURL cfg2 = cf_restURL cfg1" "cf_gqlURL cfg2 = cf_gqlURL cfg1"
    "cf_tokenErr cfg2 = cf_tokenErr cfg1"
  using assms by (auto simp: twins_def)

lemma masked_token:
  "masked \<lparr>hq_Method = m, hq_URL = u, hq_Header = (''Authorization'', x) # hs, hq_Body = b\<rparr> =
   masked \<lparr>hq_Method = m, hq_URL = u, hq_Header = (''Authorization'', y) # hs, hq_Body = b\<rparr>"
  by (simp add: masked_def)

lemma masked_headers:
  assumes "twins cfg1 cfg2"
  shows
    "masked \<lparr>hq_Method = m, hq_URL = u, hq_Header = RESTHeaders cfg1, hq_Body = b\<rparr> =
     masked \<lparr>hq_Method = m, hq_URL = u, hq_Header = RESTHeaders cfg2, hq_Body = b\<rparr>"
    "masked \<lparr>hq_Method = m, hq_URL = u, hq_Header = GQLHeaders cfg1, hq_Body = b\<rparr> =
     masked \<lparr>hq_Method = m, hq_URL = u, hq_Header = GQLHeaders cfg2, hq_Body = b\<rparr>"
    "masked (raw_request cfg1 br) = masked (raw_request cfg2 br)"
proof -
  obtain t where t: "cfg2 = cfg1\<lparr>cf_token := t\<rparr>" using assms unfolding twins_def by blast
  have url: "ref_url cfg2 br = ref_url cfg1 br" by (simp add: t ref_url_def contents_url_def)
  note unfolds = RESTHeaders_def GQLHeaders_def raw_request_def RawHeaders_def url
  show "masked \<lparr>hq_Method = m, hq_URL = u, hq_Header = RESTHeaders cfg1, hq_Body = b\<rparr> =
     masked \<lparr>hq_Method = m, hq_URL = u, hq_Header = RESTHeaders cfg2, hq_Body = b\<rparr>"
    "masked \<lparr>hq_Method = m, hq_URL = u, hq_Header = GQLHeaders cfg1, hq_Body = b\<rparr> =
     masked \<lparr>hq_Method = m, hq_URL = u, hq_Header = GQLHeaders cfg2, hq_Body = b\<rparr>"
    "masked (raw_request cfg1 br) = masked (raw_request cfg2 br)"
    unfolding unfolds by (rule masked_token)+
qed

lemma masked_line: "masked r1 = masked r2 \<Longrightarrow> call_entry env r1 x = call_entry env r2 x"
  by (cases r1; cases r2) (simp add: masked_def call_entry_def split: sum.split)

lemma send_same:
  assumes "blind env" and "masked r1 = masked r2" and "same_but_token s1 s2"
  shows "fst (send env r1 s1) = fst (send env r2 s2) \<and>
    same_but_token (snd (send env r1 s1)) (snd (send env r2 s2))"
proof -
  have "http_do env r1 (cs_net s1) = http_do env r2 (cs_net s2)"
    using assms unfolding blind_def same_but_token_def by metis
  then show ?thesis
    using assms(2,3) masked_line [OF assms(2)]
    by (auto simp: send_def Let_def same_but_token_def split: prod.split sum.split option.split)
qed

lemma call_same:
  assumes "blind env" and "masked r1 = masked r2"
  shows "twin same_but_token (call_go env r1) (call_go env r2)"
  unfolding call_go_def
proof (rule twin_atomP)
  fix s1 s2 :: "'a client_st"
  assume "same_but_token s1 s2"
  note same = send_same [OF assms this]
  obtain x t1 t2 where "send env r1 s1 = (x, t1)" "send env r2 s2 = (x, t2)" "same_but_token t1 t2"
    using same by (metis prod.collapse)
  then show "fst (call env r1 s1) = fst (call env r2 s2) \<and>
      same_but_token (snd (call env r1 s1)) (snd (call env r2 s2))"
    by (cases x) (simp_all add: call_def)
qed

text \<open>A request of each client's headers, and what is done with the answer.\<close>

lemma twin_request:
  assumes "blind env" and "masked \<lparr>hq_Method = m, hq_URL = u, hq_Header = h1, hq_Body = b\<rparr> =
      masked \<lparr>hq_Method = m, hq_URL = u, hq_Header = h2, hq_Body = b\<rparr>"
    and "\<And>a. twin same_but_token (f1 a) (f2 a)"
  shows "twin same_but_token
    (bindP (NewRequest_go env m u h1 b) (\<lambda>req. bindP (call_go env req) f1))
    (bindP (NewRequest_go env m u h2 b) (\<lambda>req. bindP (call_go env req) f2))"
proof (cases "url_err env u")
  case None
  then show ?thesis
    using twin_bindP [OF call_same [OF assms(1,2)], of f1 f2] assms(3) by (simp add: NewRequest_go_def)
next
  case (Some e)
  then show ?thesis by (simp add: NewRequest_go_def twin_ends)
qed

lemma twin_with_token:
  "twins cfg1 cfg2 \<Longrightarrow> twin R m1 m2 \<Longrightarrow> twin R (with_token_go cfg1 m1) (with_token_go cfg2 m2)"
  by (auto simp: with_token_go_def twin_ends twins_simps(3) [of cfg1 cfg2] split: option.split)

lemma twin_or_decode_err [twin_intro]: "twin R (or_decode_err_go env ty w b r) (or_decode_err_go env ty w b r)"
  by (auto simp: or_decode_err_go_def twin_ends twin_ends split: option.split)

lemma twin_getJSON [twin_intro]:
  "blind env \<Longrightarrow> twins cfg1 cfg2 \<Longrightarrow>
    twin same_but_token (getJSON_go env cfg1 ty url d z) (getJSON_go env cfg2 ty url d z)"
  unfolding getJSON_go_def
  by (intro twin_with_token twin_request masked_headers twin_prod twin_or_decode_err) simp_all

lemma twin_getPaged_from:
  "blind env \<Longrightarrow> twins cfg1 cfg2 \<Longrightarrow>
    twin same_but_token (getPaged_from_go n env cfg1 ty d z url xs) (getPaged_from_go n env cfg2 ty d z url xs)"
proof (induction n arbitrary: url xs)
  case (Suc n)
  then show ?case
    unfolding getPaged_from_go.simps
    by (intro twin_if twin_ends twin_request masked_headers twin_prod twin_bindP twin_or_decode_err) simp_all
qed (simp add: twin_ends)

lemma twin_getPaged [twin_intro]:
  "blind env \<Longrightarrow> twins cfg1 cfg2 \<Longrightarrow>
    twin same_but_token (getPaged_go env cfg1 ty d z url) (getPaged_go env cfg2 ty d z url)"
  unfolding getPaged_go_def by (intro twin_with_token twin_getPaged_from)

lemma twin_graphql_data:
  assumes "blind env" and "twins cfg1 cfg2"
  shows "twin same_but_token (graphql_data_go env cfg1 q vs) (graphql_data_go env cfg2 q vs)"
  unfolding graphql_data_go_def twins_simps(2) [OF assms(2)]
  by (intro twin_with_token assms twin_request masked_headers twin_prod twin_bindP twin_or_decode_err twin_option
      twin_ends twin_ends)

lemma twin_graphql [twin_intro]:
  "blind env \<Longrightarrow> twins cfg1 cfg2 \<Longrightarrow>
    twin same_but_token (graphql_go env cfg1 ty q vs d z) (graphql_go env cfg2 ty q vs d z)"
  unfolding graphql_go_def by (intro twin_bindP twin_graphql_data twin_prod twin_or_decode_err twin_option twin_ends)

lemma twin_graphql_nil [twin_intro]:
  "blind env \<Longrightarrow> twins cfg1 cfg2 \<Longrightarrow>
    twin same_but_token (graphql_nil_go env cfg1 q vs) (graphql_nil_go env cfg2 q vs)"
  unfolding graphql_nil_go_def by (intro twin_bindP twin_graphql_data twin_prod twin_ends)

lemma twin_cursor_walk [twin_intro]:
  "(\<And>c. twin R (fetch1 c) (fetch2 c)) \<Longrightarrow>
    twin R (cursor_walk_go n fetch1 info collect c acc) (cursor_walk_go n fetch2 info collect c acc)"
  by (induction n arbitrary: c acc)
    (auto simp: twin_ends intro!: twin_bindP twin_Let twin_prod twin_if)

subsection \<open>The two fetches of a file\<close>

lemma task_step_same:
  assumes "blind env" and tw: "twins cfg1 cfg2" and st: "same_but_token s1 s2"
  shows "fst (task_step env cfg1 b t s1) = fst (task_step env cfg2 b t s2) \<and>
    same_but_token (snd (task_step env cfg1 b t s1)) (snd (task_step env cfg2 b t s2))"
proof (cases t)
  case Lookup
  then show ?thesis
    using st twins_simps(3) [OF tw]
    by (auto simp: task_step_def same_but_token_def split: option.split prod.split)
next
  case Fetch
  obtain x t1 t2 where "send env (raw_request cfg1 b) s1 = (x, t1)"
    "send env (raw_request cfg2 b) s2 = (x, t2)" "same_but_token t1 t2"
    using send_same [OF assms(1) masked_headers(3) [OF tw] st] by (metis prod.collapse)
  moreover have "ref_url cfg2 b = ref_url cfg1 b"
    using tw by (auto simp: twins_def ref_url_def contents_url_def)
  ultimately show ?thesis
    using Fetch st by (auto simp: task_step_def split: option.split sum.split)
qed (use st in \<open>auto simp: task_step_def same_but_token_def\<close>)

lemma twin_run_tasks:
  assumes "blind env" and "twins cfg1 cfg2"
  shows "twin same_but_token (run_tasks_go n sched env cfg1 b h tb th) (run_tasks_go n sched env cfg2 b h tb th)"
proof (induction n arbitrary: sched tb th)
  case (Suc n)
  have "twin same_but_token
      (Act (\<lambda>s. snd (task_step env cfg1 x t s)) (\<lambda>s. f (fst (task_step env cfg1 x t s))))
      (Act (\<lambda>s. snd (task_step env cfg2 x t s)) (\<lambda>s. g (fst (task_step env cfg2 x t s))))"
    if "\<And>t'. twin same_but_token (f t') (g t')" for x t and f g :: "task \<Rightarrow> ('a client_st, task \<times> task) prog"
    using task_step_same [OF assms, of _ _ x t] that by (intro twin_Act) simp
  note one = this
  show ?case
    unfolding run_tasks_go.simps by (intro twin_Let twin_if one Suc.IH twin_Ret)
qed simp

lemma twin_both_blobs [twin_intro]:
  "blind env \<Longrightarrow> twins cfg1 cfg2 \<Longrightarrow>
    twin same_but_token (both_blobs_go sched env cfg1 b h) (both_blobs_go sched env cfg2 b h)"
  unfolding both_blobs_go_def by (intro twin_mapP twin_run_tasks)

lemma twin_swallow [twin_intro]: "twin R m1 m2 \<Longrightarrow> twin R (swallow_go m1) (swallow_go m2)"
  unfolding swallow_go_def by (rule twin_mapP)

subsection \<open>Every operation\<close>

lemma twin_viewerLogin [twin_intro]:
  assumes "blind env" and tw: "twins cfg1 cfg2"
  shows "twin same_but_token (viewerLogin_go env cfg1) (viewerLogin_go env cfg2)"
  unfolding viewerLogin_go_def twins_simps(1) [OF tw]
proof (rule twin_readP)
  fix s1 s2 :: "'a client_st"
  assume "same_but_token s1 s2"
  then have v: "cs_viewer s2 = cs_viewer s1" by (simp add: same_but_token_def)
  show "twin same_but_token
      (if cs_viewer s1 \<noteq> [] then retP (cs_viewer s1)
       else bindP (getJSON_go env cfg1 ''userDTO'' (cf_restURL cfg1 @ ''/user'') userDTO_dec zero_user) (\<lambda>u.
         if us_Login u = [] then failP (newError CodeAuth ''could not resolve the authenticated user'')
         else atomP (\<lambda>s. (Inr (us_Login u), s\<lparr>cs_viewer := us_Login u\<rparr>))))
      (if cs_viewer s2 \<noteq> [] then retP (cs_viewer s2)
       else bindP (getJSON_go env cfg2 ''userDTO'' (cf_restURL cfg1 @ ''/user'') userDTO_dec zero_user) (\<lambda>u.
         if us_Login u = [] then failP (newError CodeAuth ''could not resolve the authenticated user'')
         else atomP (\<lambda>s. (Inr (us_Login u), s\<lparr>cs_viewer := us_Login u\<rparr>))))"
    unfolding v by (intro twin_bindP twin_getJSON assms twin_if twin_ends twin_atomP)
      (simp add: same_but_token_def)
qed

lemma twin_GetFileVersions:
  assumes "blind env" and "twins cfg1 cfg2"
  shows "twin same_but_token (GetFileVersions_go env cfg1 owner repo n p bp b h)
    (GetFileVersions_go env cfg2 owner repo n p bp b h)"
proof -
  have refs: "twin same_but_token (prRefs_go env cfg1 owner repo n) (prRefs_go env cfg2 owner repo n)"
    unfolding prRefs_go_def pull_url_def twins_simps(1) [OF assms(2)]
    by (intro twin_bindP twin_getJSON twin_ends assms)
  have "twin same_but_token (readP (\<lambda>s. both_blobs_go (go_sched env (cs_net s)) env cfg1 x y))
      (readP (\<lambda>s. both_blobs_go (go_sched env (cs_net s)) env cfg2 x y))" for x y
    using twin_both_blobs [OF assms] by (intro twin_readP) (simp add: same_but_token_def)
  then show ?thesis
    unfolding GetFileVersions_go_def by (intro twin_Let twin_bindP twin_if twin_prod twin_ends refs)
qed

lemma twin_client_ops:
  assumes bl: "blind env" and tw: "twins cfg1 cfg2"
  shows
    "twin same_but_token (ListPRs_go env cfg1 owner repo flt) (ListPRs_go env cfg2 owner repo flt)"
    "twin same_but_token (GetPR_go env cfg1 owner repo n) (GetPR_go env cfg2 owner repo n)"
    "twin same_but_token (HeadSHA_go env cfg1 owner repo n) (HeadSHA_go env cfg2 owner repo n)"
    "twin same_but_token (GetThreads_go env cfg1 owner repo n) (GetThreads_go env cfg2 owner repo n)"
    "twin same_but_token (GetTimeline_go env cfg1 owner repo n) (GetTimeline_go env cfg2 owner repo n)"
    "twin same_but_token (GetPendingReview_go env cfg1 owner repo n) (GetPendingReview_go env cfg2 owner repo n)"
    "twin same_but_token (GetChecks_go env cfg1 owner repo n) (GetChecks_go env cfg2 owner repo n)"
    "twin same_but_token (StartReview_go env cfg1 owner repo n) (StartReview_go env cfg2 owner repo n)"
    "twin same_but_token (SubmitReview_go env cfg1 i ev b) (SubmitReview_go env cfg2 i ev b)"
    "twin same_but_token (DiscardReview_go env cfg1 i) (DiscardReview_go env cfg2 i)"
    "twin same_but_token (PostComment_go env cfg1 owner repo n inp) (PostComment_go env cfg2 owner repo n inp)"
    "twin same_but_token (PostIssueComment_go env cfg1 owner repo n b) (PostIssueComment_go env cfg2 owner repo n b)"
    "twin same_but_token (DeleteComment_go env cfg1 i) (DeleteComment_go env cfg2 i)"
    "twin same_but_token (ResolveThread_go env cfg1 i v) (ResolveThread_go env cfg2 i v)"
    "twin same_but_token (SetFileViewed_go env cfg1 owner repo n p v) (SetFileViewed_go env cfg2 owner repo n p v)"
    "twin same_but_token (MergePR_go env cfg1 owner repo n m v sj b) (MergePR_go env cfg2 owner repo n m v sj b)"
    "twin same_but_token (SetPRState_go env cfg1 owner repo n b) (SetPRState_go env cfg2 owner repo n b)"
  unfolding client_go_defs pulls_url_def pull_url_def twins_simps(1) [OF tw]
  by (intro twin_intro bl tw)+

section \<open>Two surfaces that cannot be told apart\<close>

lemma twin_lift_err: "twin R m1 m2 \<Longrightarrow> twin R (lift_err m1) (lift_err m2)"
  unfolding lift_err_def by (rule twin_mapP)

lemma twin_check: "decided m \<Longrightarrow> twin R m m"
  by (auto simp: decided_def bad_def twin_ends)

lemma twin_returning: "twin R m1 m2 \<Longrightarrow> twin R (returning r m1) (returning r m2)"
  unfolding returning_def by (intro twin_bindP twin_ends)

locale twin_surfaces =
  fixes api1 api2 :: "'s api"
    and R :: "'s \<Rightarrow> 's \<Rightarrow> bool"
  assumes ops:
      "twin R (ap_ListPRs api1 o1 r1 f) (ap_ListPRs api2 o1 r1 f)"
      "twin R (ap_GetPR api1 o1 r1 n) (ap_GetPR api2 o1 r1 n)"
      "twin R (ap_GetFileVersions api1 o1 r1 n p bp b h) (ap_GetFileVersions api2 o1 r1 n p bp b h)"
      "twin R (ap_HeadSHA api1 o1 r1 n) (ap_HeadSHA api2 o1 r1 n)"
      "twin R (ap_GetThreads api1 o1 r1 n) (ap_GetThreads api2 o1 r1 n)"
      "twin R (ap_GetTimeline api1 o1 r1 n) (ap_GetTimeline api2 o1 r1 n)"
      "twin R (ap_GetPendingReview api1 o1 r1 n) (ap_GetPendingReview api2 o1 r1 n)"
      "twin R (ap_GetChecks api1 o1 r1 n) (ap_GetChecks api2 o1 r1 n)"
      "twin R (ap_StartReview api1 o1 r1 n) (ap_StartReview api2 o1 r1 n)"
      "twin R (ap_SubmitReview api1 i ev b) (ap_SubmitReview api2 i ev b)"
      "twin R (ap_DiscardReview api1 i) (ap_DiscardReview api2 i)"
      "twin R (ap_PostComment api1 o1 r1 n inp) (ap_PostComment api2 o1 r1 n inp)"
      "twin R (ap_PostIssueComment api1 o1 r1 n b) (ap_PostIssueComment api2 o1 r1 n b)"
      "twin R (ap_DeleteComment api1 i) (ap_DeleteComment api2 i)"
      "twin R (ap_ResolveThread api1 i v) (ap_ResolveThread api2 i v)"
      "twin R (ap_SetFileViewed api1 o1 r1 n p v) (ap_SetFileViewed api2 o1 r1 n p v)"
      "twin R (ap_MergePR api1 o1 r1 n m v sj b) (ap_MergePR api2 o1 r1 n m v sj b)"
      "twin R (ap_SetPRState api1 o1 r1 n b) (ap_SetPRState api2 o1 r1 n b)"
    and status: "ap_TokenStatus api1 = ap_TokenStatus api2"
    and clear: "rel_option (\<lambda>c1 c2. \<forall>s1 s2. R s1 s2 \<longrightarrow> R (c1 s1) (c2 s2)) (ap_ClearCache api1) (ap_ClearCache api2)"
begin

abbreviation d1 :: "(string list \<Rightarrow> json \<Rightarrow> string) \<Rightarrow> 's deps" where
  "d1 je \<equiv> \<lparr>dp_GH = Some api1, dp_json_err = je\<rparr>"

abbreviation d2 :: "(string list \<Rightarrow> json \<Rightarrow> string) \<Rightarrow> 's deps" where
  "d2 je \<equiv> \<lparr>dp_GH = Some api2, dp_json_err = je\<rparr>"

lemma twin_with_gh: "twin R (f api1) (f api2) \<Longrightarrow> twin R (with_gh (d1 je) f) (with_gh (d2 je) f)"
  by (simp add: with_gh_def twin_lift_err)

lemma twin_decode: "twin R (decode (d1 je) params fs zero) (decode (d2 je) params fs zero)"
  unfolding decode_def deps.simps by (intro twin_option twin_ends twin_check decided_ends)

lemma twin_guardHead: "twin R (guardHead (d1 je) owner repo n e) (guardHead (d2 je) owner repo n e)"
  unfolding guardHead_def by (intro twin_if twin_bindP twin_ends twin_with_gh ops)

lemma twin_with_pr:
  "(\<And>p. twin R (f1 p) (f2 p)) \<Longrightarrow>
    twin R (with_pr (d1 je) params fs zero f1) (with_pr (d2 je) params fs zero f2)"
  unfolding with_pr_def by (intro twin_bindP twin_decode twin_check decided_requirePR)

lemma twin_hello: "twin R (hello (d1 je) params) (hello (d2 je) params)"
  unfolding hello_def
  by (intro twin_bindP twin_decode twin_if twin_check decided_ends) (simp add: twin_ends status)

lemma twin_cacheClear: "twin R (cacheClear (d1 je) params) (cacheClear (d2 je) params)"
  using clear by (cases rule: option.rel_cases) (simp_all add: cacheClear_def retP_def)

lemma twin_registry:
  "list_all2 (\<lambda>(n1, h1) (n2, h2). n1 = n2 \<and> (\<forall>params. twin R (h1 params) (h2 params)))
    (NewRegistry (d1 je)) (NewRegistry (d2 je))"
  unfolding NewRegistry_def list_all2_Cons list_all2_Nil prod.case handler_defs
  by (intro conjI allI refl TrueI twin_decode twin_hello twin_cacheClear twin_with_pr twin_returning
      twin_with_gh twin_guardHead ops twin_bindP twin_if twin_option twin_ends
      twin_check [OF decided_ends(2)] twin_check [OF decided_checks(2)] twin_check [OF decided_checks(3)]
      twin_check [OF decided_checks(4)])

end

section \<open>The same output\<close>

lemma map_of_list_all2:
  assumes "list_all2 (\<lambda>(n1, h1) (n2, h2). n1 = n2 \<and> P h1 h2) r1 r2"
  shows "rel_option P (map_of r1 m) (map_of r2 m)"
  using assms by (induction rule: list_all2_induct) auto

lemma twin_run:
  assumes "list_all2 (\<lambda>(n1, h1) (n2, h2). n1 = n2 \<and> (\<forall>params. twin R (h1 params) (h2 params))) reg1 reg2"
  shows "twin R (run reg1 req) (run reg2 req)"
  using map_of_list_all2 [OF assms, of "rq_Method req"]
  by (cases rule: option.rel_cases) (simp_all add: run_def twin_mapP)

text \<open>Two servers whose goroutines are twins and which have everything but the shared state alike.\<close>

definition twin_jobs :: "('s \<Rightarrow> 's \<Rightarrow> bool) \<Rightarrow> ('s, 'r) job \<Rightarrow> ('s, 'r) job \<Rightarrow> bool" where
  "twin_jobs R j1 j2 \<longleftrightarrow> fst j2 = fst j1 \<and> twin R (snd j1) (snd j2)"

fun twin_pc :: "('s \<Rightarrow> 's \<Rightarrow> bool) \<Rightarrow> ('s, 'r) reader_pc \<Rightarrow> ('s, 'r) reader_pc \<Rightarrow> bool" where
  "twin_pc R (Handling j) q \<longleftrightarrow> (\<exists>j'. q = Handling j' \<and> twin_jobs R j j')"
| "twin_pc R p q \<longleftrightarrow> q = p"

definition twin_servers :: "('s \<Rightarrow> 's \<Rightarrow> bool) \<Rightarrow> ('s, 'r) server \<Rightarrow> ('s, 'r) server \<Rightarrow> bool" where
  "twin_servers R a b \<longleftrightarrow>
     sv_frames b = sv_frames a \<and> twin_pc R (sv_pc a) (sv_pc b) \<and> sv_helloOK b = sv_helloOK a \<and>
     list_all2 (twin_jobs R) (sv_running a) (sv_running b) \<and> sv_blocked b = sv_blocked a \<and>
     sv_outbound b = sv_outbound a \<and> sv_written b = sv_written a \<and> sv_log b = sv_log a \<and>
     R (sv_gh a) (sv_gh b)"

lemma advance_twin:
  "advance p s = Some (p', t, es) \<Longrightarrow> twin R p q \<Longrightarrow> R s s2 \<Longrightarrow>
    \<exists>q' t2. advance q s2 = Some (q', t2, es) \<and> twin R p' q' \<and> R t t2"
  by (cases "(p, s)" rule: advance.cases) auto

lemma twin_running:
  assumes "twin_servers R a b" and "sv_running a = xs @ (req, p) # ys"
  obtains xs2 q ys2 where "sv_running b = xs2 @ (req, q) # ys2" "twin R p q"
    "list_all2 (twin_jobs R) xs xs2" "list_all2 (twin_jobs R) ys ys2"
  using assms by (auto simp: twin_servers_def twin_jobs_def list_all2_append1 list_all2_Cons1)

lemma twin_gh: "twin_servers R a b \<Longrightarrow> R (sv_gh a) (sv_gh b)"
  by (simp add: twin_servers_def)

locale twin_runners =
  fixes rn1 rn2 :: "('s, 'r) runner" and R :: "'s \<Rightarrow> 's \<Rightarrow> bool"
  assumes runs: "twin R (rn1 req) (rn2 req)"
begin

lemma step_twin:
  assumes "step rn1 a a'" and twin: "twin_servers R a b"
  shows "\<exists>b'. step rn2 b b' \<and> twin_servers R a' b'"
  using assms(1)
proof (cases rule: step.cases)
  case (greet f fs req)
  then show ?thesis
    using twin step.greet [of b f fs req rn2] runs [of req] by (fastforce simp: twin_servers_def twin_jobs_def)
next
  case (spawn f fs req)
  then show ?thesis
    using twin step.spawn [of b f fs req rn2] runs [of req]
    by (fastforce simp: twin_servers_def twin_jobs_def list_all2_appendI)
next
  case (greeting req p p' s es)
  then obtain q where q: "sv_pc b = Handling (req, q)" "twin R p q"
    using twin by (auto simp: twin_servers_def twin_jobs_def)
  obtain q' t where "advance q (sv_gh b) = Some (q', t, es)" "twin R p' q'" "R s t"
    using advance_twin [OF greeting(3) q(2) twin_gh [OF twin]] by blast
  then show ?thesis
    using twin greeting q step.greeting [of b req q q' t es rn2]
    by (fastforce simp: twin_servers_def twin_jobs_def)
next
  case (work xs req p ys p' s es)
  obtain xs2 q ys2 where q: "sv_running b = xs2 @ (req, q) # ys2" "twin R p q"
    and xs: "list_all2 (twin_jobs R) xs xs2" "list_all2 (twin_jobs R) ys ys2"
    by (rule twin_running [OF twin work(2)])
  obtain q' t where "advance q (sv_gh b) = Some (q', t, es)" "twin R p' q'" "R s t"
    using advance_twin [OF work(3) q(2) twin_gh [OF twin]] by blast
  then show ?thesis
    using twin work q xs step.work [of b xs2 req q ys2 q' t es rn2]
    by (fastforce simp: twin_servers_def twin_jobs_def list_all2_appendI)
next
  case (finish xs req r ys)
  obtain xs2 q ys2 where "sv_running b = xs2 @ (req, q) # ys2" "twin R (Ret (r, [])) q"
    and xs: "list_all2 (twin_jobs R) xs xs2" "list_all2 (twin_jobs R) ys ys2"
    by (rule twin_running [OF twin finish(2)])
  then show ?thesis
    using twin finish step.finish [of b xs2 req r ys2 rn2]
    by (fastforce simp: twin_servers_def list_all2_appendI)
next
  case (answer f fs r)
  then show ?thesis using twin step.answer [of b f fs r rn2] by (fastforce simp: twin_servers_def)
next
  case (greeted req r)
  then show ?thesis using twin step.greeted [of b req r rn2] by (fastforce simp: twin_servers_def twin_jobs_def)
next
  case (send r)
  then show ?thesis using twin step.send [of b r rn2] by (fastforce simp: twin_servers_def)
next
  case (report xs r ys)
  then show ?thesis using twin step.report [of b xs r ys rn2] by (fastforce simp: twin_servers_def)
next
  case (flush r rs)
  then show ?thesis using twin step.flush [of b r rs rn2] by (fastforce simp: twin_servers_def)
next
  case ended
  then show ?thesis using twin step.ended [of b rn2] by (fastforce simp: twin_servers_def)
next
  case close
  then show ?thesis using twin step.close [of b rn2] by (fastforce simp: twin_servers_def)
next
  case return
  then show ?thesis using twin step.return [of b rn2] by (fastforce simp: twin_servers_def)
qed

lemma steps_twin:
  "steps rn1 a n a' \<Longrightarrow> twin_servers R a b \<Longrightarrow> \<exists>b'. steps rn2 b n b' \<and> twin_servers R a' b'"
proof (induction rule: steps.induct)
  case (start st)
  then show ?case by (blast intro: steps.start)
next
  case (more_steps st n st' st'')
  then show ?case by (meson step_twin steps.more_steps)
qed

end

text \<open>Any two surfaces that cannot be told apart give two such runners.\<close>

lemma surfaces_runners:
  assumes "twin_surfaces api1 api2 R"
  shows "twin_runners (run (NewRegistry \<lparr>dp_GH = Some api1, dp_json_err = je\<rparr>))
    (run (NewRegistry \<lparr>dp_GH = Some api2, dp_json_err = je\<rparr>)) R"
  by unfold_locales (rule twin_run [OF twin_surfaces.twin_registry [OF assms]])

section \<open>The client's two tokens\<close>

text \<open>A resolved token: what the two environments must have in common.\<close>

definition resolved :: "auth_env \<Rightarrow> bool" where
  "resolved ae \<longleftrightarrow> (case ResolveToken ae of Inl e \<Rightarrow> False | Inr t \<Rightarrow> True)"

lemma startup_twins:
  assumes "resolved ae1" and "resolved ae2"
  shows "twins (fst (startup ae1 w)) (fst (startup ae2 w))"
  using assms by (auto simp: twins_def startup_cfg resolved_def split: sum.splits)

text \<open>The environment that never looks at the token: \<open>env\<close> itself, where that is blind.\<close>

definition deaf :: "'w env \<Rightarrow> 'w env" where
  "deaf env = env\<lparr>http_do := (\<lambda>r. http_do env (masked r))\<rparr>"

lemma masked_masked [simp]: "masked (masked r) = masked r"
  by (simp add: masked_def)

lemma deaf_blind: "blind (deaf env)"
  by (simp add: blind_def deaf_def)

lemma blind_deaf:
  assumes "blind env"
  shows "deaf env = env"
proof -
  have "http_do env (masked r) = http_do env r" for r
    using assms unfolding blind_def by (metis masked_masked ext)
  then show ?thesis by (simp add: deaf_def)
qed

lemma twins_token: "twins cfg (cfg\<lparr>cf_token := t\<rparr>)"
  by (auto simp: twins_def)

interpretation twin_clients: twin_surfaces "client_api (deaf env) cfg" "client_api (deaf env) (cfg\<lparr>cf_token := t\<rparr>)"
    same_but_token
  for env :: "'w env" and cfg and t
  by unfold_locales
    (simp_all add: client_api_def twin_client_ops [OF deaf_blind twins_token]
      twin_GetFileVersions [OF deaf_blind twins_token] TokenStatus_def, simp add: same_but_token_def ClearCache_def)

interpretation twin_runs: twin_runners
    "run (NewRegistry \<lparr>dp_GH = Some (client_api (deaf env) cfg), dp_json_err = je\<rparr>)"
    "run (NewRegistry \<lparr>dp_GH = Some (client_api (deaf env) (cfg\<lparr>cf_token := t\<rparr>)), dp_json_err = je\<rparr>)"
    same_but_token
  for env :: "'w env" and cfg and t and je
  by (rule surfaces_runners [OF twin_clients.twin_surfaces_axioms])

text \<open>C6: The token never surfaces.  As long as GitHub answers two tokens alike, what the client sees
  does not depend on which of them the program holds: whatever the input and the interleaving, a
  run with one is matched step for step by a run with the other that has written the same bytes,
  that has logged the same lines, and that has sent GitHub the same calls, their \<open>Authorization\<close>
  header apart.\<close>

theorem token_never_surfaces:
  assumes "blind env" and "resolved ae1" and "resolved ae2"
    and "steps (run (main_registry env ae1 w je))
      (Run_init frames (snd (startup ae1 w))) n st1"
  shows "\<exists>st2. steps (run (main_registry env ae2 w je))
      (Run_init frames (snd (startup ae2 w))) n st2 \<and> stdout st2 = stdout st1 \<and>
      map masked (cs_calls (sv_gh st2)) = map masked (cs_calls (sv_gh st1)) \<and>
      cs_log (sv_gh st2) = cs_log (sv_gh st1) \<and> sv_log st2 = sv_log st1"
proof -
  obtain t where t: "fst (startup ae2 w) = (fst (startup ae1 w))\<lparr>cf_token := t\<rparr>"
    using startup_twins [OF assms(2,3)] unfolding twins_def by metis
  have "twin_servers same_but_token (Run_init frames (snd (startup ae1 w)))
      (Run_init frames (snd (startup ae2 w)))"
    by (simp add: twin_servers_def Run_init_def same_but_token_def startup_def New_def split: sum.split)
  from twin_runs.steps_twin [where je = je and env = env and cfg = "fst (startup ae1 w)" and t = t and n = n
      and a' = st1, OF _ this]
  obtain st2 where "steps (run (main_registry env ae2 w je))
      (Run_init frames (snd (startup ae2 w))) n st2" and twin: "twin_servers same_but_token st1 st2"
    using assms(4) by (auto simp: t blind_deaf [OF assms(1)])
  then show ?thesis
    by (auto simp: twin_servers_def same_but_token_def stdout_def)
qed

lemma script_env_blind: "blind script_env"
  by (auto simp: blind_def script_env_def)

definition other_auth :: auth_env where
  "other_auth = test_auth\<lparr>ae_getenv := (\<lambda>v. if v = ''GH_TOKEN'' then ''another'' else [])\<rparr>"

definition review_frames :: "frame_event list" where
  "review_frames =
     [Line (json_text hello_request),
      Line (json_text (JObj [(''id'', JNum ''8''), (''method'', JStr ''get_pr''), (''params'',
        JObj [(''owner'', JStr ''o''), (''repo'', JStr ''r''), (''number'', JNum ''1'')])]))]"

definition two_answers :: "http_response list" where
  "two_answers = [ok_response ''{}'', ok_response ''{}'']"

theorem token_never_surfaces_witness:
  "cf_token (fst (startup test_auth two_answers)) \<noteq> cf_token (fst (startup other_auth two_answers)) \<and>
   (\<exists>n st1 st2.
     steps (run (main_registry script_env test_auth two_answers (\<lambda>_ _. [])))
       (Run_init review_frames (snd (startup test_auth two_answers))) n st1 \<and> sv_pc st1 = Returned \<and>
     steps (run (main_registry script_env other_auth two_answers (\<lambda>_ _. [])))
       (Run_init review_frames (snd (startup other_auth two_answers))) n st2 \<and> stdout st2 = stdout st1)"
proof -
  have tokens: "ResolveToken test_auth = Inr ''token''" "ResolveToken other_auth = Inr ''another''"
    by code_simp+
  then have res: "resolved test_auth" "resolved other_auth" by (simp_all add: resolved_def)
  obtain n st1 where one: "steps (run (main_registry script_env test_auth two_answers (\<lambda>_ _. [])))
       (Run_init review_frames (snd (startup test_auth two_answers))) n st1" "sv_pc st1 = Returned"
    using sidecar_bound.run_completes [of script_env test_auth two_answers "\<lambda>_ _. []"] by blast
  moreover have "cf_token (fst (startup test_auth two_answers)) \<noteq> cf_token (fst (startup other_auth two_answers))"
    unfolding startup_cfg by (simp add: tokens)
  ultimately show ?thesis
    using token_never_surfaces [OF script_env_blind res one(1)] by blast
qed

end
