(* ===== verification/Fixture.thy ===== *)
theory Fixture
  imports Server_Laws
begin

text \<open>
  \<open>.demo/fake-sidecar\<close>: the in-memory GitHub surface the demo is recorded against, with the same
  server and handlers.  The mutex makes each operation one step.  Times are seconds since the
  epoch.  Slices are values here; \<open>Fixture_Store\<close> has the arrays a result shares with the fixture.
\<close>

section \<open>RFC 3339 times (time.Format)\<close>

text \<open>The civil date of a day counted from 1 January 1970.\<close>

definition civil :: "int \<Rightarrow> int \<times> int \<times> int" where
  "civil day =
     (let z = day + 719468; era = z div 146097; doe = z mod 146097;
          yoe = (doe - doe div 1460 + doe div 36524 - doe div 146096) div 365;
          doy = doe - (365 * yoe + yoe div 4 - yoe div 100);
          mp = (5 * doy + 2) div 153;
          d = doy - (153 * mp + 2) div 5 + 1;
          m = (if mp < 10 then mp + 3 else mp - 9);
          y = yoe + 400 * era + (if m \<le> 2 then 1 else 0)
      in (y, m, d))"

definition pad :: "nat \<Rightarrow> int \<Rightarrow> string" where
  "pad w i = (let s = itoa i in replicate (w - length s) (CHR ''0'') @ s)"

definition rfc3339 :: "int \<Rightarrow> string" where
  "rfc3339 t =
     (case civil (t div 86400) of (y, m, d) \<Rightarrow>
        pad 4 y @ ''-'' @ pad 2 m @ ''-'' @ pad 2 d @ ''T'' @ pad 2 (t mod 86400 div 3600) @ '':'' @
        pad 2 (t mod 3600 div 60) @ '':'' @ pad 2 (t mod 60) @ ''Z'')"

lemma rfc3339_samples:
  "rfc3339 0 = ''1970-01-01T00:00:00Z''" "rfc3339 951782400 = ''2000-02-29T00:00:00Z''"
  "rfc3339 1767225599 = ''2025-12-31T23:59:59Z''"
  by code_simp+

section \<open>The canned pull request\<close>

definition baseSHA :: string where "baseSHA = ''a1b2c3d4e5f60718293a4b5c6d7e8f9011223344''"
definition headSHA :: string where "headSHA = ''44332211109f8e7d6c5b4a3a29180716f6e5d4c3''"
definition prURL :: string where "prURL = ''https://github.com/acme/widgets/pull/42''"
definition author :: string where "author = ''monalisa''"
definition viewer :: string where "viewer = ''you''"
definition other :: string where "other = ''octocat''"

text \<open>The lines of a file, each ended by a line feed.\<close>

definition text_lines :: "string list \<Rightarrow> string" where
  "text_lines ls = concat (map (\<lambda>l. l @ [nl]) ls)"

definition baseBlobs :: "(string \<times> string) list" where
  "baseBlobs =
     [(''lua/theme.lua'', text_lines [''local M = {}'', [], ''M.theme = \"monokai\"'',
         ''M.context = 10'', [], ''function M.setup()'', ''  return M.theme'', ''end'', [],
         ''return M'']),
      (''lua/palette.lua'', text_lines [''local M = {}'', [], ''M.colours = {'',
         ''  red = \"#ff5555\",'', ''  green = \"#50fa7b\",'', ''}'', [], ''return M'']),
      (''lua/monokai.lua'', text_lines [''local M = {}'', [], ''M.name = \"monokai\"'',
         ''M.bg = \"#272822\"'', ''M.fg = \"#f8f8f2\"'', ''M.comment = \"#75715e\"'', [],
         ''return M''])]"

definition headBlobs :: "(string \<times> string) list" where
  "headBlobs =
     [(''lua/theme.lua'', text_lines [''local M = {}'', [], ''M.theme = \"dracula\"'',
         ''M.context = 20'', ''M.accent = \"#bd93f9\"'', [], ''function M.setup()'',
         ''  M.theme = M.theme or \"dracula\"'', ''  return M.theme'', ''end'', [],
         ''return M'']),
      (''lua/palette.lua'', text_lines [''local M = {}'', [], ''M.colours = {'',
         ''  red = \"#ff5555\",'', ''  green = \"#50fa7b\",'', ''  purple = \"#bd93f9\",'', ''}'',
         [], ''return M'']),
      (''lua/dracula.lua'', text_lines [''local M = {}'', [], ''M.name = \"dracula\"'',
         ''M.bg = \"#282a36\"'', ''M.fg = \"#f8f8f2\"'', ''M.comment = \"#6272a4\"'', [],
         ''return M''])]"

section \<open>State\<close>

record fixture =
  fx_threads :: "Thread list"
  fx_comments :: "TimelineComment list"
  fx_reviewID :: string
  fx_viewed :: "string \<rightharpoonup> string"
  fx_seq :: int
  fx_now :: int

definition ago :: "fixture \<Rightarrow> int \<Rightarrow> string" where
  "ago f secs = rfc3339 (fx_now f - secs)"

definition hours :: "int \<Rightarrow> int" where "hours n = n * 3600"

definition new_thread :: Thread where
  "new_thread =
     \<lparr>th_ID = 0, th_ThreadID = [], th_Path = [], th_Side = [], th_Line = 0, th_StartSide = [],
      th_StartLine = 0, th_Outdated = False, th_OriginalLine = 0, th_Resolved = False,
      th_IsPending = False, th_Comments = [], th_CommentsTruncated = False, th_NewestComment = None\<rparr>"

definition newFixture :: "int \<Rightarrow> fixture" where
  "newFixture now =
     (let f = \<lparr>fx_threads = [], fx_comments = [], fx_reviewID = [], fx_viewed = Map.empty, fx_seq = 0,
               fx_now = now\<rparr>
      in f\<lparr>fx_threads :=
            [new_thread\<lparr>th_ID := 7001, th_ThreadID := ''PRRT_seed1'', th_Path := ''lua/theme.lua'',
               th_Side := ''RIGHT'', th_Line := 5, th_Comments :=
                 [\<lparr>tc_ID = 8001, tc_NodeID = ''PRRC_seed1'', tc_Author = other,
                   tc_Body = ''could we pull this accent from the palette instead of hard-coding it here?'',
                   tc_CreatedAt = ago f (hours 3), tc_DiffHunk = []\<rparr>]\<rparr>],
          fx_comments :=
            [\<lparr>tm_Author = other,
              tm_Body = ''thanks for tackling this, dracula'' @ [CHR 0x27] @ ''s been on the wishlist for a while.'',
              tm_CreatedAt = ago f (hours 5)\<rparr>]\<rparr>)"

type_synonym 'a demo = "(fixture, gerr, 'a) sem"

text \<open>\<open>nextID\<close> bumps the sequence and returns it.\<close>

definition nextID :: "fixture \<Rightarrow> int \<times> fixture" where
  "nextID f = (let n = fx_seq f + 1 in (n, f\<lparr>fx_seq := n\<rparr>))"

section \<open>Reads\<close>

definition demo_ListPRs :: "string \<Rightarrow> string \<Rightarrow> string \<Rightarrow> PR list demo" where
  "demo_ListPRs owner repo flt f =
     (Inr [\<lparr>pr_Number = 42, pr_Title = ''feat: add dracula theme'', pr_Author = author,
            pr_HeadRef = ''feat/dracula-theme'', pr_UpdatedAt = ago f (hours 3), pr_Draft = False\<rparr>,
           \<lparr>pr_Number = 41, pr_Title = ''fix: palette fallback for missing keys'', pr_Author = other,
            pr_HeadRef = ''fix/palette-fallback'', pr_UpdatedAt = ago f (hours 26), pr_Draft = False\<rparr>], f)"

definition viewedState :: "fixture \<Rightarrow> string \<Rightarrow> string" where
  "viewedState f path =
     (case fx_viewed f path of
        Some s \<Rightarrow> if s \<noteq> [] then s else ''UNVIEWED''
      | None \<Rightarrow> ''UNVIEWED'')"

definition demo_GetPR :: "string \<Rightarrow> string \<Rightarrow> int \<Rightarrow> PRDetail demo" where
  "demo_GetPR owner repo n f =
     (Inr \<lparr>pd_Title = ''feat: add dracula theme'',
           pd_Body = ''Switches the default theme to dracula and widens diff context.'' @ [nl, nl] @
             ''- new accent colour, pulled into the palette'' @ [nl] @ ''- context 10 -> 20'',
           pd_Author = author, pd_BaseSHA = baseSHA, pd_HeadSHA = headSHA,
           pd_HeadRef = ''feat/dracula-theme'', pd_URL = prURL, pd_State = ''OPEN'', pd_Draft = False,
           pd_Mergeable = ''MERGEABLE'',
           pd_Files =
             [\<lparr>pf_Path = ''lua/theme.lua'', pf_Status = ''modified'', pf_Additions = 4, pf_Deletions = 2,
               pf_PreviousPath = [], pf_ViewedState = viewedState f ''lua/theme.lua''\<rparr>,
              \<lparr>pf_Path = ''lua/palette.lua'', pf_Status = ''modified'', pf_Additions = 1, pf_Deletions = 0,
               pf_PreviousPath = [], pf_ViewedState = viewedState f ''lua/palette.lua''\<rparr>,
              \<lparr>pf_Path = ''lua/dracula.lua'', pf_Status = ''renamed'', pf_Additions = 3, pf_Deletions = 3,
               pf_PreviousPath = ''lua/monokai.lua'', pf_ViewedState = viewedState f ''lua/dracula.lua''\<rparr>]\<rparr>, f)"

definition blobAt :: "(string \<times> string) list \<Rightarrow> string \<Rightarrow> FileBlob" where
  "blobAt blobs path =
     (case map_of blobs path of
        None \<Rightarrow> \<lparr>fb_Content = [], fb_Missing = True\<rparr>
      | Some content \<Rightarrow> \<lparr>fb_Content = content, fb_Missing = False\<rparr>)"

definition demo_GetFileVersions ::
  "string \<Rightarrow> string \<Rightarrow> int \<Rightarrow> string \<Rightarrow> string \<Rightarrow> string \<Rightarrow> string \<Rightarrow> FileVersions demo" where
  "demo_GetFileVersions owner repo n path basePath base head f =
     (let basePath = (if basePath = [] then path else basePath)
      in (Inr \<lparr>fv_Base = blobAt baseBlobs basePath, fv_Head = blobAt headBlobs path,
               fv_Truncated = False\<rparr>, f))"

definition demo_HeadSHA :: "string \<Rightarrow> string \<Rightarrow> int \<Rightarrow> string demo" where
  "demo_HeadSHA owner repo n = retE headSHA"

definition with_newest :: "Thread \<Rightarrow> Thread" where
  "with_newest t =
     (if th_Comments t = [] then t
      else t\<lparr>th_NewestComment :=
        Some \<lparr>nc_NodeID = tc_NodeID (last (th_Comments t)), nc_Body = tc_Body (last (th_Comments t))\<rparr>\<rparr>)"

definition demo_GetThreads :: "string \<Rightarrow> string \<Rightarrow> int \<Rightarrow> Thread list demo" where
  "demo_GetThreads owner repo n f = (Inr (map with_newest (fx_threads f)), f)"

definition demo_GetTimeline :: "string \<Rightarrow> string \<Rightarrow> int \<Rightarrow> Timeline demo" where
  "demo_GetTimeline owner repo n f =
     (Inr \<lparr>tl_Comments = fx_comments f,
           tl_Reviews = [\<lparr>rv_Author = other, rv_State = ''COMMENTED'',
             rv_Body = ''looks close. one inline question on the accent.'', rv_CreatedAt = ago f (hours 3)\<rparr>]\<rparr>, f)"

definition draft_comment :: "Thread \<Rightarrow> PendingComment list" where
  "draft_comment t =
     (case th_Comments t of
        [] \<Rightarrow> []
      | c # cs \<Rightarrow>
          if th_IsPending t then
            [\<lparr>pc_ID = tc_ID c, pc_Path = th_Path t, pc_Side = th_Side t, pc_Line = th_Line t,
              pc_StartSide = [], pc_StartLine = 0, pc_Body = tc_Body c\<rparr>]
          else [])"

definition demo_GetPendingReview :: "string \<Rightarrow> string \<Rightarrow> int \<Rightarrow> PendingReview demo" where
  "demo_GetPendingReview owner repo n f =
     (if fx_reviewID f = [] then (Inr \<lparr>pv_ReviewID = None, pv_Comments = []\<rparr>, f)
      else (Inr \<lparr>pv_ReviewID = Some (fx_reviewID f),
                 pv_Comments = concat (map draft_comment (fx_threads f))\<rparr>, f))"

definition demo_GetChecks :: "string \<Rightarrow> string \<Rightarrow> int \<Rightarrow> Checks demo" where
  "demo_GetChecks owner repo n f =
     (let check = (\<lambda>name. \<lparr>ch_Name = name, ch_Status = ''COMPLETED'', ch_Conclusion = ''SUCCESS'',
                           ch_URL = prURL @ ''/checks'', ch_StartedAt = ago f (hours 3)\<rparr>)
      in (Inr \<lparr>ck_Rollup = ''SUCCESS'',
               ck_Checks = [check ''lua / lint'', check ''lua / test'', check ''build'']\<rparr>, f))"

section \<open>The review\<close>

definition demo_StartReview :: "string \<Rightarrow> string \<Rightarrow> int \<Rightarrow> StartReview_res demo" where
  "demo_StartReview owner repo n f =
     (if fx_reviewID f = [] then
        (case nextID f of (i, f') \<Rightarrow>
           let r = ''PRR_'' @ itoa i in (Inr \<lparr>sr_ReviewID = r\<rparr>, f'\<lparr>fx_reviewID := r\<rparr>))
      else (Inr \<lparr>sr_ReviewID = fx_reviewID f\<rparr>, f))"

definition demo_SubmitReview :: "string \<Rightarrow> string \<Rightarrow> string \<Rightarrow> SubmitReview_res demo" where
  "demo_SubmitReview reviewID event body f =
     (case nextID (f\<lparr>fx_threads := map (\<lambda>t. t\<lparr>th_IsPending := False\<rparr>) (fx_threads f),
                    fx_reviewID := []\<rparr>) of
        (i, f') \<Rightarrow> (Inr \<lparr>su_ID = i\<rparr>, f'))"

definition demo_DiscardReview :: "string \<Rightarrow> unit demo" where
  "demo_DiscardReview reviewID f =
     (Inr (), f\<lparr>fx_threads := filter (\<lambda>t. \<not> th_IsPending t) (fx_threads f), fx_reviewID := []\<rparr>)"

section \<open>Comments\<close>

text \<open>The first thread with the id gets the comment; \<open>None\<close> when there is none.\<close>

fun join_thread :: "string \<Rightarrow> ThreadComment \<Rightarrow> Thread list \<Rightarrow> Thread list option" where
  "join_thread i c [] = None"
| "join_thread i c (t # ts) =
     (if th_ThreadID t = i then Some (t\<lparr>th_Comments := th_Comments t @ [c]\<rparr> # ts)
      else map_option (Cons t) (join_thread i c ts))"

definition demo_PostComment ::
  "string \<Rightarrow> string \<Rightarrow> int \<Rightarrow> PostCommentInput \<Rightarrow> PostComment_res demo" where
  "demo_PostComment owner repo n inp f =
     (case nextID f of (k, f1) \<Rightarrow>
        let commentID = 8000 + k;
            comment = \<lparr>tc_ID = commentID, tc_NodeID = ''PRRC_'' @ itoa commentID, tc_Author = viewer,
                       tc_Body = in_Body inp, tc_CreatedAt = ago f1 0, tc_DiffHunk = []\<rparr>;
            joined = (if in_InReplyTo inp = [] then None
                      else join_thread (in_InReplyTo inp) comment (fx_threads f1))
        in (case joined of
              Some ts \<Rightarrow>
                (Inr \<lparr>po_ID = commentID, po_ThreadID = in_InReplyTo inp, po_ReviewID = fx_reviewID f1\<rparr>,
                 f1\<lparr>fx_threads := ts\<rparr>)
            | None \<Rightarrow>
                (case nextID f1 of (j, f2) \<Rightarrow>
                   let threadID = ''PRRT_'' @ itoa j;
                       t = new_thread\<lparr>th_ID := commentID, th_ThreadID := threadID, th_Path := in_Path inp,
                             th_Side := in_Side inp, th_Line := in_Line inp, th_StartSide := in_StartSide inp,
                             th_StartLine := in_StartLine inp, th_IsPending := fx_reviewID f2 \<noteq> [],
                             th_Comments := [comment]\<rparr>
                   in (Inr \<lparr>po_ID = commentID, po_ThreadID = threadID, po_ReviewID = fx_reviewID f2\<rparr>,
                       f2\<lparr>fx_threads := fx_threads f2 @ [t]\<rparr>))))"

definition demo_PostIssueComment :: "string \<Rightarrow> string \<Rightarrow> int \<Rightarrow> string \<Rightarrow> PostIssueComment_res demo" where
  "demo_PostIssueComment owner repo n body f =
     (case nextID f of (i, f') \<Rightarrow>
        (Inr \<lparr>pi_ID = 9000 + i\<rparr>,
         f'\<lparr>fx_comments := fx_comments f' @
              [\<lparr>tm_Author = viewer, tm_Body = body, tm_CreatedAt = ago f' 0\<rparr>]\<rparr>))"

text \<open>The first comment with the node id goes; with a thread's root goes the thread.\<close>

fun drop_comment :: "string \<Rightarrow> ThreadComment list \<Rightarrow> ThreadComment list" where
  "drop_comment i [] = []"
| "drop_comment i (c # cs) = (if tc_NodeID c = i then cs else c # drop_comment i cs)"

definition names_comment :: "string \<Rightarrow> Thread \<Rightarrow> bool" where
  "names_comment i t \<longleftrightarrow> (\<exists>c \<in> set (th_Comments t). tc_NodeID c = i)"

fun delete_comment :: "string \<Rightarrow> Thread list \<Rightarrow> Thread list" where
  "delete_comment i [] = []"
| "delete_comment i (t # ts) =
     (if names_comment i t then
        (if tc_NodeID (hd (th_Comments t)) = i then ts
         else t\<lparr>th_Comments := drop_comment i (th_Comments t)\<rparr> # ts)
      else t # delete_comment i ts)"

definition demo_DeleteComment :: "string \<Rightarrow> unit demo" where
  "demo_DeleteComment commentID f = (Inr (), f\<lparr>fx_threads := delete_comment commentID (fx_threads f)\<rparr>)"

fun set_resolved :: "string \<Rightarrow> bool \<Rightarrow> Thread list \<Rightarrow> Thread list" where
  "set_resolved i v [] = []"
| "set_resolved i v (t # ts) =
     (if th_ThreadID t = i then t\<lparr>th_Resolved := v\<rparr> # ts else t # set_resolved i v ts)"

definition demo_ResolveThread :: "string \<Rightarrow> bool \<Rightarrow> ResolveThread_res demo" where
  "demo_ResolveThread threadID resolved f =
     (Inr \<lparr>rt_Resolved = resolved\<rparr>, f\<lparr>fx_threads := set_resolved threadID resolved (fx_threads f)\<rparr>)"

section \<open>The pull request's state\<close>

definition demo_SetFileViewed ::
  "string \<Rightarrow> string \<Rightarrow> int \<Rightarrow> string \<Rightarrow> bool \<Rightarrow> SetFileViewed_res demo" where
  "demo_SetFileViewed owner repo n path v f =
     (let st = (if v then ''VIEWED'' else ''UNVIEWED'')
      in (Inr \<lparr>sv_ViewedState = st\<rparr>, f\<lparr>fx_viewed := (fx_viewed f)(path \<mapsto> st)\<rparr>))"

definition demo_MergePR ::
  "string \<Rightarrow> string \<Rightarrow> int \<Rightarrow> string \<Rightarrow> bool \<Rightarrow> string \<Rightarrow> string \<Rightarrow> Merge demo" where
  "demo_MergePR owner repo n meth delete_branch subject body = retE \<lparr>mg_Merged = True, mg_SHA = headSHA\<rparr>"

definition demo_SetPRState :: "string \<Rightarrow> string \<Rightarrow> int \<Rightarrow> string \<Rightarrow> SetPRState_res demo" where
  "demo_SetPRState owner repo n state = retE \<lparr>ss_State = state\<rparr>"

definition demo_TokenStatus :: "string \<times> string" where
  "demo_TokenStatus = (''ok'', [])"

text \<open>The fixture as a GitHub surface: each operation is one action, done under the mutex; it has no
  cache to clear.\<close>

definition demo_api :: "fixture api" where
  "demo_api =
     \<lparr>ap_ListPRs = (\<lambda>owner repo flt. atomP (demo_ListPRs owner repo flt)),
      ap_GetPR = (\<lambda>owner repo n. atomP (demo_GetPR owner repo n)),
      ap_GetFileVersions = (\<lambda>owner repo n p bp b h. atomP (demo_GetFileVersions owner repo n p bp b h)),
      ap_HeadSHA = (\<lambda>owner repo n. atomP (demo_HeadSHA owner repo n)),
      ap_GetThreads = (\<lambda>owner repo n. atomP (demo_GetThreads owner repo n)),
      ap_GetTimeline = (\<lambda>owner repo n. atomP (demo_GetTimeline owner repo n)),
      ap_GetPendingReview = (\<lambda>owner repo n. atomP (demo_GetPendingReview owner repo n)),
      ap_GetChecks = (\<lambda>owner repo n. atomP (demo_GetChecks owner repo n)),
      ap_StartReview = (\<lambda>owner repo n. atomP (demo_StartReview owner repo n)),
      ap_SubmitReview = (\<lambda>i event body. atomP (demo_SubmitReview i event body)),
      ap_DiscardReview = (\<lambda>i. atomP (demo_DiscardReview i)),
      ap_PostComment = (\<lambda>owner repo n inp. atomP (demo_PostComment owner repo n inp)),
      ap_PostIssueComment = (\<lambda>owner repo n body. atomP (demo_PostIssueComment owner repo n body)),
      ap_DeleteComment = (\<lambda>i. atomP (demo_DeleteComment i)),
      ap_ResolveThread = (\<lambda>i v. atomP (demo_ResolveThread i v)),
      ap_SetFileViewed = (\<lambda>owner repo n path v. atomP (demo_SetFileViewed owner repo n path v)),
      ap_MergePR = (\<lambda>owner repo n m d sj b. atomP (demo_MergePR owner repo n m d sj b)),
      ap_SetPRState = (\<lambda>owner repo n st. atomP (demo_SetPRState owner repo n st)),
      ap_TokenStatus = demo_TokenStatus, ap_ClearCache = None\<rparr>"

text \<open>What \<open>main\<close> of the demo builds.\<close>

definition demo_deps :: "(string list \<Rightarrow> json \<Rightarrow> string) \<Rightarrow> fixture deps" where
  "demo_deps je = \<lparr>dp_GH = Some demo_api, dp_json_err = je\<rparr>"

definition demo_main :: "int \<Rightarrow> reader \<Rightarrow> (fixture, result_val) server" where
  "demo_main now input = Run_init (Run_frames input) (newFixture now)"

definition demo_log :: "(fixture, result_val) server \<Rightarrow> log_entry list" where
  "demo_log st = logged LevelInfo (sv_log st)"

end
