(* ===== verification/Fixture_Laws.thy ===== *)
theory Fixture_Laws
  imports Fixture Server_Trace
begin

text \<open>
  The demo surface as a review board: its names and numbers stay unique, but for the number of the
  seeded comment, its drafts belong to an open review,
  and it meets the same contract as the real client, so the server's guarantees hold of it too.
\<close>

section \<open>Names\<close>

lemma itoa_not_seed: "itoa i \<noteq> ''seed1''"
proof
  assume "itoa i = ''seed1''"
  then have "CHR ''s'' \<in> set (nat_str (nat i))"
    by (auto simp: itoa_def split: if_splits)
  then show False using nat_str_digits [of "CHR ''s''"] by (auto simp: digit_val_def)
qed

text \<open>The names given out by the first \<open>k\<close> steps of the sequence, on top of the seeded one.\<close>

definition names :: "string \<Rightarrow> int \<Rightarrow> int \<Rightarrow> string set" where
  "names pre base k = {pre @ ''seed1''} \<union> {pre @ itoa (base + j) | j. 1 \<le> j \<and> j \<le> k}"

lemma names_mono: "k \<le> k' \<Longrightarrow> names pre base k \<subseteq> names pre base k'"
  by (auto simp: names_def)

lemma names_new: "1 \<le> j \<Longrightarrow> j \<le> k \<Longrightarrow> pre @ itoa (base + j) \<in> names pre base k"
  by (auto simp: names_def)

lemma names_fresh: "0 \<le> base \<Longrightarrow> 0 \<le> k \<Longrightarrow> k < j \<Longrightarrow> pre @ itoa (base + j) \<notin> names pre base k"
  by (auto simp: names_def itoa_inj itoa_not_seed)

section \<open>The invariant\<close>

definition node_ids :: "Thread list \<Rightarrow> string list" where
  "node_ids ts = concat (map (\<lambda>t. map tc_NodeID (th_Comments t)) ts)"

lemma node_ids_simps [simp]:
  "node_ids [] = []" "node_ids (t # ts) = map tc_NodeID (th_Comments t) @ node_ids ts"
  "node_ids (ts @ us) = node_ids ts @ node_ids us"
  by (simp_all add: node_ids_def)

text \<open>How a thread's two ids and a comment's two ids go together.\<close>

definition thread_named :: "Thread \<Rightarrow> bool" where
  "thread_named t \<longleftrightarrow>
     th_ThreadID t = (if th_ID t = 7001 then ''PRRT_seed1'' else ''PRRT_'' @ itoa (th_ID t - 7999))"

definition comment_named :: "ThreadComment \<Rightarrow> bool" where
  "comment_named c \<longleftrightarrow>
     tc_NodeID c = ''PRRC_seed1'' \<and> tc_ID c = 8001 \<or> tc_NodeID c = ''PRRC_'' @ itoa (tc_ID c)"

definition well_named :: "Thread \<Rightarrow> bool" where
  "well_named t \<longleftrightarrow> thread_named t \<and> (\<forall>c \<in> set (th_Comments t). comment_named c)"

definition fixture_inv :: "fixture \<Rightarrow> bool" where
  "fixture_inv f \<longleftrightarrow>
     0 \<le> fx_seq f \<and> (\<forall>t \<in> set (fx_threads f). well_named t) \<and>
     (\<forall>t \<in> set (fx_threads f). th_Comments t \<noteq> [] \<and> (th_IsPending t \<longrightarrow> fx_reviewID f \<noteq> [])) \<and>
     distinct (map th_ThreadID (fx_threads f)) \<and>
     set (map th_ThreadID (fx_threads f)) \<subseteq> names ''PRRT_'' 0 (fx_seq f) \<and>
     distinct (node_ids (fx_threads f)) \<and>
     set (node_ids (fx_threads f)) \<subseteq> names ''PRRC_'' 8000 (fx_seq f)"

lemma fixture_inv_new: "fixture_inv (newFixture now)"
  by (simp add: fixture_inv_def newFixture_def Let_def new_thread_def names_def well_named_def thread_named_def
      comment_named_def)

text \<open>The numeric ids of the threads are as unique as their names, and so are those of the comments, the
  seeded one apart.\<close>

lemma numbers_distinct:
  assumes "fixture_inv f"
  shows "distinct (map th_ID (fx_threads f))"
    and "distinct (map tc_ID (filter (\<lambda>c. tc_NodeID c \<noteq> ''PRRC_seed1'') (concat (map th_Comments (fx_threads f)))))"
proof -
  let ?g = "\<lambda>i. if i = 7001 then ''PRRT_seed1'' else ''PRRT_'' @ itoa (i - 7999)"
  have t: "map th_ThreadID (fx_threads f) = map ?g (map th_ID (fx_threads f))"
    using assms by (auto simp: fixture_inv_def well_named_def thread_named_def)
  have "distinct (map th_ThreadID (fx_threads f))" using assms by (simp add: fixture_inv_def)
  then show "distinct (map th_ID (fx_threads f))"
    unfolding t by (simp only: distinct_map [of ?g])
  let ?cs = "filter (\<lambda>c. tc_NodeID c \<noteq> ''PRRC_seed1'') (concat (map th_Comments (fx_threads f)))"
  have c: "map tc_NodeID ?cs = map (\<lambda>i. ''PRRC_'' @ itoa i) (map tc_ID ?cs)"
    using assms by (auto simp: fixture_inv_def well_named_def comment_named_def)
  have "distinct (map tc_NodeID (concat (map th_Comments (fx_threads f))))"
    using assms by (simp add: fixture_inv_def node_ids_def map_concat comp_def)
  then have "distinct (map tc_NodeID ?cs)" by (rule distinct_map_filter)
  then show "distinct (map tc_ID ?cs)"
    unfolding c by (simp only: distinct_map [of "\<lambda>i. ''PRRC_'' @ itoa i"])
qed

lemma distinct_submset:
  assumes "mset xs \<subseteq># mset ys" and "distinct ys"
  shows "distinct xs"
  unfolding distinct_count_atmost_1
proof
  fix a
  have "count (mset xs) a \<le> (if a \<in> set ys then 1 else 0)"
    using assms mset_subset_eq_count [of "mset xs" "mset ys" a] by (simp add: distinct_count_atmost_1)
  then show "count (mset xs) a = (if a \<in> set xs then 1 else 0)"
    by (auto simp: count_eq_zero_iff le_Suc_eq split: if_splits)
qed

text \<open>What \<open>DeleteComment\<close> and \<open>DiscardReview\<close> leave is part of what there was.\<close>

lemma fixture_inv_shrink:
  assumes "fixture_inv f" and "fx_seq f' = fx_seq f"
    and "\<And>t. t \<in> set (fx_threads f') \<Longrightarrow> th_Comments t \<noteq> [] \<and> (th_IsPending t \<longrightarrow> fx_reviewID f' \<noteq> [])"
    and "\<And>t. t \<in> set (fx_threads f') \<Longrightarrow> well_named t"
    and "mset (map th_ThreadID (fx_threads f')) \<subseteq># mset (map th_ThreadID (fx_threads f))"
    and "mset (node_ids (fx_threads f')) \<subseteq># mset (node_ids (fx_threads f))"
  shows "fixture_inv f'"
  using assms(1-4) distinct_submset [OF assms(5)] distinct_submset [OF assms(6)]
    set_mset_mono [OF assms(5)] set_mset_mono [OF assms(6)]
  unfolding fixture_inv_def by (auto simp: subset_iff)

section \<open>Threads\<close>

lemma join_thread_some:
  "join_thread i c ts = Some us \<Longrightarrow>
    map th_ThreadID us = map th_ThreadID ts \<and>
    mset (node_ids us) = add_mset (tc_NodeID c) (mset (node_ids ts)) \<and>
    (\<forall>u \<in> set us. th_Comments u \<noteq> [] \<or> u \<in> set ts) \<and>
    map th_IsPending us = map th_IsPending ts"
  by (induction i c ts arbitrary: us rule: join_thread.induct)
    (auto split: if_splits)

lemma join_thread_named:
  "join_thread i c ts = Some us \<Longrightarrow> \<forall>t \<in> set ts. well_named t \<Longrightarrow> comment_named c \<Longrightarrow>
    \<forall>u \<in> set us. well_named u"
proof (induction i c ts arbitrary: us rule: join_thread.induct)
  case (2 i c t ts)
  then show ?case
    by (cases "th_ThreadID t = i") (auto simp: well_named_def thread_named_def)
qed simp

lemma drop_comment_mset: "mset (map tc_NodeID (drop_comment i cs)) \<subseteq># mset (map tc_NodeID cs)"
  by (induction cs) auto

lemma drop_comment_set: "set (drop_comment i cs) \<subseteq> set cs"
  by (induction cs) auto

lemma drop_comment_root: "cs \<noteq> [] \<Longrightarrow> tc_NodeID (hd cs) \<noteq> i \<Longrightarrow> drop_comment i cs \<noteq> []"
  by (cases cs) auto

lemma delete_comment_props:
  "mset (map th_ThreadID (delete_comment i ts)) \<subseteq># mset (map th_ThreadID ts) \<and>
   mset (node_ids (delete_comment i ts)) \<subseteq># mset (node_ids ts) \<and>
   (\<forall>u \<in> set (delete_comment i ts). \<exists>t \<in> set ts. th_IsPending u = th_IsPending t \<and>
      (th_Comments t \<noteq> [] \<longrightarrow> th_Comments u \<noteq> []) \<and> (well_named t \<longrightarrow> well_named u))"
proof (induction i ts rule: delete_comment.induct)
  case (2 i t ts)
  have "mset (map tc_NodeID (drop_comment i (th_Comments t))) + mset (node_ids ts) \<subseteq>#
      mset (map tc_NodeID (th_Comments t)) + mset (node_ids ts)"
    using drop_comment_mset by (rule subset_mset.add_right_mono)
  moreover have "mset (node_ids ts) \<subseteq># mset (map tc_NodeID (th_Comments t)) + mset (node_ids ts)"
    by simp
  ultimately show ?case
    using 2 drop_comment_root [of "th_Comments t" i] drop_comment_set [of i "th_Comments t"]
    by (auto simp: well_named_def thread_named_def simp del: mset_map)
qed auto

lemma set_resolved_props [simp]:
  "map th_ThreadID (set_resolved i v ts) = map th_ThreadID ts"
  "node_ids (set_resolved i v ts) = node_ids ts"
  by (induction i v ts rule: set_resolved.induct) auto

lemma set_resolved_thread:
  "u \<in> set (set_resolved i v ts) \<Longrightarrow>
    \<exists>t \<in> set ts. th_Comments u = th_Comments t \<and> th_IsPending u = th_IsPending t \<and>
      well_named u = well_named t"
  by (induction i v ts rule: set_resolved.induct)
    (auto simp: well_named_def thread_named_def split: if_splits)

section \<open>Every operation keeps the invariant\<close>

lemma fixture_inv_joined:
  assumes inv: "fixture_inv f" and n: "n = fx_seq f + 1"
    and join: "join_thread i c (fx_threads f) = Some us" and c: "tc_NodeID c = ''PRRC_'' @ itoa (8000 + n)"
      "tc_ID c = 8000 + n"
  shows "fixture_inv (f\<lparr>fx_seq := n, fx_threads := us\<rparr>)"
proof -
  note j = join_thread_some [OF join]
  have seq: "0 \<le> fx_seq f" using inv by (simp add: fixture_inv_def)
  have new: "tc_NodeID c \<notin> names ''PRRC_'' 8000 (fx_seq f)"
    unfolding c(1) using seq n by (intro names_fresh) simp_all
  have ids: "mset (node_ids us) = mset (tc_NodeID c # node_ids (fx_threads f))" using j by simp
  then have "distinct (node_ids us)"
    using inv new mset_eq_imp_distinct_iff [OF ids] by (auto simp: fixture_inv_def)
  moreover have "set (node_ids us) \<subseteq> names ''PRRC_'' 8000 n"
    using inv names_mono [of "fx_seq f" n "''PRRC_''" 8000] names_new [of n n "''PRRC_''" 8000] seq n c
      mset_eq_setD [OF ids] by (auto simp: fixture_inv_def)
  moreover have "set (map th_ThreadID us) \<subseteq> names ''PRRT_'' 0 n"
    using inv names_mono [of "fx_seq f" n "''PRRT_''" 0] n j by (auto simp: fixture_inv_def)
  moreover have "\<forall>u \<in> set us. th_Comments u \<noteq> []"
    using inv j by (auto simp: fixture_inv_def)
  moreover have "\<forall>u \<in> set us. well_named u"
    using inv c by (intro join_thread_named [OF join]) (auto simp: fixture_inv_def comment_named_def)
  moreover have "u \<in> set us \<Longrightarrow> th_IsPending u \<Longrightarrow> \<exists>t \<in> set (fx_threads f). th_IsPending t" for u
    using j by (metis (no_types, lifting) image_iff list.set_map)
  ultimately show ?thesis
    using inv j seq n by (auto simp: fixture_inv_def)
qed

lemma fixture_inv_opened:
  assumes inv: "fixture_inv f" and n: "n = fx_seq f + 1"
    and t: "th_ThreadID t = ''PRRT_'' @ itoa (n + 1)" "map tc_NodeID (th_Comments t) = [''PRRC_'' @ itoa (8000 + n)]"
      "th_IsPending t \<longleftrightarrow> fx_reviewID f \<noteq> []" "th_ID t = 8000 + n" "map tc_ID (th_Comments t) = [8000 + n]"
  shows "fixture_inv (f\<lparr>fx_seq := n + 1, fx_threads := fx_threads f @ [t]\<rparr>)"
proof -
  have seq: "0 \<le> fx_seq f" using inv by (simp add: fixture_inv_def)
  have "''PRRC_'' @ itoa (8000 + n) \<notin> names ''PRRC_'' 8000 (fx_seq f)"
    using seq n by (intro names_fresh) simp_all
  moreover have "''PRRT_'' @ itoa (0 + (n + 1)) \<notin> names ''PRRT_'' 0 (fx_seq f)"
    using seq n by (intro names_fresh) simp_all
  moreover have "names ''PRRC_'' 8000 (fx_seq f) \<subseteq> names ''PRRC_'' 8000 (n + 1)"
    "names ''PRRT_'' 0 (fx_seq f) \<subseteq> names ''PRRT_'' 0 (n + 1)"
    using n by (intro names_mono; simp)+
  moreover have "''PRRC_'' @ itoa (8000 + n) \<in> names ''PRRC_'' 8000 (n + 1)"
    "''PRRT_'' @ itoa (0 + (n + 1)) \<in> names ''PRRT_'' 0 (n + 1)"
    using seq n by (intro names_new; simp)+
  moreover have "th_Comments t \<noteq> []" using t(2) by auto
  moreover have "well_named t"
    using t seq n by (cases "th_Comments t") (auto simp: well_named_def thread_named_def comment_named_def)
  ultimately show ?thesis
    using inv seq n t by (auto simp: fixture_inv_def)
qed

lemma inv_PostComment: "keeps fixture_inv (demo_PostComment owner repo n inp)"
  unfolding keeps_def
proof (intro allI impI)
  fix f
  assume inv: "fixture_inv f"
  define k where "k = fx_seq f + 1"
  define c where "c = \<lparr>tc_ID = 8000 + k, tc_NodeID = ''PRRC_'' @ itoa (8000 + k), tc_Author = viewer,
    tc_Body = in_Body inp, tc_CreatedAt = ago (f\<lparr>fx_seq := k\<rparr>) 0, tc_DiffHunk = []\<rparr>"
  define joined where "joined =
    (if in_InReplyTo inp = [] then None else join_thread (in_InReplyTo inp) c (fx_threads f))"
  note run = demo_PostComment_def nextID_def Let_def prod.case fixture.simps
  show "fixture_inv (snd (demo_PostComment owner repo n inp f))"
  proof (cases joined)
    case None
    then have "\<exists>t. snd (demo_PostComment owner repo n inp f) =
        f\<lparr>fx_seq := k + 1, fx_threads := fx_threads f @ [t]\<rparr> \<and> th_ThreadID t = ''PRRT_'' @ itoa (k + 1) \<and>
        map tc_NodeID (th_Comments t) = [''PRRC_'' @ itoa (8000 + k)] \<and>
        (th_IsPending t \<longleftrightarrow> fx_reviewID f \<noteq> []) \<and> th_ID t = 8000 + k \<and>
        map tc_ID (th_Comments t) = [8000 + k]"
      unfolding run joined_def c_def k_def [symmetric] by (auto simp: k_def new_thread_def)
    with fixture_inv_opened [OF inv k_def] show ?thesis by metis
  next
    case (Some us)
    then have "snd (demo_PostComment owner repo n inp f) = f\<lparr>fx_seq := k, fx_threads := us\<rparr>"
      unfolding run joined_def c_def k_def [symmetric] by (auto simp: k_def split: if_splits)
    moreover have "join_thread (in_InReplyTo inp) c (fx_threads f) = Some us"
      using Some by (simp add: joined_def split: if_splits)
    ultimately show ?thesis
      using fixture_inv_joined [OF inv k_def] by (simp add: c_def)
  qed
qed

lemma fixture_inv_seq: "fixture_inv f \<Longrightarrow> fixture_inv (f\<lparr>fx_seq := fx_seq f + 1\<rparr>)"
  using names_mono [of "fx_seq f" "fx_seq f + 1" "''PRRT_''" 0]
    names_mono [of "fx_seq f" "fx_seq f + 1" "''PRRC_''" 8000]
  by (auto simp: fixture_inv_def)

lemma fixture_inv_review: "fixture_inv f \<Longrightarrow> r \<noteq> [] \<Longrightarrow> fixture_inv (f\<lparr>fx_reviewID := r\<rparr>)"
  by (auto simp: fixture_inv_def)

lemma fixture_inv_frame [simp]:
  "fixture_inv (f\<lparr>fx_comments := cs\<rparr>) = fixture_inv f" "fixture_inv (f\<lparr>fx_viewed := v\<rparr>) = fixture_inv f"
  by (simp_all add: fixture_inv_def)

lemma inv_StartReview: "keeps fixture_inv (demo_StartReview owner repo n)"
  by (auto simp: keeps_def demo_StartReview_def nextID_def Let_def
      intro!: fixture_inv_review fixture_inv_seq)

lemma inv_SubmitReview: "keeps fixture_inv (demo_SubmitReview i ev b)"
  unfolding keeps_def
proof (intro allI impI)
  fix f
  assume inv: "fixture_inv f"
  have "node_ids (map (\<lambda>t. t\<lparr>th_IsPending := False\<rparr>) ts) = node_ids ts" for ts
    by (induction ts) auto
  then have "fixture_inv (f\<lparr>fx_threads := map (\<lambda>t. t\<lparr>th_IsPending := False\<rparr>) (fx_threads f), fx_reviewID := []\<rparr>)"
    using inv by (auto simp: fixture_inv_def comp_def well_named_def thread_named_def)
  from fixture_inv_seq [OF this] show "fixture_inv (snd (demo_SubmitReview i ev b f))"
    by (simp add: demo_SubmitReview_def nextID_def Let_def)
qed

lemma node_ids_filter: "mset (node_ids (filter P ts)) \<subseteq># mset (node_ids ts)"
  by (induction ts) (auto intro: subset_mset.add_mono subset_mset.add_increasing)

lemma inv_DiscardReview: "keeps fixture_inv (demo_DiscardReview i)"
  unfolding keeps_def
proof (intro allI impI)
  fix f
  assume inv: "fixture_inv f"
  let ?f = "f\<lparr>fx_threads := filter (\<lambda>t. \<not> th_IsPending t) (fx_threads f), fx_reviewID := []\<rparr>"
  have "fixture_inv ?f"
    by (rule fixture_inv_shrink [OF inv])
      (use inv in \<open>auto simp: fixture_inv_def node_ids_filter intro: image_mset_subseteq_mono multiset_filter_subset\<close>)
  then show "fixture_inv (snd (demo_DiscardReview i f))"
    by (simp add: demo_DiscardReview_def)
qed

lemma inv_DeleteComment: "keeps fixture_inv (demo_DeleteComment i)"
  unfolding keeps_def
proof (intro allI impI)
  fix f
  assume inv: "fixture_inv f"
  note d = delete_comment_props [of i "fx_threads f"]
  have "fixture_inv (f\<lparr>fx_threads := delete_comment i (fx_threads f)\<rparr>)"
    by (rule fixture_inv_shrink [OF inv]) (use inv d in \<open>fastforce simp: fixture_inv_def\<close>)+
  then show "fixture_inv (snd (demo_DeleteComment i f))"
    by (simp add: demo_DeleteComment_def)
qed

lemma inv_ResolveThread: "keeps fixture_inv (demo_ResolveThread i v)"
  unfolding keeps_def
proof (intro allI impI)
  fix f
  assume "fixture_inv f"
  then show "fixture_inv (snd (demo_ResolveThread i v f))"
    using set_resolved_thread [of _ i v "fx_threads f"]
    unfolding demo_ResolveThread_def fixture_inv_def by (auto simp del: list.set_map) metis+
qed

lemmas demo_read_defs =
  demo_ListPRs_def demo_GetPR_def demo_GetFileVersions_def demo_HeadSHA_def demo_GetThreads_def
  demo_GetTimeline_def demo_GetPendingReview_def demo_GetChecks_def demo_MergePR_def demo_SetPRState_def

lemmas demo_write_defs =
  demo_StartReview_def demo_SubmitReview_def demo_DiscardReview_def demo_PostComment_def
  demo_PostIssueComment_def demo_DeleteComment_def demo_ResolveThread_def demo_SetFileViewed_def

lemma inv_reads:
  "keeps fixture_inv (demo_ListPRs o1 r1 flt)" "keeps fixture_inv (demo_GetPR o1 r1 n)"
  "keeps fixture_inv (demo_GetFileVersions o1 r1 n p bp b h)" "keeps fixture_inv (demo_HeadSHA o1 r1 n)"
  "keeps fixture_inv (demo_GetThreads o1 r1 n)" "keeps fixture_inv (demo_GetTimeline o1 r1 n)"
  "keeps fixture_inv (demo_GetPendingReview o1 r1 n)" "keeps fixture_inv (demo_GetChecks o1 r1 n)"
  "keeps fixture_inv (demo_MergePR o1 r1 n m v sj b)" "keeps fixture_inv (demo_SetPRState o1 r1 n st)"
  by (simp_all add: keeps_def demo_read_defs Let_def)

lemma inv_PostIssueComment: "keeps fixture_inv (demo_PostIssueComment o1 r1 n b)"
  by (simp add: keeps_def demo_PostIssueComment_def nextID_def Let_def fixture_inv_seq)

lemma inv_SetFileViewed: "keeps fixture_inv (demo_SetFileViewed o1 r1 n p v)"
  by (simp add: keeps_def demo_SetFileViewed_def Let_def)

section \<open>The contract of the surface\<close>

lemma demo_errs:
  "errs_in closed_err (demo_ListPRs o1 r1 flt)" "errs_in closed_err (demo_GetPR o1 r1 n)"
  "errs_in closed_err (demo_GetFileVersions o1 r1 n p bp b h)" "errs_in closed_err (demo_HeadSHA o1 r1 n)"
  "errs_in closed_err (demo_GetThreads o1 r1 n)" "errs_in closed_err (demo_GetTimeline o1 r1 n)"
  "errs_in closed_err (demo_GetPendingReview o1 r1 n)" "errs_in closed_err (demo_GetChecks o1 r1 n)"
  "errs_in closed_err (demo_StartReview o1 r1 n)" "errs_in closed_err (demo_SubmitReview i ev b)"
  "errs_in closed_err (demo_DiscardReview i)" "errs_in closed_err (demo_PostComment o1 r1 n inp)"
  "errs_in closed_err (demo_PostIssueComment o1 r1 n b)" "errs_in closed_err (demo_DeleteComment i)"
  "errs_in closed_err (demo_ResolveThread i v)" "errs_in closed_err (demo_SetFileViewed o1 r1 n p v)"
  "errs_in closed_err (demo_MergePR o1 r1 n m v sj b)" "errs_in closed_err (demo_SetPRState o1 r1 n st)"
  by (auto simp: errs_in_def demo_read_defs demo_write_defs nextID_def Let_def split: option.splits if_splits)

interpretation demo: github_api demo_api closed_err fixture_inv any "\<lambda>_. any"
  by unfold_locales
    (simp_all add: demo_api_def good_atom demo_errs inv_reads inv_PostIssueComment inv_SetFileViewed
      inv_PostComment inv_StartReview inv_SubmitReview inv_DiscardReview inv_DeleteComment inv_ResolveThread)

interpretation demo_bound: bounded_api demo_api 1
  by unfold_locales (simp_all add: demo_api_def within_atomP [simplified])

interpretation demo_server: sidecar_runner "run (NewRegistry (demo_deps je))" is_hello_result fixture_inv
  for je
  by (rule registry_sidecar [OF demo.github_api_axioms]) (simp add: demo_deps_def)

interpretation demo_runs: bounded_runner "run (NewRegistry (demo_deps je))" 4
  for je
  using registry_bounded [OF demo_bound.bounded_api_axioms, of "demo_deps je"] by (simp add: demo_deps_def)

section \<open>Properties\<close>

text \<open>C33: The demo stays consistent whatever is asked of it.  In every state of a run of the demo
  server, over any input and any interleaving, the thread ids, the threads' numbers and the node ids
  of the comments are unique, the last across all threads; so are the numbers of the comments but for
  the seeded one, whose number the first comment of a session takes again; every thread has a comment;
  and a draft thread exists only while a review is open.\<close>

theorem demo_consistent:
  assumes "steps (run (NewRegistry (demo_deps je))) (Run_init frames (newFixture now)) n st"
  shows "let ts = fx_threads (sv_gh st); cs = concat (map th_Comments ts) in
    distinct (map th_ThreadID ts) \<and> distinct (map th_ID ts) \<and> distinct (map tc_NodeID cs) \<and>
    distinct (map tc_ID (filter (\<lambda>c. tc_NodeID c \<noteq> ''PRRC_seed1'') cs)) \<and>
    (\<forall>t \<in> set ts. th_Comments t \<noteq> [] \<and> (th_IsPending t \<longrightarrow> fx_reviewID (sv_gh st) \<noteq> []))"
proof -
  have "fixture_inv (sv_gh st)" by (rule demo_server.steps_sound [OF fixture_inv_new assms])
  from numbers_distinct [OF this] this show ?thesis
    by (simp add: fixture_inv_def node_ids_def map_concat comp_def Let_def)
qed

text \<open>A session that posts a comment.\<close>

definition comment_request :: request where
  "comment_request =
     \<lparr>rq_ID = 4, rq_Method = ''post_comment'', rq_Params = Some (JObj
        [(''owner'', JStr ''o''), (''repo'', JStr ''r''), (''number'', json_int 7), (''path'', JStr ''a.go''),
         (''side'', JStr ''RIGHT''), (''line'', json_int 3), (''body'', JStr ''why?'')])\<rparr>"

definition comment_params :: postCommentParams where
  "comment_params =
     \<lparr>pp_Owner = ''o'', pp_Repo = ''r'', pp_Number = 7, cp_Path = ''a.go'', cp_Side = ''RIGHT'', cp_Line = 3,
      cp_Body = ''why?'', cp_StartSide = [], cp_StartLine = 0, cp_InReplyTo = [], cp_ReviewID = [],
      cp_ExpectedHead = []\<rparr>"

lemma comment_frame_request:
  "frame_request (Line (json_text (request_json comment_request))) = Some comment_request"
proof -
  have "utf8_ok ''post_comment''" "utf8_ok ''id''" "utf8_ok ''method''" "utf8_ok ''params''"
    "utf8_ok ''owner''" "utf8_ok ''o''" "utf8_ok ''repo''" "utf8_ok ''r''" "utf8_ok ''number''"
    "utf8_ok ''path''" "utf8_ok ''a.go''" "utf8_ok ''side''" "utf8_ok ''RIGHT''" "utf8_ok ''line''"
    "utf8_ok ''body''" "utf8_ok ''why?''"
    by code_simp+
  then have "json_ok (request_json comment_request)" "json_depth (request_json comment_request) \<le> max_nesting"
    "in_int64 (rq_ID comment_request)"
    by (simp_all add: request_json_def comment_request_def json_int_def max_nesting_def in_int64_def
        min_int64_def max_int64_def)
  from decode_request_json [OF this] show ?thesis by (simp add: frame_request_def)
qed

lemma comment_request_runs:
  assumes "demo_PostComment ''o'' ''r'' 7 (comment_input comment_params) f = (Inr v, f')"
  shows "exec (run (NewRegistry (demo_deps je)) comment_request) f =
    ((\<lparr>rs_ID = 4, rs_Result = Some (RPostComment v), rs_Error = None\<rparr>,
      [request_line comment_request \<lparr>rs_ID = 4, rs_Result = Some (RPostComment v), rs_Error = None\<rparr>]), f')"
proof -
  let ?d = "demo_deps je"
  have "in_int64 7" "in_int64 3" by (simp_all add: in_int64_def min_int64_def max_int64_def)
  then have dec: "decode ?d (rq_Params comment_request) postCommentParams_fields zero_postComment =
      (retP comment_params :: (fixture, _) hsem)"
    by (simp add: decode_def comment_request_def comment_params_def postCommentParams_fields_def
        prParams_fields_def zero_postComment_def json_int_def find_field_def fld_def parse_int64_itoa)
  have "postComment ?d (rq_Params comment_request) =
      returning RPostComment (lift_err (atomP (demo_PostComment ''o'' ''r'' 7 (comment_input comment_params))))"
    unfolding postComment_def with_pr_def dec
    by (simp add: comment_params_def requirePR_def requireRepo_def validateAnchor_def validSide_def guardHead_def
        with_gh_def) (simp add: demo_deps_def demo_api_def)
  then have "exec (postComment ?d (rq_Params comment_request)) f = (Inr (RPostComment v), f')"
    using assms by (simp add: returning_def exec_bindP bindE_def exec_lift exec_retP atomP_def)
  moreover have "map_of (NewRegistry ?d) (rq_Method comment_request) = Some (postComment ?d)"
    by (simp add: NewRegistry_def comment_request_def)
  ultimately show ?thesis
    by (simp add: run_def exec_mapP settle_def deferred_def) (simp add: comment_request_def)
qed

theorem demo_consistent_witness:
  "\<exists>n st. steps (run (NewRegistry (demo_deps (\<lambda>_ _. []))))
       (Run_init [hello_frame 1, Line (json_text (request_json comment_request))] (newFixture 0)) n st \<and>
     sv_pc st = Returned \<and> map th_ThreadID (fx_threads (sv_gh st)) = [''PRRT_seed1'', ''PRRT_2''] \<and>
     distinct (map th_ThreadID (fx_threads (sv_gh st))) \<and> distinct (map th_ID (fx_threads (sv_gh st)))"
proof -
  let ?reg = "NewRegistry (demo_deps (\<lambda>_ _. []))" and ?f = "Line (json_text (request_json comment_request))"
  obtain v where hello: "run ?reg (hello_with 1) =
      Ret (\<lparr>rs_ID = 3, rs_Result = Some v, rs_Error = None\<rparr>,
        [request_line (hello_with 1) \<lparr>rs_ID = 3, rs_Result = Some v, rs_Error = None\<rparr>])"
    using hello_runs(2) by (fastforce simp: deferred_def)
  have spawn: "on_frame ?f True = (Spawn comment_request :: result_val action)"
    by (simp add: on_frame_request comment_frame_request dispatch_def) (simp add: comment_request_def)
  let ?inp = "comment_input comment_params"
  have none: "in_InReplyTo ?inp = []" by (simp add: comment_input_def comment_params_def)
  obtain p f' where post: "demo_PostComment ''o'' ''r'' 7 ?inp (newFixture 0) = (Inr p, f')"
    and f': "map th_ThreadID (fx_threads f') = [''PRRT_seed1'', ''PRRT_'' @ itoa 2]"
    using none by (auto simp: demo_PostComment_def newFixture_def new_thread_def nextID_def Let_def)
  have "itoa 2 = ''2''" by code_simp
  with f' have f': "map th_ThreadID (fx_threads f') = [''PRRT_seed1'', ''PRRT_2'']" by simp
  obtain r es where "exec (run ?reg comment_request) (newFixture 0) = ((r, es), f')"
    using comment_request_runs [OF post] by blast
  from two_frames_run [OF hello_runs(1) hello _ spawn this]
  obtain n st where run: "steps (run ?reg) (Run_init [hello_frame 1, ?f] (newFixture 0)) n st"
    "sv_pc st = Returned" and st: "sv_gh st = f'"
    by auto
  from demo_consistent [OF run(1)] have "distinct (map th_ThreadID (fx_threads f'))" "distinct (map th_ID (fx_threads f'))"
    by (simp_all add: st Let_def)
  with run st f' show ?thesis by (intro exI [of _ n] exI [of _ st]) simp
qed

lemma join_thread_mem:
  "join_thread i c ts = Some us \<Longrightarrow>
    \<exists>u \<in> set us. th_ThreadID u = i \<and> th_Comments u \<noteq> [] \<and> last (th_Comments u) = c"
  by (induction i c ts arbitrary: us rule: join_thread.induct) (auto split: if_splits)

lemma join_thread_none: "join_thread i c ts = None \<longleftrightarrow> i \<notin> th_ThreadID ` set ts"
  by (induction i c ts rule: join_thread.induct) auto

text \<open>The comment that \<open>demo_PostComment\<close> makes, and the thread it opens with it.\<close>

definition posted :: "PostCommentInput \<Rightarrow> fixture \<Rightarrow> ThreadComment" where
  "posted inp f = (let k = fx_seq f + 1 in
     \<lparr>tc_ID = 8000 + k, tc_NodeID = ''PRRC_'' @ itoa (8000 + k), tc_Author = viewer,
      tc_Body = in_Body inp, tc_CreatedAt = ago f 0, tc_DiffHunk = []\<rparr>)"

definition opened :: "PostCommentInput \<Rightarrow> fixture \<Rightarrow> Thread" where
  "opened inp f =
     new_thread\<lparr>th_ID := 8000 + (fx_seq f + 1), th_ThreadID := ''PRRT_'' @ itoa (2 + fx_seq f),
       th_Path := in_Path inp, th_Side := in_Side inp, th_Line := in_Line inp,
       th_StartSide := in_StartSide inp, th_StartLine := in_StartLine inp,
       th_IsPending := fx_reviewID f \<noteq> [], th_Comments := [posted inp f]\<rparr>"

lemma demo_PostComment_reply:
  assumes "in_InReplyTo inp \<noteq> []" and "join_thread (in_InReplyTo inp) (posted inp f) (fx_threads f) = Some us"
  shows "demo_PostComment owner repo n inp f =
    (Inr \<lparr>po_ID = 8000 + (fx_seq f + 1), po_ThreadID = in_InReplyTo inp, po_ReviewID = fx_reviewID f\<rparr>,
     f\<lparr>fx_seq := fx_seq f + 1, fx_threads := us\<rparr>)"
  using assms by (simp add: demo_PostComment_def nextID_def Let_def posted_def ago_def)

lemma demo_PostComment_new:
  assumes "in_InReplyTo inp = [] \<or> in_InReplyTo inp \<notin> th_ThreadID ` set (fx_threads f)"
  shows "demo_PostComment owner repo n inp f =
    (Inr \<lparr>po_ID = 8000 + (fx_seq f + 1), po_ThreadID = ''PRRT_'' @ itoa (2 + fx_seq f), po_ReviewID = fx_reviewID f\<rparr>,
     f\<lparr>fx_seq := 2 + fx_seq f, fx_threads := fx_threads f @ [opened inp f]\<rparr>)"
proof -
  have "in_InReplyTo inp \<noteq> [] \<Longrightarrow> join_thread (in_InReplyTo inp) c (fx_threads f) = None" for c
    using assms by (simp add: join_thread_none)
  then show ?thesis
    by (simp add: demo_PostComment_def nextID_def Let_def posted_def opened_def ago_def)
qed

lemma newest_posted:
  assumes "th_Comments u \<noteq> []" and "last (th_Comments u) = posted inp f"
  shows "th_NewestComment (with_newest u) =
    Some \<lparr>nc_NodeID = ''PRRC_'' @ itoa (8000 + (fx_seq f + 1)), nc_Body = in_Body inp\<rparr>"
  using assms by (simp add: with_newest_def posted_def Let_def)

lemma opened_simps [simp]:
  "th_Comments (opened inp f) = [posted inp f]"
  "th_ThreadID (opened inp f) = ''PRRT_'' @ itoa (2 + fx_seq f)"
  "th_IsPending (opened inp f) \<longleftrightarrow> fx_reviewID f \<noteq> []"
  by (simp_all add: opened_def)

lemma with_newest_simps [simp]:
  "th_ThreadID (with_newest t) = th_ThreadID t" "th_IsPending (with_newest t) = th_IsPending t"
  by (simp_all add: with_newest_def)

text \<open>What is posted shows.  After any comment the next \<open>get_threads\<close> lists the thread the answer
  names with that comment as its newest; a reply to a thread the fixture knows answers with that
  thread, and any other comment opens one, a draft exactly when a review is open, and the answer
  names the review.\<close>

theorem demo_comment_visible:
  "case demo_PostComment owner repo n inp f of
     (Inl e, f') \<Rightarrow> False
   | (Inr p, f') \<Rightarrow>
       (\<exists>us u. demo_GetThreads owner repo n f' = (Inr us, f') \<and> u \<in> set us \<and>
          th_ThreadID u = po_ThreadID p \<and>
          th_NewestComment u = Some \<lparr>nc_NodeID = ''PRRC_'' @ itoa (po_ID p), nc_Body = in_Body inp\<rparr> \<and>
          (if in_InReplyTo inp \<noteq> [] \<and> in_InReplyTo inp \<in> th_ThreadID ` set (fx_threads f)
           then po_ThreadID p = in_InReplyTo inp
           else th_IsPending u \<longleftrightarrow> fx_reviewID f \<noteq> [])) \<and>
       po_ReviewID p = fx_reviewID f"
proof (cases "in_InReplyTo inp \<noteq> [] \<and> in_InReplyTo inp \<in> th_ThreadID ` set (fx_threads f)")
  case True
  then obtain us where us: "join_thread (in_InReplyTo inp) (posted inp f) (fx_threads f) = Some us"
    using join_thread_none [of "in_InReplyTo inp" "posted inp f" "fx_threads f"] by fastforce
  then obtain u where u: "u \<in> set us" "th_ThreadID u = in_InReplyTo inp" "th_Comments u \<noteq> []"
    "last (th_Comments u) = posted inp f" using join_thread_mem by blast
  show ?thesis
    unfolding demo_PostComment_reply [OF conjunct1 [OF True] us] prod.case sum.case
    by (intro conjI exI [of _ "map with_newest us"] exI [of _ "with_newest u"])
      (use True u newest_posted [OF u(3,4)] in \<open>simp_all add: demo_GetThreads_def\<close>)
next
  case False
  then have new: "in_InReplyTo inp = [] \<or> in_InReplyTo inp \<notin> th_ThreadID ` set (fx_threads f)" by blast
  show ?thesis
    unfolding demo_PostComment_new [OF new] prod.case sum.case
    by (intro conjI exI [of _ "map with_newest (fx_threads f @ [opened inp f])"]
        exI [of _ "with_newest (opened inp f)"])
      (use new newest_posted [of "opened inp f" inp f] in
        \<open>auto simp: demo_GetThreads_def\<close>)
qed

text \<open>The numeric ids do collide: the first comment of a session has the id of the seeded one.\<close>

lemma demo_seed_id_reused:
  "in_InReplyTo inp = [] \<Longrightarrow>
    map tc_ID (concat (map th_Comments (fx_threads (snd (demo_PostComment owner repo n inp (newFixture now)))))) =
    [8001, 8001]"
  by (simp add: demo_PostComment_def newFixture_def new_thread_def nextID_def Let_def)

text \<open>And a lifecycle change answers with the state asked for, which the client would have
  normalised.\<close>

lemma demo_state_not_normalised:
  "fst (demo_SetPRState owner repo n ''ready'' f) = Inr \<lparr>ss_State = ''ready''\<rparr>"
  by (simp add: demo_SetPRState_def)

end
