(* ===== verification/Fixture_Store.thy ===== *)
theory Fixture_Store
  imports Fixture_Laws "HOL-Library.Sublist"
begin

text \<open>
  The demo's fixture as Go stores it.  In \<open>Fixture\<close> slices are values; here the comments of a thread
  are a slice of an array in a heap, and \<open>append\<close> writes in place as long as the capacity allows.
  What \<open>get_threads\<close> returns shares those arrays with the fixture.  The theory shows that the fixture of values is
  what these operations implement, that a result reads the same later as long as no comment is
  deleted, and how a deletion shows in a result that is still to be written.
\<close>

section \<open>Slices (Go's append)\<close>

record slice =
  sl_arr :: nat
  sl_len :: nat

type_synonym heap = "ThreadComment list list"

definition elems :: "heap \<Rightarrow> slice \<Rightarrow> ThreadComment list" where
  "elems hp s = take (sl_len s) (hp ! sl_arr s)"

text \<open>
  \<open>append\<close> to the first \<open>n\<close> cells of an array: in place when the new elements fit, otherwise in a new
  array whose capacity the language leaves open (\<open>grow\<close>).
\<close>

definition fits :: "'a list \<Rightarrow> nat \<Rightarrow> 'a list \<Rightarrow> bool" where
  "fits arr n vs \<longleftrightarrow> n + length vs \<le> length arr"

definition in_place :: "'a list \<Rightarrow> nat \<Rightarrow> 'a list \<Rightarrow> 'a list" where
  "in_place arr n vs = take n arr @ vs @ drop (n + length vs) arr"

definition fresh_array :: "(nat \<Rightarrow> nat) \<Rightarrow> 'a \<Rightarrow> 'a list \<Rightarrow> nat \<Rightarrow> 'a list \<Rightarrow> 'a list" where
  "fresh_array grow zero arr n vs =
     take n arr @ vs @ replicate (grow (n + length vs) - (n + length vs)) zero"

definition blank_comment :: ThreadComment where
  "blank_comment =
     \<lparr>tc_ID = 0, tc_NodeID = [], tc_Author = [], tc_Body = [], tc_CreatedAt = [], tc_DiffHunk = []\<rparr>"

definition go_append :: "(nat \<Rightarrow> nat) \<Rightarrow> heap \<Rightarrow> slice \<Rightarrow> ThreadComment list \<Rightarrow> slice \<times> heap" where
  "go_append grow hp s vs =
     (let arr = hp ! sl_arr s; m = sl_len s + length vs
      in if fits arr (sl_len s) vs
         then (s\<lparr>sl_len := m\<rparr>, hp[sl_arr s := in_place arr (sl_len s) vs])
         else (\<lparr>sl_arr = length hp, sl_len = m\<rparr>, hp @ [fresh_array grow blank_comment arr (sl_len s) vs]))"

section \<open>State\<close>

text \<open>A thread: its fields other than the comments, and the slice of those.\<close>

record cell =
  ce_Thread :: Thread
  ce_Comments :: slice

text \<open>The backing array of \<open>f.threads\<close>, which nothing else shares, its length, and the other fields.\<close>

record store =
  so_heap :: heap
  so_array :: "cell list"
  so_len :: nat
  so_fields :: fixture

definition cells :: "store \<Rightarrow> cell list" where
  "cells s = take (so_len s) (so_array s)"

definition load :: "heap \<Rightarrow> cell \<Rightarrow> Thread" where
  "load hp c = (ce_Thread c)\<lparr>th_Comments := elems hp (ce_Comments c)\<rparr>"

text \<open>The fixture of values a store stands for.\<close>

definition fixture_of :: "store \<Rightarrow> fixture" where
  "fixture_of s = (so_fields s)\<lparr>fx_threads := map (load (so_heap s)) (cells s)\<rparr>"

text \<open>No two threads share an array, and every slice lies within its array.\<close>

definition within_array :: "heap \<Rightarrow> slice \<Rightarrow> bool" where
  "within_array hp s \<longleftrightarrow> sl_arr s < length hp \<and> sl_len s \<le> length (hp ! sl_arr s)"

definition owned :: "store \<Rightarrow> bool" where
  "owned s \<longleftrightarrow> so_len s \<le> length (so_array s) \<and>
     (\<forall>c \<in> set (cells s). within_array (so_heap s) (ce_Comments c)) \<and>
     distinct (map (sl_arr \<circ> ce_Comments) (cells s))"

definition newStore :: "int \<Rightarrow> store" where
  "newStore now =
     (let f = newFixture now
      in \<lparr>so_heap = map th_Comments (fx_threads f),
          so_array = [\<lparr>ce_Thread = (fx_threads f ! 0)\<lparr>th_Comments := []\<rparr>,
            ce_Comments = \<lparr>sl_arr = 0, sl_len = length (th_Comments (fx_threads f ! 0))\<rparr>\<rparr>],
          so_len = 1, so_fields = f\<lparr>fx_threads := []\<rparr>\<rparr>)"

section \<open>Operations\<close>

fun first_index :: "('a \<Rightarrow> bool) \<Rightarrow> 'a list \<Rightarrow> nat option" where
  "first_index P [] = None"
| "first_index P (x # xs) = (if P x then Some 0 else map_option Suc (first_index P xs))"

text \<open>\<open>f.threads = append(f.threads, \<dots>)\<close> and \<open>append(f.threads[:ti], f.threads[ti+1:]...)\<close>.\<close>

definition blank_cell :: cell where
  "blank_cell = \<lparr>ce_Thread = new_thread, ce_Comments = \<lparr>sl_arr = 0, sl_len = 0\<rparr>\<rparr>"

definition add_cell :: "(nat \<Rightarrow> nat) \<Rightarrow> cell \<Rightarrow> store \<Rightarrow> store" where
  "add_cell grow c s =
     (if fits (so_array s) (so_len s) [c]
      then s\<lparr>so_array := in_place (so_array s) (so_len s) [c], so_len := so_len s + 1\<rparr>
      else s\<lparr>so_array := fresh_array grow blank_cell (so_array s) (so_len s) [c], so_len := so_len s + 1\<rparr>)"

definition drop_cell :: "nat \<Rightarrow> store \<Rightarrow> store" where
  "drop_cell ti s =
     (let vs = drop (Suc ti) (cells s)
      in s\<lparr>so_array := in_place (so_array s) ti vs, so_len := ti + length vs\<rparr>)"

definition st_GetThreads :: "store \<Rightarrow> cell list" where
  "st_GetThreads s =
     map (\<lambda>c. c\<lparr>ce_Thread := (with_newest (load (so_heap s) c))\<lparr>th_Comments := []\<rparr>\<rparr>) (cells s)"

definition st_StartReview :: "store \<Rightarrow> store" where
  "st_StartReview s = s\<lparr>so_fields := snd (demo_StartReview [] [] 0 (so_fields s))\<rparr>"

definition publish :: "cell \<Rightarrow> cell" where
  "publish c = c\<lparr>ce_Thread := (ce_Thread c)\<lparr>th_IsPending := False\<rparr>\<rparr>"

definition st_SubmitReview :: "store \<Rightarrow> store" where
  "st_SubmitReview s =
     s\<lparr>so_array := map publish (cells s) @ drop (so_len s) (so_array s),
       so_fields := snd (nextID ((so_fields s)\<lparr>fx_reviewID := []\<rparr>))\<rparr>"

text \<open>
  The loop of \<open>DiscardReview\<close>: it reads the threads from \<open>i\<close> on and writes those it keeps to the same
  array from \<open>k\<close> on.
\<close>

fun keep_loop :: "nat \<Rightarrow> nat \<Rightarrow> nat \<Rightarrow> cell list \<Rightarrow> nat \<times> cell list" where
  "keep_loop 0 i k arr = (k, arr)"
| "keep_loop (Suc m) i k arr =
     (let c = arr ! i
      in if th_IsPending (ce_Thread c) then keep_loop m (Suc i) k arr
         else keep_loop m (Suc i) (Suc k) (arr[k := c]))"

definition st_DiscardReview :: "store \<Rightarrow> store" where
  "st_DiscardReview s =
     (case keep_loop (so_len s) 0 0 (so_array s) of
        (k, arr) \<Rightarrow> s\<lparr>so_array := arr, so_len := k, so_fields := (so_fields s)\<lparr>fx_reviewID := []\<rparr>\<rparr>)"

definition st_PostComment :: "(nat \<Rightarrow> nat) \<Rightarrow> PostCommentInput \<Rightarrow> store \<Rightarrow> store" where
  "st_PostComment grow inp s =
     (case nextID (so_fields s) of (k, f1) \<Rightarrow>
        let commentID = 8000 + k;
            comment = \<lparr>tc_ID = commentID, tc_NodeID = ''PRRC_'' @ itoa commentID, tc_Author = viewer,
                       tc_Body = in_Body inp, tc_CreatedAt = ago f1 0, tc_DiffHunk = []\<rparr>;
            joins = (if in_InReplyTo inp = [] then None
                     else first_index (\<lambda>c. th_ThreadID (ce_Thread c) = in_InReplyTo inp) (cells s))
        in (case joins of
              Some i \<Rightarrow>
                (case go_append grow (so_heap s) (ce_Comments (so_array s ! i)) [comment] of (sl, hp) \<Rightarrow>
                   s\<lparr>so_heap := hp, so_array := (so_array s)[i := (so_array s ! i)\<lparr>ce_Comments := sl\<rparr>],
                     so_fields := f1\<rparr>)
            | None \<Rightarrow>
                (case nextID f1 of (j, f2) \<Rightarrow>
                   let t = new_thread\<lparr>th_ID := commentID, th_ThreadID := ''PRRT_'' @ itoa j,
                         th_Path := in_Path inp, th_Side := in_Side inp, th_Line := in_Line inp,
                         th_StartSide := in_StartSide inp, th_StartLine := in_StartLine inp,
                         th_IsPending := fx_reviewID f2 \<noteq> []\<rparr>;
                       c = \<lparr>ce_Thread = t, ce_Comments = \<lparr>sl_arr = length (so_heap s), sl_len = 1\<rparr>\<rparr>
                   in add_cell grow c (s\<lparr>so_heap := so_heap s @ [[comment]], so_fields := f2\<rparr>))))"

definition st_DeleteComment :: "(nat \<Rightarrow> nat) \<Rightarrow> string \<Rightarrow> store \<Rightarrow> store" where
  "st_DeleteComment grow commentID s =
     (let named = (\<lambda>cm. tc_NodeID cm = commentID)
      in case first_index (\<lambda>c. \<exists>cm \<in> set (elems (so_heap s) (ce_Comments c)). named cm) (cells s) of
           None \<Rightarrow> s
         | Some ti \<Rightarrow>
             let c = so_array s ! ti; cs = elems (so_heap s) (ce_Comments c)
             in (case first_index named cs of
                   None \<Rightarrow> s
                 | Some 0 \<Rightarrow> drop_cell ti s
                 | Some (Suc ci) \<Rightarrow>
                     (case go_append grow (so_heap s) ((ce_Comments c)\<lparr>sl_len := Suc ci\<rparr>) (drop (ci + 2) cs) of
                        (sl, hp) \<Rightarrow>
                          s\<lparr>so_heap := hp, so_array := (so_array s)[ti := c\<lparr>ce_Comments := sl\<rparr>]\<rparr>)))"

definition st_ResolveThread :: "string \<Rightarrow> bool \<Rightarrow> store \<Rightarrow> store" where
  "st_ResolveThread threadID v s =
     (case first_index (\<lambda>c. th_ThreadID (ce_Thread c) = threadID) (cells s) of
        None \<Rightarrow> s
      | Some i \<Rightarrow>
          let c = so_array s ! i
          in s\<lparr>so_array := (so_array s)[i := c\<lparr>ce_Thread := (ce_Thread c)\<lparr>th_Resolved := v\<rparr>\<rparr>]\<rparr>)"

text \<open>
  The two operations that leave the threads alone.  \<open>f.comments\<close> only grows behind what a result has of
  it, and stays a value here.
\<close>

definition st_PostIssueComment :: "string \<Rightarrow> store \<Rightarrow> store" where
  "st_PostIssueComment body s =
     s\<lparr>so_fields := snd (demo_PostIssueComment [] [] 0 body (so_fields s))\<rparr>"

definition st_SetFileViewed :: "string \<Rightarrow> bool \<Rightarrow> store \<Rightarrow> store" where
  "st_SetFileViewed path viewed s =
     s\<lparr>so_fields := snd (demo_SetFileViewed [] [] 0 path viewed (so_fields s))\<rparr>"

text \<open>The operations that change the fixture, as both fixtures run them.\<close>

datatype demo_op =
    StartOp
  | SubmitOp
  | DiscardOp
  | PostOp PostCommentInput
  | DeleteOp string
  | ResolveOp string bool
  | IssueOp string
  | ViewedOp string bool

fun store_op :: "(nat \<Rightarrow> nat) \<Rightarrow> demo_op \<Rightarrow> store \<Rightarrow> store" where
  "store_op grow StartOp = st_StartReview"
| "store_op grow SubmitOp = st_SubmitReview"
| "store_op grow DiscardOp = st_DiscardReview"
| "store_op grow (PostOp inp) = st_PostComment grow inp"
| "store_op grow (DeleteOp i) = st_DeleteComment grow i"
| "store_op grow (ResolveOp i v) = st_ResolveThread i v"
| "store_op grow (IssueOp body) = st_PostIssueComment body"
| "store_op grow (ViewedOp path v) = st_SetFileViewed path v"

fun value_op :: "demo_op \<Rightarrow> fixture \<Rightarrow> fixture" where
  "value_op StartOp f = snd (demo_StartReview [] [] 0 f)"
| "value_op SubmitOp f = snd (demo_SubmitReview [] [] [] f)"
| "value_op DiscardOp f = snd (demo_DiscardReview [] f)"
| "value_op (PostOp inp) f = snd (demo_PostComment [] [] 0 inp f)"
| "value_op (DeleteOp i) f = snd (demo_DeleteComment i f)"
| "value_op (ResolveOp i v) f = snd (demo_ResolveThread i v f)"
| "value_op (IssueOp body) f = snd (demo_PostIssueComment [] [] 0 body f)"
| "value_op (ViewedOp path v) f = snd (demo_SetFileViewed [] [] 0 path v f)"

definition stored :: "(nat \<Rightarrow> nat) \<Rightarrow> demo_op list \<Rightarrow> store \<Rightarrow> store" where
  "stored grow ops s = fold (store_op grow) ops s"

section \<open>Slices as values\<close>

lemma first_index_Some:
  "first_index P xs = Some i \<Longrightarrow> i < length xs \<and> P (xs ! i)"
  by (induction P xs arbitrary: i rule: first_index.induct) (auto split: if_splits)

lemma first_index_None: "first_index P xs = None \<longleftrightarrow> (\<forall>x \<in> set xs. \<not> P x)"
  by (induction P xs rule: first_index.induct) auto

lemma first_index_map: "first_index P (map f xs) = first_index (P \<circ> f) xs"
  by (induction xs) auto

lemma in_place_shape:
  "fits arr n vs \<Longrightarrow> length (in_place arr n vs) = length arr \<and>
    take (n + length vs) (in_place arr n vs) = take n arr @ vs \<and>
    (m \<le> n \<longrightarrow> take m (in_place arr n vs) = take m arr)"
  by (cases vs) (auto simp: in_place_def fits_def min_def)

lemma fresh_array_shape:
  "n \<le> length arr \<Longrightarrow> n + length vs \<le> length (fresh_array grow z arr n vs) \<and>
    take (n + length vs) (fresh_array grow z arr n vs) = take n arr @ vs"
  by (auto simp: fresh_array_def)

text \<open>
  What \<open>append\<close> does to the slice itself, to a slice of another array, and to a shorter one of the
  same.
\<close>

lemma go_append_self:
  assumes "go_append grow hp s vs = (s', hp')" and "within_array hp s"
  shows "elems hp' s' = elems hp s @ vs" and "within_array hp' s'" and "sl_len s' = sl_len s + length vs"
    and "sl_arr s' = sl_arr s \<or> sl_arr s' = length hp" and "length hp \<le> length hp'"
  using assms in_place_shape [of "hp ! sl_arr s" "sl_len s" vs]
    fresh_array_shape [of "sl_len s" "hp ! sl_arr s" vs grow blank_comment]
  by (auto simp: go_append_def Let_def fits_def elems_def within_array_def split: if_splits)

lemma go_append_other:
  assumes "go_append grow hp s vs = (s', hp')" and "within_array hp t"
    and "sl_arr t = sl_arr s \<Longrightarrow> sl_len t \<le> sl_len s"
  shows "elems hp' t = elems hp t \<and> within_array hp' t"
proof (cases "sl_arr t = sl_arr s")
  case True
  with assms in_place_shape [of "hp ! sl_arr s" "sl_len s" vs "sl_len t"] show ?thesis
    by (auto simp: go_append_def Let_def elems_def within_array_def nth_append split: if_splits)
next
  case False
  with assms show ?thesis
    by (auto simp: go_append_def Let_def elems_def within_array_def nth_append split: if_splits)
qed

section \<open>The operations of the fixture of values, by index\<close>

lemma join_thread_index:
  "join_thread i c ts =
    map_option (\<lambda>k. ts[k := (ts ! k)\<lparr>th_Comments := th_Comments (ts ! k) @ [c]\<rparr>])
      (first_index (\<lambda>t. th_ThreadID t = i) ts)"
  by (induction i c ts rule: join_thread.induct) (auto simp: option.map_comp comp_def)

lemma set_resolved_index:
  "set_resolved i v ts =
    (case first_index (\<lambda>t. th_ThreadID t = i) ts of
       None \<Rightarrow> ts
     | Some k \<Rightarrow> ts[k := (ts ! k)\<lparr>th_Resolved := v\<rparr>])"
  by (induction i v ts rule: set_resolved.induct) (auto split: option.split)

lemma drop_comment_index:
  "drop_comment i cs =
    (case first_index (\<lambda>c. tc_NodeID c = i) cs of
       None \<Rightarrow> cs
     | Some k \<Rightarrow> take k cs @ drop (Suc k) cs)"
  by (induction i cs rule: drop_comment.induct) (auto split: option.split)

lemma delete_comment_index:
  "delete_comment i ts =
    (case first_index (names_comment i) ts of
       None \<Rightarrow> ts
     | Some k \<Rightarrow>
         if tc_NodeID (hd (th_Comments (ts ! k))) = i then take k ts @ drop (Suc k) ts
         else ts[k := (ts ! k)\<lparr>th_Comments := drop_comment i (th_Comments (ts ! k))\<rparr>])"
  by (induction i ts rule: delete_comment.induct) (auto split: option.split)

section \<open>Steps of the store\<close>

lemma load_simps [simp]:
  "th_Comments (load hp c) = elems hp (ce_Comments c)"
  "th_ThreadID (load hp c) = th_ThreadID (ce_Thread c)"
  "th_IsPending (load hp c) = th_IsPending (ce_Thread c)"
  by (simp_all add: load_def)

lemma ownedD:
  assumes "owned s" and "i < length (cells s)"
  shows "i < so_len s" and "i < length (so_array s)" and "so_array s ! i = cells s ! i"
    and "within_array (so_heap s) (ce_Comments (cells s ! i))"
  using assms nth_mem [OF assms(2)] by (auto simp: owned_def cells_def)

text \<open>One thread changes, its comments in their own array or in a new one.\<close>

lemma set_cell:
  assumes s: "owned s" "i < length (cells s)" and w: "within_array hp (ce_Comments c)"
    and own: "sl_arr (ce_Comments c) = sl_arr (ce_Comments (cells s ! i)) \<or>
      sl_arr (ce_Comments c) = length (so_heap s)"
    and others: "\<And>t. within_array (so_heap s) t \<Longrightarrow> sl_arr t \<noteq> sl_arr (ce_Comments (cells s ! i)) \<Longrightarrow>
      elems hp t = elems (so_heap s) t \<and> within_array hp t"
  defines "s' \<equiv> s\<lparr>so_heap := hp, so_array := (so_array s)[i := c]\<rparr>"
  shows "owned s' \<and> map (load hp) (cells s') = (map (load (so_heap s)) (cells s))[i := load hp c]"
proof -
  have cells: "cells s' = (cells s)[i := c]"
    by (simp add: s'_def cells_def take_update_swap)
  have dist: "distinct (map (sl_arr \<circ> ce_Comments) (cells s))" using s(1) by (simp add: owned_def)
  have old: "within_array (so_heap s) (ce_Comments (cells s ! j))" if "j < length (cells s)" for j
    using ownedD(4) [OF s(1) that] .
  have far: "sl_arr (ce_Comments (cells s ! j)) \<noteq> sl_arr (ce_Comments (cells s ! i))"
    if "j < length (cells s)" "j \<noteq> i" for j
    using nth_eq_iff_index_eq [OF dist, of j i] that s(2) by simp
  have other: "elems hp (ce_Comments (cells s ! j)) = elems (so_heap s) (ce_Comments (cells s ! j)) \<and>
      within_array hp (ce_Comments (cells s ! j))" if "j < length (cells s)" "j \<noteq> i" for j
    using others [OF old [OF that(1)] far [OF that]] .
  have "distinct (map (sl_arr \<circ> ce_Comments) (cells s'))"
    unfolding cells map_update by (rule distinct_list_update [OF dist])
      (use own s(2) old in \<open>force simp: within_array_def in_set_conv_nth\<close>)
  moreover have "\<forall>d \<in> set (cells s'). within_array hp (ce_Comments d)"
    unfolding cells all_set_conv_all_nth using w other s(2) by (auto simp: nth_list_update)
  ultimately have "owned s'" using s(1) by (auto simp: owned_def s'_def)
  moreover have "map (load hp) (cells s') = (map (load (so_heap s)) (cells s))[i := load hp c]"
    unfolding cells by (rule nth_equalityI) (use other s(2) in \<open>auto simp: nth_list_update load_def\<close>)
  ultimately show ?thesis by blast
qed

text \<open>A thread is added, with a new array of its own.\<close>

lemma add_cell_cells:
  assumes "so_len s \<le> length (so_array s)"
  shows "cells (add_cell grow c s) = cells s @ [c]"
    and "so_len (add_cell grow c s) \<le> length (so_array (add_cell grow c s))"
    and "so_heap (add_cell grow c s) = so_heap s" and "so_fields (add_cell grow c s) = so_fields s"
  using assms in_place_shape [of "so_array s" "so_len s" "[c]"]
    fresh_array_shape [of "so_len s" "so_array s" "[c]" grow blank_cell]
  by (auto simp: add_cell_def cells_def fits_def)

lemma within_array_more: "within_array hp t \<Longrightarrow> elems (hp @ new) t = elems hp t \<and> within_array (hp @ new) t"
  by (auto simp: within_array_def elems_def nth_append)

lemma new_cell:
  assumes s: "owned s" and c: "ce_Comments c = \<lparr>sl_arr = length (so_heap s), sl_len = 1\<rparr>"
    and s'_def: "s' = add_cell grow c (s\<lparr>so_heap := so_heap s @ [[cm]], so_fields := f\<rparr>)"
  shows "owned s' \<and> so_fields s' = f \<and>
    map (load (so_heap s')) (cells s') =
      map (load (so_heap s)) (cells s) @ [(ce_Thread c)\<lparr>th_Comments := [cm]\<rparr>]"
proof -
  let ?hp = "so_heap s @ [[cm]]"
  note added = add_cell_cells [of "s\<lparr>so_heap := ?hp, so_fields := f\<rparr>" grow c]
  have len: "so_len s \<le> length (so_array s)" using s by (simp add: owned_def)
  then have s': "cells s' = cells s @ [c]" "so_len s' \<le> length (so_array s')" "so_heap s' = ?hp" "so_fields s' = f"
    using added by (simp_all add: s'_def cells_def)
  have old: "within_array (so_heap s) (ce_Comments d)" if "d \<in> set (cells s)" for d
    using s that by (simp add: owned_def)
  then have "length (so_heap s) \<notin> set (map (sl_arr \<circ> ce_Comments) (cells s))"
    by (fastforce simp: within_array_def)
  moreover have "within_array ?hp (ce_Comments c)" by (simp add: within_array_def c)
  ultimately have "owned s'"
    using s s' within_array_more [OF old, of _ "[[cm]]"] by (auto simp: owned_def c)
  moreover have "map (load ?hp) (cells s) = map (load (so_heap s)) (cells s)"
    using within_array_more [OF old] by (simp add: load_def)
  ultimately show ?thesis using s' by (simp add: load_def elems_def c)
qed

text \<open>A thread is taken out, the later ones moved up.\<close>

lemma drop_cell_cells:
  assumes "owned s" and "ti < length (cells s)"
  shows "cells (drop_cell ti s) = take ti (cells s) @ drop (Suc ti) (cells s)"
    and "so_len (drop_cell ti s) \<le> length (so_array (drop_cell ti s))"
    and "so_heap (drop_cell ti s) = so_heap s" and "so_fields (drop_cell ti s) = so_fields s"
proof -
  have len: "so_len s \<le> length (so_array s)" "ti < so_len s" using assms by (simp_all add: owned_def cells_def)
  then have "fits (so_array s) ti (drop (Suc ti) (cells s))" by (simp add: fits_def cells_def)
  from in_place_shape [OF this] len
  show "cells (drop_cell ti s) = take ti (cells s) @ drop (Suc ti) (cells s)"
    "so_len (drop_cell ti s) \<le> length (so_array (drop_cell ti s))"
    by (simp_all add: drop_cell_def cells_def Let_def)
qed (simp_all add: drop_cell_def Let_def)

text \<open>Fewer threads are still apart.\<close>

lemma subseq_distinct: "subseq xs ys \<Longrightarrow> distinct ys \<Longrightarrow> distinct xs"
  by (induction rule: list_emb.induct) (auto dest: list_emb_set)

lemma owned_subseq:
  assumes "owned s" and "subseq (cells s') (cells s)" and "so_heap s' = so_heap s"
    and "so_len s' \<le> length (so_array s')"
  shows "owned s'"
  using assms subseq_map [OF assms(2), of "sl_arr \<circ> ce_Comments"]
  by (auto simp: owned_def dest: list_emb_set [OF assms(2)] subseq_distinct)

lemma keep_loop_keeps:
  "k \<le> i \<Longrightarrow> i + m \<le> length arr \<Longrightarrow> keep_loop m i k arr = (k', arr') \<Longrightarrow>
    length arr' = length arr \<and> k' \<le> i + m \<and>
    take k' arr' = take k arr @ filter (\<lambda>c. \<not> th_IsPending (ce_Thread c)) (take m (drop i arr))"
proof (induction m i k arr rule: keep_loop.induct)
  case (2 m i k arr)
  let ?c = "arr ! i"
  have rest: "take (Suc m) (drop i arr) = ?c # take m (drop (Suc i) arr)"
    using 2 by (simp add: Cons_nth_drop_Suc [symmetric])
  show ?case
  proof (cases "th_IsPending (ce_Thread ?c)")
    case True
    with 2 rest show ?thesis by (simp add: Let_def)
  next
    case False
    have "take (Suc k) (arr[k := ?c]) = take k arr @ [?c]"
      using 2(3,4) by (simp add: take_Suc_conv_app_nth)
    moreover have "drop (Suc i) (arr[k := ?c]) = drop (Suc i) arr" using 2(3) by simp
    ultimately show ?thesis using False 2(2) [OF refl False] 2(3-) rest by (simp add: Let_def)
  qed
qed auto

lemma subseq_skip: "subseq (take i xs @ drop (Suc i) xs) xs"
proof -
  have "subseq (drop (Suc i) xs) (drop i xs)"
    using suffix_imp_subseq [OF suffix_drop [of 1 "drop i xs"]] by simp
  then have "subseq (take i xs @ drop (Suc i) xs) (take i xs @ drop i xs)" by (simp only: subseq_append')
  then show ?thesis by simp
qed

section \<open>Each operation\<close>

lemma cells_index: "first_index P (cells s) = Some i \<Longrightarrow> i < length (cells s) \<and> P (cells s ! i)"
  by (rule first_index_Some)

lemma threads_index:
  "first_index Q (map (load hp) cs) = first_index (\<lambda>c. Q (load hp c)) cs"
  by (simp add: first_index_map comp_def)

lemma fixture_of_fields [simp]:
  "fx_reviewID (fixture_of s) = fx_reviewID (so_fields s)" "fx_seq (fixture_of s) = fx_seq (so_fields s)"
  "fx_now (fixture_of s) = fx_now (so_fields s)" "fx_comments (fixture_of s) = fx_comments (so_fields s)"
  "fx_viewed (fixture_of s) = fx_viewed (so_fields s)"
  "fx_threads (fixture_of s) = map (load (so_heap s)) (cells s)"
  by (simp_all add: fixture_of_def)

definition implements :: "(store \<Rightarrow> store) \<Rightarrow> (fixture \<Rightarrow> fixture) \<Rightarrow> bool" where
  "implements g f \<longleftrightarrow> (\<forall>s. owned s \<longrightarrow> owned (g s) \<and> fixture_of (g s) = f (fixture_of s))"

lemma start_implements: "implements (store_op grow StartOp) (value_op StartOp)"
  by (auto simp: implements_def st_StartReview_def demo_StartReview_def nextID_def fixture_of_def owned_def
      cells_def Let_def)

lemma issue_implements: "implements (store_op grow (IssueOp body)) (value_op (IssueOp body))"
  by (auto simp: implements_def st_PostIssueComment_def demo_PostIssueComment_def nextID_def fixture_of_def
      owned_def cells_def ago_def Let_def)

lemma viewed_implements: "implements (store_op grow (ViewedOp path v)) (value_op (ViewedOp path v))"
  by (auto simp: implements_def st_SetFileViewed_def demo_SetFileViewed_def fixture_of_def owned_def cells_def
      Let_def)

lemma submit_implements: "implements (store_op grow SubmitOp) (value_op SubmitOp)"
proof -
  have "cells (st_SubmitReview s) = map publish (cells s)" if "owned s" for s
    using that by (simp add: st_SubmitReview_def cells_def owned_def)
  moreover have "load hp (publish c) = (load hp c)\<lparr>th_IsPending := False\<rparr>" for hp c
    by (simp add: load_def publish_def)
  moreover have "length (cells s) = so_len s" if "owned s" for s
    using that by (simp add: owned_def cells_def)
  moreover have "ce_Comments (publish c) = ce_Comments c" for c by (simp add: publish_def)
  ultimately show ?thesis
    by (simp add: implements_def demo_SubmitReview_def nextID_def fixture_of_def owned_def comp_def Let_def)
      (simp add: st_SubmitReview_def nextID_def Let_def)
qed

lemma discard_implements: "implements (store_op grow DiscardOp) (value_op DiscardOp)"
proof -
  { fix s
    assume s: "owned s"
    obtain k arr where loop: "keep_loop (so_len s) 0 0 (so_array s) = (k, arr)" by fastforce
    let ?s = "st_DiscardReview s"
    have s': "?s = s\<lparr>so_array := arr, so_len := k, so_fields := (so_fields s)\<lparr>fx_reviewID := []\<rparr>\<rparr>"
      by (simp add: st_DiscardReview_def loop)
    have c: "cells ?s = filter (\<lambda>c. \<not> th_IsPending (ce_Thread c)) (cells s)" "k \<le> length arr"
      using keep_loop_keeps [OF _ _ loop] s by (auto simp: s' cells_def owned_def)
    have "owned ?s" by (rule owned_subseq [OF s]) (simp_all add: c, simp_all add: s' c)
    moreover have "fixture_of ?s = snd (demo_DiscardReview [] (fixture_of s))"
      by (simp add: fixture_of_def demo_DiscardReview_def c filter_map comp_def) (simp add: s')
    ultimately have "owned ?s \<and> fixture_of ?s = snd (demo_DiscardReview [] (fixture_of s))" by blast }
  then show ?thesis by (simp add: implements_def)
qed

lemma load_resolved:
  "load hp (c\<lparr>ce_Thread := (ce_Thread c)\<lparr>th_Resolved := v\<rparr>\<rparr>) = (load hp c)\<lparr>th_Resolved := v\<rparr>"
  by (simp add: load_def)

lemma load_comments:
  "load hp (c\<lparr>ce_Comments := sl\<rparr>) = (load hp' c)\<lparr>th_Comments := elems hp sl\<rparr>"
  by (simp add: load_def)

lemma resolve_implements: "implements (store_op grow (ResolveOp i v)) (value_op (ResolveOp i v))"
proof -
  { fix s
    assume s: "owned s"
    have "owned (st_ResolveThread i v s) \<and>
        fixture_of (st_ResolveThread i v s) = snd (demo_ResolveThread i v (fixture_of s))"
    proof (cases "first_index (\<lambda>c. th_ThreadID (ce_Thread c) = i) (cells s)")
      case None
      with s show ?thesis
        by (simp add: st_ResolveThread_def demo_ResolveThread_def set_resolved_index threads_index fixture_of_def)
    next
      case (Some k)
      then have k: "k < length (cells s)" by (blast dest: cells_index)
      let ?c = "cells s ! k" and ?c' = "(cells s ! k)\<lparr>ce_Thread := (ce_Thread (cells s ! k))\<lparr>th_Resolved := v\<rparr>\<rparr>"
      have s': "st_ResolveThread i v s = s\<lparr>so_heap := so_heap s, so_array := (so_array s)[k := ?c']\<rparr>"
        using Some ownedD(3) [OF s k] by (simp add: st_ResolveThread_def Let_def)
      have "owned (st_ResolveThread i v s) \<and> map (load (so_heap s)) (cells (st_ResolveThread i v s)) =
          (map (load (so_heap s)) (cells s))[k := load (so_heap s) ?c']"
        unfolding s' by (rule set_cell [OF s k]) (use ownedD(4) [OF s k] in simp_all)
      then show ?thesis
        using Some k
        by (simp add: demo_ResolveThread_def set_resolved_index threads_index fixture_of_def load_resolved)
          (simp add: s')
    qed }
  then show ?thesis by (simp add: implements_def)
qed

lemma fixture_threads_eq:
  "so_fields s' = f \<Longrightarrow> map (load (so_heap s')) (cells s') = ts \<Longrightarrow> fixture_of s' = f\<lparr>fx_threads := ts\<rparr>"
  by (simp add: fixture_of_def)

lemma posted_fields: "posted inp (fixture_of s) = posted inp (so_fields s)"
  by (simp add: posted_def ago_def Let_def)

lemma st_PostComment_reply:
  assumes "owned s" and "in_InReplyTo inp \<noteq> []"
    and "first_index (\<lambda>c. th_ThreadID (ce_Thread c) = in_InReplyTo inp) (cells s) = Some k"
    and "go_append grow (so_heap s) (ce_Comments (cells s ! k)) [posted inp (so_fields s)] = (sl, hp)"
  shows "st_PostComment grow inp s =
    s\<lparr>so_heap := hp, so_array := (so_array s)[k := (cells s ! k)\<lparr>ce_Comments := sl\<rparr>],
      so_fields := (so_fields s)\<lparr>fx_seq := fx_seq (so_fields s) + 1\<rparr>\<rparr>"
proof -
  have "k < length (cells s)" using assms(3) by (blast dest: cells_index)
  with assms ownedD(3) [OF assms(1)] show ?thesis
    by (simp add: st_PostComment_def nextID_def Let_def posted_def ago_def)
qed

lemma st_PostComment_new:
  assumes "in_InReplyTo inp = [] \<or>
    first_index (\<lambda>c. th_ThreadID (ce_Thread c) = in_InReplyTo inp) (cells s) = None"
  shows "st_PostComment grow inp s =
    add_cell grow \<lparr>ce_Thread = (opened inp (so_fields s))\<lparr>th_Comments := []\<rparr>,
        ce_Comments = \<lparr>sl_arr = length (so_heap s), sl_len = 1\<rparr>\<rparr>
      (s\<lparr>so_heap := so_heap s @ [[posted inp (so_fields s)]],
         so_fields := (so_fields s)\<lparr>fx_seq := 2 + fx_seq (so_fields s)\<rparr>\<rparr>)"
  using assms by (auto simp: st_PostComment_def nextID_def Let_def posted_def opened_def ago_def new_thread_def)

lemma post_reply_implements:
  assumes s: "owned s" and "in_InReplyTo inp \<noteq> []"
    and "first_index (\<lambda>c. th_ThreadID (ce_Thread c) = in_InReplyTo inp) (cells s) = Some k"
  shows "owned (st_PostComment grow inp s) \<and>
    fixture_of (st_PostComment grow inp s) = snd (demo_PostComment [] [] 0 inp (fixture_of s))"
proof -
  let ?cm = "posted inp (so_fields s)"
  have k: "k < length (cells s)" using assms(3) by (blast dest: cells_index)
  obtain sl hp where app: "go_append grow (so_heap s) (ce_Comments (cells s ! k)) [?cm] = (sl, hp)" by fastforce
  note self = go_append_self [OF app ownedD(4) [OF s k]]
  let ?c' = "(cells s ! k)\<lparr>ce_Comments := sl\<rparr>"
  let ?t = "s\<lparr>so_heap := hp, so_array := (so_array s)[k := ?c']\<rparr>"
  note s' = st_PostComment_reply [OF assms app]
  have set: "owned ?t \<and> map (load hp) (cells ?t) = (map (load (so_heap s)) (cells s))[k := load hp ?c']"
    by (rule set_cell [OF s k]) (use self go_append_other [OF app] in auto)
  have "snd (demo_PostComment [] [] 0 inp (fixture_of s)) =
      (fixture_of s)\<lparr>fx_seq := fx_seq (so_fields s) + 1,
        fx_threads := (map (load (so_heap s)) (cells s))[k := load hp ?c']\<rparr>"
    using assms(2,3) k self(1)
    by (subst demo_PostComment_reply [where us = "(map (load (so_heap s)) (cells s))[k := load hp ?c']"])
      (simp_all add: join_thread_index threads_index posted_fields load_comments [where hp' = "so_heap s"])
  then show ?thesis
    using set by (simp add: s' owned_def cells_def fixture_of_def)
qed

lemma post_new_implements:
  assumes s: "owned s"
    and new: "in_InReplyTo inp = [] \<or> in_InReplyTo inp \<notin> th_ThreadID ` set (fx_threads (fixture_of s))"
  shows "owned (st_PostComment grow inp s) \<and>
    fixture_of (st_PostComment grow inp s) = snd (demo_PostComment [] [] 0 inp (fixture_of s))"
proof -
  let ?cm = "posted inp (so_fields s)"
  have "in_InReplyTo inp = [] \<or>
      first_index (\<lambda>c. th_ThreadID (ce_Thread c) = in_InReplyTo inp) (cells s) = None"
    using new by (auto simp: first_index_None image_iff)
  note s' = st_PostComment_new [OF this, of grow]
  have "opened inp (fixture_of s) = (opened inp (so_fields s))\<lparr>th_Comments := [?cm]\<rparr>"
    by (simp add: opened_def posted_fields)
  then show ?thesis
    using new_cell [OF s _ s'] unfolding demo_PostComment_new [OF new]
    by (simp add: fixture_of_def)
qed

lemma post_implements: "implements (store_op grow (PostOp inp)) (value_op (PostOp inp))"
  unfolding implements_def
proof (intro allI impI)
  fix s
  assume s: "owned s"
  show "owned (store_op grow (PostOp inp) s) \<and>
      fixture_of (store_op grow (PostOp inp) s) = value_op (PostOp inp) (fixture_of s)"
  proof (cases "first_index (\<lambda>c. th_ThreadID (ce_Thread c) = in_InReplyTo inp) (cells s)")
    case None
    then have "in_InReplyTo inp \<notin> th_ThreadID ` set (fx_threads (fixture_of s))"
      by (auto simp: first_index_None image_image)
    then show ?thesis using post_new_implements [OF s] by simp
  next
    case (Some k)
    then show ?thesis
      using post_reply_implements [OF s] post_new_implements [OF s] by (cases "in_InReplyTo inp = []") simp_all
  qed
qed

text \<open>Of a thread some comment of which has the id, the first with the id.\<close>

lemma named_thread:
  assumes "owned s" and "first_index (names_comment i) (map (load (so_heap s)) (cells s)) = Some ti"
  obtains ci where "ti < length (cells s)"
    "first_index (\<lambda>cm. tc_NodeID cm = i) (elems (so_heap s) (ce_Comments (cells s ! ti))) = Some ci"
    "ci = 0 \<longleftrightarrow> tc_NodeID (hd (th_Comments (load (so_heap s) (cells s ! ti)))) = i"
proof -
  have ti: "ti < length (cells s)" "names_comment i (load (so_heap s) (cells s ! ti))"
    using first_index_Some [OF assms(2)] by auto
  let ?cs = "elems (so_heap s) (ce_Comments (cells s ! ti))"
  obtain ci where ci: "first_index (\<lambda>cm. tc_NodeID cm = i) ?cs = Some ci"
    using ti(2) first_index_None [of "\<lambda>cm. tc_NodeID cm = i" ?cs] by (auto simp: names_comment_def)
  moreover have "ci = 0 \<longleftrightarrow> tc_NodeID (hd ?cs) = i"
    using ci by (cases ?cs) (auto split: if_splits)
  ultimately show ?thesis using ti(1) that by simp
qed

lemma delete_reply_implements:
  assumes s: "owned s" and ti: "ti < length (cells s)"
    and ci: "first_index (\<lambda>cm. tc_NodeID cm = i) (elems (so_heap s) (ce_Comments (cells s ! ti))) = Some (Suc ci)"
    and app: "go_append grow (so_heap s) ((ce_Comments (cells s ! ti))\<lparr>sl_len := Suc ci\<rparr>)
      (drop (ci + 2) (elems (so_heap s) (ce_Comments (cells s ! ti)))) = (sl, hp)"
  defines "s' \<equiv> s\<lparr>so_heap := hp, so_array := (so_array s)[ti := (cells s ! ti)\<lparr>ce_Comments := sl\<rparr>]\<rparr>"
  shows "owned s' \<and> map (load hp) (cells s') = (map (load (so_heap s)) (cells s))
    [ti := (load (so_heap s) (cells s ! ti))\<lparr>th_Comments :=
      drop_comment i (elems (so_heap s) (ce_Comments (cells s ! ti)))\<rparr>]"
proof -
  let ?sl = "ce_Comments (cells s ! ti)"
  let ?cs = "elems (so_heap s) ?sl"
  have w: "within_array (so_heap s) ?sl" by (rule ownedD(4) [OF s ti])
  have len: "Suc ci < length ?cs" using first_index_Some [OF ci] by blast
  then have less: "Suc ci < sl_len ?sl" by (simp add: elems_def)
  then have w': "within_array (so_heap s) (?sl\<lparr>sl_len := Suc ci\<rparr>)" using w by (simp add: within_array_def)
  note self = go_append_self [OF app w']
  have "elems hp sl = take (Suc ci) ?cs @ drop (ci + 2) ?cs"
    using self(1) less by (simp add: elems_def min_def)
  also have "\<dots> = drop_comment i ?cs" by (simp add: drop_comment_index ci)
  finally have "load hp ((cells s ! ti)\<lparr>ce_Comments := sl\<rparr>) =
      (load (so_heap s) (cells s ! ti))\<lparr>th_Comments := drop_comment i ?cs\<rparr>"
    by (simp add: load_def)
  moreover have "owned s' \<and> map (load hp) (cells s') =
      (map (load (so_heap s)) (cells s))[ti := load hp ((cells s ! ti)\<lparr>ce_Comments := sl\<rparr>)]"
    unfolding s'_def by (rule set_cell [OF s ti]) (use self go_append_other [OF app] in auto)
  ultimately show ?thesis by simp
qed

lemma delete_implements: "implements (store_op grow (DeleteOp i)) (value_op (DeleteOp i))"
  unfolding implements_def
proof (intro allI impI)
  fix s
  assume s: "owned s"
  note names = names_comment_def [abs_def]
  show "owned (store_op grow (DeleteOp i) s) \<and>
      fixture_of (store_op grow (DeleteOp i) s) = value_op (DeleteOp i) (fixture_of s)"
  proof (cases "first_index (names_comment i) (map (load (so_heap s)) (cells s))")
    case None
    with s show ?thesis
      by (simp add: st_DeleteComment_def demo_DeleteComment_def delete_comment_index fixture_of_def)
        (simp add: threads_index names)
  next
    case (Some ti)
    then obtain ci where ti: "ti < length (cells s)"
      and ci: "first_index (\<lambda>cm. tc_NodeID cm = i) (elems (so_heap s) (ce_Comments (cells s ! ti))) = Some ci"
        "ci = 0 \<longleftrightarrow> tc_NodeID (hd (th_Comments (load (so_heap s) (cells s ! ti)))) = i"
      by (rule named_thread [OF s])
    from Some have named: "first_index (\<lambda>c. \<exists>cm \<in> set (elems (so_heap s) (ce_Comments c)). tc_NodeID cm = i)
        (cells s) = Some ti"
      by (simp add: threads_index names)
    show ?thesis
    proof (cases ci)
      case 0
      then have s': "st_DeleteComment grow i s = drop_cell ti s"
        using named ci ownedD(3) [OF s ti] by (simp add: st_DeleteComment_def)
      have "owned (drop_cell ti s)"
        by (rule owned_subseq [OF s]) (simp_all add: drop_cell_cells [OF s ti] subseq_skip)
      then show ?thesis
        using Some ci 0 ti
        by (simp add: s' demo_DeleteComment_def delete_comment_index fixture_of_def drop_cell_cells [OF s ti]
            take_map drop_map)
    next
      case (Suc j)
      obtain sl hp where app: "go_append grow (so_heap s) ((ce_Comments (cells s ! ti))\<lparr>sl_len := Suc j\<rparr>)
          (drop (j + 2) (elems (so_heap s) (ce_Comments (cells s ! ti)))) = (sl, hp)" by fastforce
      have s': "st_DeleteComment grow i s =
          s\<lparr>so_heap := hp, so_array := (so_array s)[ti := (cells s ! ti)\<lparr>ce_Comments := sl\<rparr>]\<rparr>"
        using named ci(1) Suc app ownedD(3) [OF s ti] by (simp add: st_DeleteComment_def)
      then show ?thesis
        using delete_reply_implements [OF s ti ci(1) [unfolded Suc] app] Some ci(2) Suc ti
        by (simp add: demo_DeleteComment_def delete_comment_index fixture_of_def)
    qed
  qed
qed

lemma op_implements: "implements (store_op grow op) (value_op op)"
  by (cases op) (simp_all only: start_implements submit_implements discard_implements post_implements
      delete_implements resolve_implements issue_implements viewed_implements)

lemma stored_implements:
  "owned s \<Longrightarrow> owned (stored grow ops s) \<and> fixture_of (stored grow ops s) = fold value_op ops (fixture_of s)"
  unfolding stored_def
  by (induction ops arbitrary: s) (use op_implements in \<open>auto simp: implements_def simp del: store_op.simps value_op.simps\<close>)

section \<open>What a result reads later\<close>

text \<open>The threads a result shows when its arrays hold what \<open>hp\<close> says.\<close>

definition view :: "heap \<Rightarrow> cell list \<Rightarrow> Thread list" where
  "view hp cs = map (load hp) cs"

lemma GetThreads_view:
  "Inr (view (so_heap s) (st_GetThreads s)) = fst (demo_GetThreads owner repo n (fixture_of s))"
  by (simp add: view_def st_GetThreads_def demo_GetThreads_def load_def with_newest_def)

text \<open>A slice handed out: no thread of the fixture that shares its array is shorter.\<close>

definition handed_out :: "store \<Rightarrow> slice \<Rightarrow> bool" where
  "handed_out s t \<longleftrightarrow> within_array (so_heap s) t \<and>
     (\<forall>c \<in> set (cells s). sl_arr (ce_Comments c) = sl_arr t \<longrightarrow> sl_len t \<le> sl_len (ce_Comments c))"

lemma GetThreads_handed_out:
  assumes "owned s" and "c \<in> set (st_GetThreads s)"
  shows "handed_out s (ce_Comments c)"
proof -
  obtain d where d: "d \<in> set (cells s)" "ce_Comments c = ce_Comments d"
    using assms(2) by (auto simp: st_GetThreads_def)
  moreover have "e = d" if "e \<in> set (cells s)" "sl_arr (ce_Comments e) = sl_arr (ce_Comments d)" for e
    using assms(1) that d(1) inj_onD [of "sl_arr \<circ> ce_Comments" "set (cells s)" e d]
    by (simp add: owned_def distinct_map)
  ultimately show ?thesis using assms(1) by (auto simp: handed_out_def owned_def)
qed

definition undisturbed :: "slice \<Rightarrow> store \<Rightarrow> store \<Rightarrow> bool" where
  "undisturbed t s s' \<longleftrightarrow> handed_out s' t \<and> elems (so_heap s') t = elems (so_heap s) t"

lemma undisturbed_same_heap:
  assumes "handed_out s t" and "so_heap s' = so_heap s"
    and "ce_Comments ` set (cells s') \<subseteq> ce_Comments ` set (cells s)"
  shows "undisturbed t s s'"
proof -
  have "\<exists>d \<in> set (cells s). ce_Comments d = ce_Comments c" if "c \<in> set (cells s')" for c
    using assms(3) that by force
  with assms(1,2) show ?thesis by (fastforce simp: undisturbed_def handed_out_def)
qed

lemma undisturbed_more:
  assumes t: "handed_out s t" and hp: "so_heap s' = so_heap s @ [arr]"
    and cs: "map ce_Comments (cells s') = map ce_Comments (cells s) @ [\<lparr>sl_arr = length (so_heap s), sl_len = n\<rparr>]"
  shows "undisturbed t s s'"
proof -
  have "ce_Comments ` set (cells s') = insert \<lparr>sl_arr = length (so_heap s), sl_len = n\<rparr> (ce_Comments ` set (cells s))"
    using arg_cong [OF cs, of set] by simp
  then have "sl_len t \<le> sl_len (ce_Comments c)" if "c \<in> set (cells s')" "sl_arr (ce_Comments c) = sl_arr t" for c
    using t that by (auto simp: handed_out_def within_array_def dest!: equalityD1 dest: subsetD)
  then show ?thesis
    using t within_array_more [of "so_heap s" t "[arr]"] by (simp add: undisturbed_def handed_out_def hp)
qed

lemma set_cell_comments:
  assumes "k < length (cells s)" and "ce_Comments c = ce_Comments (cells s ! k)"
  shows "ce_Comments ` set (cells (s\<lparr>so_array := (so_array s)[k := c]\<rparr>)) \<subseteq> ce_Comments ` set (cells s)"
proof -
  have "cells (s\<lparr>so_array := (so_array s)[k := c]\<rparr>) = (cells s)[k := c]"
    by (simp add: cells_def take_update_swap)
  with assms show ?thesis using set_update_subset_insert [of "cells s" k c] by auto
qed

lemma post_undisturbed:
  assumes s: "owned s" and t: "handed_out s t"
  shows "undisturbed t s (st_PostComment grow inp s)"
proof (cases "if in_InReplyTo inp = [] then None
    else first_index (\<lambda>c. th_ThreadID (ce_Thread c) = in_InReplyTo inp) (cells s)")
  case None
  then have "in_InReplyTo inp = [] \<or>
      first_index (\<lambda>c. th_ThreadID (ce_Thread c) = in_InReplyTo inp) (cells s) = None"
    by (simp split: if_splits)
  note s' = st_PostComment_new [OF this, of grow]
  have len: "so_len s \<le> length (so_array s)" using s by (simp add: owned_def)
  have "so_heap (st_PostComment grow inp s) = so_heap s @ [[posted inp (so_fields s)]]"
    "map ce_Comments (cells (st_PostComment grow inp s)) =
      map ce_Comments (cells s) @ [\<lparr>sl_arr = length (so_heap s), sl_len = 1\<rparr>]"
    unfolding s' using len by (simp_all add: add_cell_cells) (simp add: cells_def)
  then show ?thesis by (rule undisturbed_more [OF t])
next
  case (Some k)
  then have k: "k < length (cells s)" by (auto dest: cells_index split: if_splits)
  obtain sl hp where app: "go_append grow (so_heap s) (ce_Comments (cells s ! k)) [posted inp (so_fields s)] = (sl, hp)"
    by fastforce
  have s': "st_PostComment grow inp s =
      s\<lparr>so_heap := hp, so_array := (so_array s)[k := (cells s ! k)\<lparr>ce_Comments := sl\<rparr>],
        so_fields := (so_fields s)\<lparr>fx_seq := fx_seq (so_fields s) + 1\<rparr>\<rparr>"
    by (rule st_PostComment_reply [OF s _ _ app]) (use Some in \<open>auto split: if_splits\<close>)
  have cells: "cells (st_PostComment grow inp s) = (cells s)[k := (cells s ! k)\<lparr>ce_Comments := sl\<rparr>]"
    by (simp add: s' cells_def take_update_swap)
  have le: "sl_arr t = sl_arr (ce_Comments (cells s ! k)) \<Longrightarrow> sl_len t \<le> sl_len (ce_Comments (cells s ! k))"
    using t k by (auto simp: handed_out_def)
  have w: "within_array (so_heap s) t" using t by (simp add: handed_out_def)
  note self = go_append_self [OF app ownedD(4) [OF s k]] and other = go_append_other [OF app w le]
  have "sl_len t \<le> sl_len (ce_Comments c)"
    if "c \<in> set (cells (st_PostComment grow inp s))" "sl_arr (ce_Comments c) = sl_arr t" for c
  proof (cases "c \<in> set (cells s)")
    case True
    with t that(2) show ?thesis by (auto simp: handed_out_def)
  next
    case False
    with that have "c = (cells s ! k)\<lparr>ce_Comments := sl\<rparr>"
      using set_update_subset_insert [of "cells s" k] by (auto simp: cells)
    with that(2) self(3,4) le w show ?thesis by (auto simp: within_array_def)
  qed
  with other show ?thesis by (auto simp: undisturbed_def handed_out_def s')
qed

definition deletes :: "demo_op \<Rightarrow> bool" where
  "deletes op \<longleftrightarrow> (\<exists>i. op = DeleteOp i)"

lemma discard_cells:
  assumes "owned s"
  shows "cells (st_DiscardReview s) = filter (\<lambda>c. \<not> th_IsPending (ce_Thread c)) (cells s)"
    and "so_heap (st_DiscardReview s) = so_heap s"
  using assms keep_loop_keeps [of 0 0 "so_len s" "so_array s"]
  by (auto simp: st_DiscardReview_def cells_def owned_def split: prod.split)

lemma op_undisturbed:
  assumes s: "owned s" and t: "handed_out s t" and "\<not> deletes op"
  shows "undisturbed t s (store_op grow op s)"
proof (cases op)
  case StartOp
  then show ?thesis by (auto simp: st_StartReview_def cells_def intro: undisturbed_same_heap [OF t])
next
  case (IssueOp body)
  then show ?thesis by (auto simp: st_PostIssueComment_def cells_def intro: undisturbed_same_heap [OF t])
next
  case (ViewedOp path v)
  then show ?thesis by (auto simp: st_SetFileViewed_def cells_def intro: undisturbed_same_heap [OF t])
next
  case SubmitOp
  have "cells (st_SubmitReview s) = map publish (cells s)" "so_heap (st_SubmitReview s) = so_heap s"
    using s by (simp_all add: st_SubmitReview_def cells_def owned_def)
  then show ?thesis
    using SubmitOp by (auto simp: publish_def intro!: undisturbed_same_heap [OF t])
next
  case DiscardOp
  then show ?thesis by (auto simp: discard_cells [OF s] intro!: undisturbed_same_heap [OF t])
next
  case (PostOp inp)
  then show ?thesis using post_undisturbed [OF s t] by simp
next
  case (DeleteOp i)
  with assms(3) show ?thesis by (simp add: deletes_def)
next
  case (ResolveOp i v)
  show ?thesis
  proof (cases "first_index (\<lambda>c. th_ThreadID (ce_Thread c) = i) (cells s)")
    case None
    then show ?thesis
      using ResolveOp t by (simp add: st_ResolveThread_def undisturbed_def)
  next
    case (Some k)
    then have k: "k < length (cells s)" by (blast dest: cells_index)
    have "ce_Comments ` set (cells (st_ResolveThread i v s)) \<subseteq> ce_Comments ` set (cells s)"
      using Some set_cell_comments [OF k] ownedD(3) [OF s k] by (simp add: st_ResolveThread_def Let_def)
    moreover have "so_heap (st_ResolveThread i v s) = so_heap s"
      using Some by (simp add: st_ResolveThread_def Let_def)
    ultimately show ?thesis using ResolveOp by (simp add: undisturbed_same_heap [OF t])
  qed
qed

lemma stored_undisturbed:
  "owned s \<Longrightarrow> handed_out s t \<Longrightarrow> list_all (\<lambda>op. \<not> deletes op) ops \<Longrightarrow> undisturbed t s (stored grow ops s)"
  unfolding stored_def
proof (induction ops arbitrary: s)
  case Nil
  then show ?case by (simp add: undisturbed_def)
next
  case (Cons op ops)
  then have "undisturbed t s (store_op grow op s)" by (intro op_undisturbed) auto
  moreover have "owned (store_op grow op s)" using op_implements Cons.prems(1) by (auto simp: implements_def)
  ultimately show ?case using Cons.IH [of "store_op grow op s"] Cons.prems(3) by (simp add: undisturbed_def)
qed

lemma newStore_owned: "owned (newStore now)"
  by (simp add: newStore_def newFixture_def owned_def cells_def within_array_def Let_def)

lemma newStore_fixture: "fixture_of (newStore now) = newFixture now"
  by (simp add: newStore_def newFixture_def fixture_of_def cells_def load_def elems_def new_thread_def Let_def)

text \<open>C34: The demo's arrays carry out its values.  However \<open>append\<close> grows its arrays, after any sequence
  of the operations that change the fixture, from a fresh start, the store stands for the fixture of
  values after the same sequence, no two threads share an array, and \<open>get_threads\<close> reads what the
  fixture of values answers.  A result keeps reading so whatever operations follow, as long as none of
  them deletes a comment.\<close>

theorem demo_store_refines:
  assumes "list_all (\<lambda>op. \<not> deletes op) later"
  shows "let s = stored grow ops (newStore now); f = fold value_op ops (newFixture now);
      s' = stored grow later s; result = st_GetThreads s
    in owned s \<and> fixture_of s = f \<and> fixture_of s' = fold value_op later f \<and>
      Inr (view (so_heap s') result) = fst (demo_GetThreads owner repo n f)"
proof -
  let ?s = "stored grow ops (newStore now)"
  have s: "owned ?s" "fixture_of ?s = fold value_op ops (newFixture now)"
    using stored_implements [OF newStore_owned] by (simp_all add: newStore_fixture)
  have "elems (so_heap (stored grow later ?s)) (ce_Comments c) = elems (so_heap ?s) (ce_Comments c)"
    if "c \<in> set (st_GetThreads ?s)" for c
    using stored_undisturbed [OF s(1) GetThreads_handed_out [OF s(1) that] assms] by (simp add: undisturbed_def)
  then have "view (so_heap (stored grow later ?s)) (st_GetThreads ?s) = view (so_heap ?s) (st_GetThreads ?s)"
    by (simp add: view_def load_def)
  with s GetThreads_view [of ?s] stored_implements [OF s(1)] show ?thesis by (simp add: Let_def)
qed

definition reply :: "string \<Rightarrow> PostCommentInput" where
  "reply body =
     \<lparr>in_Path = [], in_Side = [], in_Line = 0, in_Body = body, in_StartSide = [], in_StartLine = 0,
      in_InReplyTo = ''PRRT_seed1'', in_ReviewID = []\<rparr>"

theorem demo_store_refines_witness:
  "let s = stored (\<lambda>n. 2 * n) [PostOp (reply ''a'')] (newStore 0);
     s' = stored (\<lambda>n. 2 * n) [PostOp (reply ''b''), ResolveOp ''PRRT_seed1'' True] s
   in Inr (view (so_heap s') (st_GetThreads s)) =
     fst (demo_GetThreads [] [] 0 (value_op (PostOp (reply ''a'')) (newFixture 0)))"
  using demo_store_refines [of "[PostOp (reply ''b''), ResolveOp ''PRRT_seed1'' True]" "\<lambda>n. 2 * n"
      "[PostOp (reply ''a'')]" 0 "[]" "[]" 0]
  by (simp add: Let_def deletes_def del: value_op.simps)

text \<open>
  A deletion does show.  When a reply is deleted while a result of \<open>get_threads\<close> waits to be written,
  the result lists the comments without the reply and the last of them twice.
\<close>

lemma in_place_shift:
  assumes "Suc ci < n" and "n \<le> length arr"
  shows "fits arr (Suc ci) (drop (ci + 2) (take n arr)) \<and>
    take n (in_place arr (Suc ci) (drop (ci + 2) (take n arr))) =
      take (Suc ci) (take n arr) @ drop (ci + 2) (take n arr) @ [last (take n arr)]"
proof -
  have "last (take n arr) = arr ! (n - 1)" using assms by (subst last_conv_nth) (auto simp: min_def)
  moreover have "take 1 (drop (n - 1) arr) = [arr ! (n - 1)]"
    using assms by (simp add: take_Suc_conv_app_nth)
  moreover have "Suc ci + length (drop (ci + 2) (take n arr)) = n - 1" using assms by (simp add: min_def)
  ultimately show ?thesis using assms by (auto simp: fits_def in_place_def min_def)
qed

lemma shared_result_shifts:
  assumes s: "owned s" and named: "first_index (names_comment i) (map (load (so_heap s)) (cells s)) = Some ti"
    and reply: "tc_NodeID (hd (elems (so_heap s) (ce_Comments (cells s ! ti)))) \<noteq> i"
  shows "elems (so_heap (st_DeleteComment grow i s)) (ce_Comments (cells s ! ti)) =
    (let cs = elems (so_heap s) (ce_Comments (cells s ! ti)) in drop_comment i cs @ [last cs])"
proof -
  let ?sl = "ce_Comments (cells s ! ti)" and ?arr = "so_heap s ! sl_arr (ce_Comments (cells s ! ti))"
  let ?cs = "elems (so_heap s) (ce_Comments (cells s ! ti))"
  obtain ci' where ti: "ti < length (cells s)" and ci': "first_index (\<lambda>cm. tc_NodeID cm = i) ?cs = Some ci'"
      "ci' \<noteq> 0"
    by (rule named_thread [OF s named]) (use reply in auto)
  then obtain ci where ci: "first_index (\<lambda>cm. tc_NodeID cm = i) ?cs = Some (Suc ci)" by (cases ci') auto
  have w: "sl_arr ?sl < length (so_heap s)" "sl_len ?sl \<le> length ?arr"
    using ownedD(4) [OF s ti] by (simp_all add: within_array_def)
  have "Suc ci < length ?cs" using first_index_Some [OF ci] by blast
  then have "Suc ci < sl_len ?sl" by (simp add: elems_def)
  note shift = in_place_shift [OF this w(2), folded elems_def]
  have "first_index (\<lambda>c. \<exists>cm \<in> set (elems (so_heap s) (ce_Comments c)). tc_NodeID cm = i) (cells s) = Some ti"
    using named by (simp add: threads_index names_comment_def [abs_def])
  then have "so_heap (st_DeleteComment grow i s) =
      (so_heap s)[sl_arr ?sl := in_place ?arr (Suc ci) (drop (ci + 2) ?cs)]"
    using ci shift ownedD(3) [OF s ti] by (simp add: st_DeleteComment_def go_append_def Let_def)
  then show ?thesis
    using shift w(1) ci by (simp add: elems_def [of "_[_ := _]"] drop_comment_index Let_def)
qed

end
