(* ===== verification/Review_Laws.thy ===== *)
theory Review_Laws
  imports Mutations Github_Server
begin

text \<open>
  What \<open>reviews.go\<close> and \<open>comments.go\<close> do to the reviews GitHub keeps: the viewer's one pending review of a
  pull request is started once and found again, and a comment goes to the thread, the draft or the
  page it belongs to.
\<close>

section \<open>The calls\<close>

text \<open>Each call as the server sees it, its variables in the order of their names.\<close>

definition lookup_call :: "client_cfg \<Rightarrow> string \<Rightarrow> string \<Rightarrow> int \<Rightarrow> http_request" where
  "lookup_call cfg owner repo n =
     post cfg startReviewLookupQuery
       [(''number'', json_int n), (''owner'', JStr owner), (''repo'', JStr repo)]"

definition add_review_call :: "client_cfg \<Rightarrow> string \<Rightarrow> http_request" where
  "add_review_call cfg prID = post cfg addReviewMutation [(''prId'', JStr prID)]"

definition range_part :: "PostCommentInput \<Rightarrow> (string \<times> json) list" where
  "range_part inp =
     (if in_StartLine inp = 0 then []
      else [(''startLine'', json_int (in_StartLine inp)),
        (''startSide'', JStr (if in_StartSide inp = [] then in_Side inp else in_StartSide inp))])"

definition reply_call :: "client_cfg \<Rightarrow> PostCommentInput \<Rightarrow> http_request" where
  "reply_call cfg inp =
     post cfg addThreadReplyMutation
       ([(''body'', JStr (in_Body inp))] @
        (if in_ReviewID inp = [] then [] else [(''reviewId'', JStr (in_ReviewID inp))]) @
        [(''threadId'', JStr (in_InReplyTo inp))])"

definition thread_call :: "client_cfg \<Rightarrow> PostCommentInput \<Rightarrow> string \<Rightarrow> http_request" where
  "thread_call cfg inp reviewID =
     post cfg addThreadMutation
       ([(''body'', JStr (in_Body inp)), (''line'', json_int (in_Line inp)), (''path'', JStr (in_Path inp)),
         (''reviewId'', JStr reviewID), (''side'', JStr (in_Side inp))] @ range_part inp)"

definition publish_call :: "client_cfg \<Rightarrow> PostCommentInput \<Rightarrow> string \<Rightarrow> http_request" where
  "publish_call cfg inp prID =
     post cfg publishCommentMutation
       [(''prId'', JStr prID),
        (''threads'', JArr [JObj
          ([(''body'', JStr (in_Body inp)), (''line'', json_int (in_Line inp)), (''path'', JStr (in_Path inp)),
            (''side'', JStr (in_Side inp))] @ range_part inp)])]"

lemmas call_defs = lookup_call_def add_review_call_def reply_call_def thread_call_def publish_call_def

section \<open>The server\<close>

text \<open>
  \<open>pending\<close> is the viewer's pending review of the pull request, of which there is at most one.  A lookup
  shows it and leaves it alone; starting a review makes it the one that is named in the answer.  Any
  call may fail or be refused at any time, and other calls may be answered with anything.
\<close>

definition review_data :: "string \<Rightarrow> string option \<Rightarrow> json" where
  "review_data prID p =
     JObj [(''repository'', JObj [(''pullRequest'', JObj
       [(''id'', JStr prID),
        (''reviews'', JObj [(''nodes'', JArr (case p of None \<Rightarrow> [] | Some i \<Rightarrow> [JObj [(''id'', JStr i)]]))])])])]"

definition created_data :: "string \<Rightarrow> json" where
  "created_data i = JObj [(''addPullRequestReview'', JObj [(''pullRequestReview'', JObj [(''id'', JStr i)])])]"

definition review_server ::
  "'w env \<Rightarrow> client_cfg \<Rightarrow> string \<Rightarrow> string \<Rightarrow> int \<Rightarrow> string \<Rightarrow> ('w \<Rightarrow> string option) \<Rightarrow> bool" where
  "review_server env cfg owner repo n prID pending \<longleftrightarrow>
     prID \<noteq> [] \<and> (\<forall>w. pending w \<noteq> Some []) \<and>
     (\<forall>w r w'. http_do env (lookup_call cfg owner repo n) w = (r, w') \<longrightarrow>
        pending w' = pending w \<and> (\<forall>resp. r = Inr resp \<longrightarrow> tells resp (review_data prID (pending w)))) \<and>
     (\<forall>w resp w'. http_do env (add_review_call cfg prID) w = (Inr resp, w') \<longrightarrow>
        (\<exists>i. i \<noteq> [] \<and> tells resp (created_data i) \<and>
          (has_data resp (created_data i) \<longrightarrow> pending w' = Some i)))"

lemma review_data_dec:
  "startReviewLookupGQL_dec (review_data prID p) zero_startReviewLookup =
    Some \<lparr>sl_ID = prID, sl_Reviews = (case p of None \<Rightarrow> [] | Some i \<Rightarrow> [i])\<rparr>"
  by (cases p) (simp_all add: review_data_def startReviewLookupGQL_dec_def dec_eval dec_slice_def
      zero_startReviewLookup_def)

lemma created_data_dec: "addReviewGQL_dec (created_data i) [] = Some i"
  by (simp add: created_data_def addReviewGQL_dec_def dec_eval)

text \<open>The requests the code builds are those calls.\<close>

lemmas sorted_vars =
  gql_request_post sort_keys_def pr_vars_def range_vars_def range_part_def Let_def

lemma lookup_request: "gql_request cfg startReviewLookupQuery (pr_vars owner repo n) = lookup_call cfg owner repo n"
  by (simp add: sorted_vars lookup_call_def)

lemma add_review_request: "gql_request cfg addReviewMutation [(''prId'', JStr prID)] = add_review_call cfg prID"
  by (simp add: sorted_vars add_review_call_def)




section \<open>The lookup\<close>

lemma lookup_finds:
  assumes srv: "review_server env cfg owner repo n prID pending"
    and cfg: "cf_tokenErr cfg = None" "url_err env (cf_gqlURL cfg) = None"
    and look: "prAndPendingReview env cfg owner repo n s = (r, s')"
  shows "cs_calls s' = cs_calls s @ [lookup_call cfg owner repo n]"
    and "pending (cs_net s') = pending (cs_net s)"
    and "r = Inr x \<Longrightarrow> x = (prID, case pending (cs_net s) of None \<Rightarrow> [] | Some i \<Rightarrow> i)"
    and "willing env cfg \<Longrightarrow> \<exists>x. r = Inr x"
proof -
  let ?dec = "startReviewLookupGQL_dec" and ?req = "lookup_call cfg owner repo n"
  obtain g s1 where g: "graphql env cfg ''startReviewLookupGQL'' startReviewLookupQuery (pr_vars owner repo n)
      ?dec zero_startReviewLookup s = (g, s1)" by fastforce
  have r: "s' = s1" "r = (case g of Inl e \<Rightarrow> Inl e
      | Inr look \<Rightarrow> if sl_ID look = [] then Inl (newError CodeNotFound ''pull request not found'')
          else Inr (sl_ID look, case sl_Reviews look of [] \<Rightarrow> [] | i # _ \<Rightarrow> i))"
    using look g by (auto simp: prAndPendingReview_def bindE_def failE_def retE_def split: sum.splits if_splits)
  have tells: "pending w' = pending w \<and> (\<forall>resp. a = Inr resp \<longrightarrow> tells resp (review_data prID (pending w)))"
    if "http_do env ?req w = (a, w')" for w a w'
    using srv that unfolding review_server_def by blast
  from graphql_calls [OF cfg g]
  show "cs_calls s' = cs_calls s @ [?req]" by (simp add: r lookup_request)
  show "pending (cs_net s') = pending (cs_net s)"
    using graphql_calls [OF cfg g] tells [of "cs_net s"]
    by (metis lookup_request prod.collapse r(1))
  have found: "look = \<lparr>sl_ID = prID, sl_Reviews = (case pending (cs_net s) of None \<Rightarrow> [] | Some i \<Rightarrow> [i])\<rparr>"
    if got: "g = Inr look" for look
  proof -
    obtain resp where "http_do env ?req (cs_net s) = (Inr resp, cs_net s1)"
      and dec: "\<And>D. tells resp D \<Longrightarrow> has_data resp D \<and> ?dec D zero_startReviewLookup = Some look"
      by (rule graphql_returns [OF g [unfolded got]]) (simp add: lookup_request)
    with tells have "tells resp (review_data prID (pending (cs_net s)))" by blast
    from dec [OF this] show ?thesis by (simp add: review_data_dec)
  qed
  have prID: "prID \<noteq> []" using srv by (simp add: review_server_def)
  show "r = Inr x \<Longrightarrow> x = (prID, case pending (cs_net s) of None \<Rightarrow> [] | Some i \<Rightarrow> i)"
    using found prID by (auto simp: r split: sum.splits if_splits option.splits)
  show "\<exists>x. r = Inr x" if "willing env cfg"
  proof -
    have "answers_data env ?req (cs_net s) (review_data prID (pending (cs_net s)))"
      by (rule willing_answers [OF that]) (use tells in blast)
    then obtain resp w where "http_do env ?req (cs_net s) = (Inr resp, w)"
      "has_data resp (review_data prID (pending (cs_net s)))"
      by (auto simp: answers_data_def)
    from graphql_answered [OF cfg, where q = startReviewLookupQuery and vars = "pr_vars owner repo n",
        unfolded lookup_request, OF this, of "''startReviewLookupGQL''" ?dec zero_startReviewLookup]
    have "\<exists>look. g = Inr look" by (simp add: g review_data_dec)
    with found prID show ?thesis by (auto simp: r)
  qed
qed

section \<open>Starting a review\<close>

lemma StartReview_starts:
  assumes srv: "review_server env cfg owner repo n prID pending"
    and start: "StartReview env cfg owner repo n s = (r, s')"
  shows "case r of
      Inl e \<Rightarrow> \<not> willing env cfg
    | Inr v \<Rightarrow>
        pending (cs_net s') = Some (sr_ReviewID v) \<and>
        (case pending (cs_net s) of
           Some i \<Rightarrow> sr_ReviewID v = i \<and> cs_calls s' = cs_calls s @ [lookup_call cfg owner repo n]
         | None \<Rightarrow>
             cs_calls s' = cs_calls s @ [lookup_call cfg owner repo n, add_review_call cfg prID])"
proof (cases "cf_tokenErr cfg = None \<and> url_err env (cf_gqlURL cfg) = None")
  case False
  then have "\<not> willing env cfg" and "\<exists>e. fst (StartReview env cfg owner repo n s) = Inl e"
    by (auto simp: willing_def StartReview_def prAndPendingReview_def bindE_def graphql_def graphql_data_def
        with_token_def NewRequest_def failE_def retE_def split: option.splits)
  with start show ?thesis by auto
next
  case True
  then have cfg: "cf_tokenErr cfg = None" "url_err env (cf_gqlURL cfg) = None" by simp_all
  obtain l s1 where l: "prAndPendingReview env cfg owner repo n s = (l, s1)" by fastforce
  note look = lookup_finds [OF srv cfg l]
  show ?thesis
  proof (cases l)
    case (Inl e)
    with look(4) start l show ?thesis by (auto simp: StartReview_def bindE_def)
  next
    case (Inr x)
    then have x: "x = (prID, case pending (cs_net s) of None \<Rightarrow> [] | Some i \<Rightarrow> i)" by (rule look(3))
    show ?thesis
    proof (cases "pending (cs_net s)")
      case (Some i)
      moreover from this have "i \<noteq> []" using srv by (auto simp: review_server_def)
      ultimately show ?thesis
        using start l Inr x look(1,2) by (auto simp: StartReview_def bindE_def retE_def)
    next
      case None
      obtain g s2 where g: "graphql env cfg ''addReviewGQL'' addReviewMutation [(''prId'', JStr prID)]
          addReviewGQL_dec [] s1 = (g, s2)" by fastforce
      have r: "s' = s2" "r = (case g of Inl e \<Rightarrow> Inl e
          | Inr i \<Rightarrow> if i = [] then Inl (newError CodeInternal ''github returned no review id'')
              else Inr \<lparr>sr_ReviewID = i\<rparr>)"
        using start l Inr x None g
        by (auto simp: StartReview_def bindE_def retE_def failE_def split: sum.splits if_splits)
      have adds: "\<exists>i. i \<noteq> [] \<and> tells resp (created_data i) \<and> (has_data resp (created_data i) \<longrightarrow> pending w' = Some i)"
        if "http_do env (add_review_call cfg prID) w = (Inr resp, w')" for w resp w'
        using srv that unfolding review_server_def by blast
      have calls: "cs_calls s' = cs_calls s @ [lookup_call cfg owner repo n, add_review_call cfg prID]"
        using graphql_calls [OF cfg g] look(1) by (simp add: r add_review_request)
      have created: "v \<noteq> [] \<and> pending (cs_net s2) = Some v" if got: "g = Inr v" for v
      proof -
        obtain resp where do: "http_do env (add_review_call cfg prID) (cs_net s1) = (Inr resp, cs_net s2)"
          and dec: "\<And>D. tells resp D \<Longrightarrow> has_data resp D \<and> addReviewGQL_dec D [] = Some v"
          by (rule graphql_returns [OF g [unfolded got]]) (simp add: add_review_request)
        from adds [OF do] obtain i where i: "i \<noteq> []" "tells resp (created_data i)"
          "has_data resp (created_data i) \<longrightarrow> pending (cs_net s2) = Some i" by blast
        with dec [OF i(2)] show ?thesis by (auto simp: created_data_dec)
      qed
      have "\<exists>v. r = Inr v" if "willing env cfg"
      proof -
        from that obtain resp w where do: "http_do env (add_review_call cfg prID) (cs_net s1) = (Inr resp, w)"
          and "whole resp" "\<not> has_errors resp"
          unfolding willing_def by blast
        with adds [OF do] obtain i where "i \<noteq> []" "has_data resp (created_data i)"
          by (auto simp: tells_def has_data_def whole_def)
        from graphql_answered [OF cfg, where q = addReviewMutation and vars = "[(''prId'', JStr prID)]",
            unfolded add_review_request, OF do this(2), of "''addReviewGQL''" addReviewGQL_dec "[]"] this(1)
        show ?thesis by (simp add: g r created_data_dec)
      qed
      with created calls None show ?thesis by (auto simp: r split: sum.splits)
    qed
  qed
qed

section \<open>Posting a comment\<close>













section \<open>Properties\<close>

text \<open>C28: Starting a review is idempotent.  Against a server that keeps the viewer's pending review, whatever
  else fails in between, a review that \<open>StartReview\<close> returns is the pending one from then on.  If there
  was one before, it is that one and the lookup is the only call; else the lookup and one mutation,
  for this pull request, are.  Starting again returns the same review, with the lookup alone.  Against
  a server that refuses nothing it does not fail.\<close>

theorem StartReview_idempotent:
  assumes "review_server env cfg owner repo n prID pending"
  shows "case StartReview env cfg owner repo n s of
      (Inl e, s') \<Rightarrow> \<not> willing env cfg
    | (Inr r, s') \<Rightarrow>
        pending (cs_net s') = Some (sr_ReviewID r) \<and>
        (case pending (cs_net s) of
           Some i \<Rightarrow> sr_ReviewID r = i \<and> cs_calls s' = cs_calls s @ [lookup_call cfg owner repo n]
         | None \<Rightarrow>
             cs_calls s' = cs_calls s @ [lookup_call cfg owner repo n, add_review_call cfg prID]) \<and>
        (case StartReview env cfg owner repo n s' of
           (Inl e, s'') \<Rightarrow> \<not> willing env cfg
         | (Inr r', s'') \<Rightarrow> r' = r \<and> pending (cs_net s'') = Some (sr_ReviewID r) \<and>
             cs_calls s'' = cs_calls s' @ [lookup_call cfg owner repo n])"
proof -
  obtain r s' where first: "StartReview env cfg owner repo n s = (r, s')" by fastforce
  obtain r' s'' where again: "StartReview env cfg owner repo n s' = (r', s'')" by fastforce
  from StartReview_starts [OF assms first] StartReview_starts [OF assms again] show ?thesis
    unfolding first
    by (cases r) (auto simp: again split: sum.splits option.splits)
qed

text \<open>A server with one pull request, whose world is whether the viewer has a pending review of it.\<close>

definition review_env :: "bool env" where
  "review_env =
     \<lparr>http_do = (\<lambda>req w.
        if req = add_review_call test_cfg ''P1'' then (Inr (ok_response (data_body (created_data ''R7''))), True)
        else (Inr (ok_response (data_body (review_data ''P1'' (if w then Some ''R7'' else None)))), w)),
      now_unix = (\<lambda>w. 0), url_err = (\<lambda>u. None), url_string = (\<lambda>u. u), json_err = (\<lambda>ty body. []),
      go_sched = (\<lambda>w. [])\<rparr>"

lemma scripted_reviews:
  "scripted (review_data ''P1'' None)" "scripted (review_data ''P1'' (Some ''R7''))" "scripted (created_data ''R7'')"
  by (simp_all add: review_data_def created_data_def scripted_eval)

lemma has_data_tells: "has_data resp d \<Longrightarrow> tells resp d"
  by (auto simp: has_data_def tells_def whole_def)

lemma has_data_no_errors: "has_data resp d \<Longrightarrow> whole resp \<and> \<not> has_errors resp"
  by (auto simp: has_data_def has_errors_def)

lemma post_same_doc:
  assumes "post cfg doc vars = post cfg doc' vars'"
    and "json_ok (JObj vars)" "json_depth (JObj vars) < max_nesting" "utf8_ok doc"
    and "json_ok (JObj vars')" "json_depth (JObj vars') < max_nesting" "utf8_ok doc'"
  shows "doc = doc'"
proof -
  let ?j = "\<lambda>doc vars. JObj [(''query'', JStr doc), (''variables'', JObj vars)]"
  have "utf8_ok ''query''" "utf8_ok ''variables''" by code_simp+
  then have ok: "json_ok (?j doc vars)" "json_depth (?j doc vars) \<le> max_nesting"
    "json_ok (?j doc' vars')" "json_depth (?j doc' vars') \<le> max_nesting"
    using assms(2-7) by auto
  have "json_text (?j doc vars) = json_text (?j doc' vars')"
    using assms(1) by (simp only: post_def http_request.ext_inject)
  with parse_text [OF ok(1,2)] parse_text [OF ok(3,4)] have "Some (?j doc vars) = Some (?j doc' vars')"
    by (simp only:)
  then show ?thesis by simp
qed

lemma lookup_not_add: "lookup_call cfg ''o'' ''r'' 1 \<noteq> add_review_call cfg ''P1''"
proof
  have "utf8_ok startReviewLookupQuery" "utf8_ok addReviewMutation"
    "utf8_ok ''number''" "utf8_ok ''owner''" "utf8_ok ''repo''" "utf8_ok ''o''" "utf8_ok ''r''" "utf8_ok ''prId''"
    "utf8_ok ''P1''" by code_simp+
  moreover have "num_ok (itoa 1)" by code_simp
  moreover assume "lookup_call cfg ''o'' ''r'' 1 = add_review_call cfg ''P1''"
  ultimately have "startReviewLookupQuery = addReviewMutation"
    unfolding lookup_call_def add_review_call_def
    by (elim post_same_doc) (simp_all add: json_int_def max_nesting_def)
  then have "declared startReviewLookupQuery = declared addReviewMutation" by simp
  then show False by simp
qed

lemma created_tells: "has_data resp (created_data i) \<Longrightarrow> has_data resp (created_data j) \<Longrightarrow> i = j"
  by (simp add: has_data_def created_data_def)

lemma review_env_server:
  "review_server review_env test_cfg ''o'' ''r'' 1 ''P1'' (\<lambda>w. if w then Some ''R7'' else None)"
  using has_data_body [OF scripted_reviews(1)] has_data_body [OF scripted_reviews(2)]
    has_data_body [OF scripted_reviews(3)] lookup_not_add [of test_cfg]
  by (auto simp: review_server_def review_env_def has_data_tells intro!: exI [of _ "''R7''"])

lemma review_env_willing: "willing review_env test_cfg"
  using has_data_no_errors [OF has_data_body [OF scripted_reviews(1)]]
    has_data_no_errors [OF has_data_body [OF scripted_reviews(2)]]
    has_data_no_errors [OF has_data_body [OF scripted_reviews(3)]]
  by (auto simp: willing_def review_env_def)

theorem StartReview_idempotent_witness:
  "\<exists>s' s''. StartReview review_env test_cfg ''o'' ''r'' 1 (snd (New ''token'' None False)) =
      (Inr \<lparr>sr_ReviewID = ''R7''\<rparr>, s') \<and>
    StartReview review_env test_cfg ''o'' ''r'' 1 s' = (Inr \<lparr>sr_ReviewID = ''R7''\<rparr>, s'') \<and>
    length (cs_calls s') = 2 \<and> length (cs_calls s'') = 3"
proof -
  let ?s = "snd (New ''token'' None False)"
  have s: "cs_net ?s = False" "cs_calls ?s = []" by (simp_all add: New_def)
  obtain r s' where first: "StartReview review_env test_cfg ''o'' ''r'' 1 ?s = (r, s')" by fastforce
  obtain r' s'' where again: "StartReview review_env test_cfg ''o'' ''r'' 1 s' = (r', s'')" by fastforce
  from StartReview_idempotent [OF review_env_server, of ?s] review_env_willing obtain v where v: "r = Inr v"
      "(if cs_net s' then Some ''R7'' else None) = Some (sr_ReviewID v)" "length (cs_calls s') = 2"
    and "r' = Inr v" "cs_calls s'' = cs_calls s' @ [lookup_call test_cfg ''o'' ''r'' 1]"
    by (cases r; cases r') (auto simp: first again s)
  moreover from v(2) have "sr_ReviewID v = ''R7''" by (auto split: if_splits)
  then have "v = \<lparr>sr_ReviewID = ''R7''\<rparr>" by simp
  ultimately show ?thesis using first again by simp
qed









end
