(* ===== verification/Spec2Isabelle.thy ===== *)
theory Spec2Isabelle
  imports Wire Logx Stdout Secrecy Fixture_Store Review_Laws
begin

text \<open>
  The differ.nvim sidecar: the Go program that a Neovim frontend starts to talk to GitHub.  It reads
  requests, one JSON object to a line, on standard input and writes one response to a line on
  standard output.

  \<^bold>\<open>The parts, and how they meet.\<close>  \<open>src/cmd/differ-sidecar/main.go\<close> resolves a token, builds
  a GitHub client over it (\<open>internal/github\<close>), a registry of methods over the client
  (\<open>internal/handlers\<close>) and a server over the registry (\<open>internal/server\<close>).  The server's reader
  hands each frame to \<open>dispatch\<close>; \<open>hello\<close> runs in the reader, every other method in a goroutine of its
  own, and all responses pass through one bounded channel to the one writer.  A handler decodes and
  checks its parameters and calls the client; the client makes REST and GraphQL calls, keeps a blob
  cache and the viewer's login, and maps every failure to a closed set of codes
  (\<open>internal/protocol\<close>).  \<open>src/.demo/fake-sidecar\<close> is the same server and registry over an in-memory
  surface.

  \<^bold>\<open>The theories.\<close>
  \<^item> \<open>Prelude\<close>: computations that pass a state and may fail (\<open>sem\<close>, \<open>bindE\<close>, \<open>retE\<close>, \<open>failE\<close>), and
    what is said of them: \<open>keeps\<close> an invariant, \<open>errs_in\<close> a set of errors, \<open>emits\<close> calls that satisfy a
    predicate and are at most so many.  The collections \<open>keeps_intro\<close>, \<open>errs_intro\<close> carry such facts
    through a body.
  \<^item> \<open>Go_Strings\<close>, \<open>Go_Strconv\<close>, \<open>Json\<close>, \<open>Json_Text\<close>, \<open>Json_Roundtrip\<close>: the parts of Go's \<open>strings\<close>,
    \<open>strconv\<close>, \<open>net/url\<close> and \<open>encoding/json\<close> the program uses.  Strings are lists of bytes.  The last
    proves that the printer's text parses back.
  \<^item> \<open>Protocol\<close>: \<open>internal/protocol\<close>.  \<open>Results\<close>, \<open>Dtos\<close>, \<open>Queries\<close>: the shapes of \<open>results.go\<close> and
    \<open>dtos.go\<close>, and the documents of \<open>queries.go\<close> and \<open>mutations.go\<close> to the byte.
  \<^item> \<open>Api_Errors\<close>: \<open>errors.go\<close>.  \<open>Cache\<close>: \<open>cache.go\<close> with \<open>container/list\<close> as a list of addresses
    into a heap.  \<open>Transport\<close>: \<open>client.go\<close>, \<open>rest.go\<close>, \<open>graphql.go\<close>.  \<open>Reads\<close>: \<open>prs.go\<close>, \<open>files.go\<close>,
    \<open>threads.go\<close>, \<open>timeline.go\<close>, \<open>checks.go\<close>.  \<open>Mutations\<close>: \<open>reviews.go\<close>, \<open>comments.go\<close>, \<open>merge.go\<close>,
    \<open>state.go\<close>, \<open>viewed.go\<close>, and the resolve of \<open>threads.go\<close>.  \<open>Auth\<close>: \<open>auth.go\<close> and what \<open>main\<close> does
    with it.  \<open>Script_Server\<close>: a server that answers from a list, for the instances.  \<open>Github_Server\<close>: the
    requests as the server sees them and what its answers mean to the client, for the theorems that
    take a server as hypothesis.  \<open>Review_Laws\<close>: what starting a review and posting a comment do to the
    reviews such a server keeps.
  \<^item> \<open>Goroutine\<close>: programs that stop between any two of their actions on the shared state (\<open>prog\<close>),
    alone (\<open>exec\<close>) and among others: \<open>good\<close> (they keep an invariant the others keep too, and end in a
    result as described), \<open>within\<close> (a bound on their actions), \<open>twin\<close> (two of them that cannot be told
    apart).  \<open>Client_Go\<close>: each client method as such a program, and that it does alone what its
    namesake in \<open>Reads\<close> and \<open>Mutations\<close> does.  \<open>Client_Rely\<close>: that it keeps the client's invariant and
    ends in a closed error whatever the others do (locale \<open>cache_rely\<close>), within 200 actions.
  \<^item> \<open>Handlers\<close>: \<open>internal/handlers\<close>, the surface \<open>API\<close> as a record of operations, and the locales
    \<open>github_api\<close> and \<open>bounded_api\<close>: what handlers rely on of any such surface.  \<open>Handler_Laws\<close>: how
    methods end, which inputs reach the surface, and the check of the pinned head.
  \<^item> \<open>Frames\<close>: \<open>readFrame\<close> and \<open>discardFrame\<close> over a buffered reader.  \<open>Server\<close>: \<open>dispatch.go\<close>,
    \<open>Run\<close> as the step relation \<open>step\<close>, and \<open>main\<close>.  \<open>Server_Laws\<close>: what holds in every reachable state, over the
    locales \<open>service\<close>, \<open>request_runner\<close> (a response per request), \<open>sidecar_runner\<close> (handshake, codes,
    invariant of the shared state) and \<open>bounded_runner\<close>, interpreted on the program's registry.
    \<open>Server_Trace\<close>: what the log accounts for.  \<open>Wire\<close>: requests and
    responses as text.  \<open>Answers\<close>: the shape of an answer, and the version check.  \<open>File_Truth\<close>: the
    file versions on the wire are the files, whatever else is running.  \<open>Sequential\<close>: a request
    served alone is answered as the computations of \<open>Reads\<close> and \<open>Mutations\<close> say.  \<open>Stdout\<close>: \<open>Run\<close>
    with the encoder of its writer, over a standard output that may fail.  \<open>Secrecy\<close>: neither the output
    nor the log depends on the token; two runs are related step by step over \<open>twin_surfaces\<close> and
    \<open>twin_runners\<close>.
  \<^item> \<open>Fixture\<close>, \<open>Fixture_Laws\<close>: the demo's surface, its invariant, and the interpretation of the
    same contracts on it.  \<open>Fixture_Store\<close>: the same with Go's slices of shared arrays, which implement it.
    \<open>Logx\<close>: log levels and which lines a logger lets through.

  \<^bold>\<open>State and effects.\<close>  \<open>client_st\<close> is the mutable part of \<open>Client\<close>: the viewer, the cache, the world
  behind the network, the calls made and the lines logged of them.  \<open>env\<close> is what the program cannot
  decide: what a call returns, the clock, whether a URL parses and the text a parsed one prints as, the
  texts of library errors, and the schedule of the two fetches of \<open>GetFileVersions\<close>.  \<open>server\<close> is the state of \<open>Run\<close>: the frames to read, where
  the reader is, the requests in flight with what is left of their goroutines, the responses waiting
  for the channel, the channel, what is written, the client's state and the lines logged.  An action
  of a goroutine is one HTTP call, or one operation under the lock of the cache or of the viewer;
  between any two the other goroutines may run.

  \<^bold>\<open>Bounds.\<close>  Paged reads and cursor walks stop at a hundred pages, as in the code; the fuel of the
  model is that number.  The two fetches finish within six steps, which is the fuel of their loop.
  The reading loop terminates by the length of the input.  No client method takes more than 200
  actions, so no handler more than 201 and no request more than 203 with its two lines of the log;
  with the four steps of reading it, sending and writing its response, a run of the server over \<open>k\<close>
  frames ends within \<open>207 k + 3\<close> steps.  Integers are kept unbounded; those read from JSON are checked
  to be 64-bit where Go checks it.

  \<^bold>\<open>Not modelled.\<close>  Times, durations and stacks in the log, and the text \<open>slog\<close> renders its lines to.
  Signals, contexts and timeouts: what they cause in a call is one of the failures \<open>http_do\<close> and the
  run of \<open>gh\<close> may return anyway; \<open>Run\<close> does not look at them.  The end of the process by \<open>SIGPIPE\<close>, which
  Go makes of a write to a standard output nobody reads.
  The HTTP library (an argument of the definitions), its redirects and its reuse of connections.
  The Lua frontend is another program.
\<close>

section \<open>A session\<close>

text \<open>C1: From bytes to bytes.  The program is started with any environment and fed any input.  When
  \<open>Run\<close> has returned, standard output is a sequence of lines, each the text of a response, and each
  ended by its line feed.  There is one for every non-empty line of the input, with the id of the
  request in it or 0.  Each carries a result or an error but not both, every error with a code of
  the closed set; and those before the first greeting are errors.\<close>

theorem session:
  assumes "steps (run (main_registry env ae w je)) (sidecar_main ae w input) n st"
    and "sv_pc st = Returned"
  shows "\<exists>rs. split_on nl (stdout st) = map (\<lambda>r. json_text (response_json result_json r)) rs @ [[]] \<and>
    mset (map rs_ID rs) = mset (map answer_id (filter (\<lambda>l. l \<noteq> []) (split_on nl (rd_rest input)))) \<and>
    (\<forall>r \<in> set rs. proper r) \<and> after_hello is_hello_result False rs"
proof (intro exI conjI)
  show "split_on nl (stdout st) = map (\<lambda>r. json_text (response_json result_json r)) (sv_written st) @ [[]]"
    by (rule stdout_lines)
  show "mset (map rs_ID (sv_written st)) =
      mset (map answer_id (filter (\<lambda>l. l \<noteq> []) (split_on nl (rd_rest input))))"
    using registry_runner.answered_once [OF assms [unfolded sidecar_main_def]]
    by (simp add: Run_frames_def read_events_segments frame_ids_segments del: mset_map)
  show "\<forall>r \<in> set (sv_written st). proper r"
    using sidecar.steps_sound [OF startup_inv assms(1) [unfolded sidecar_main_def]] by (simp add: responses_def)
  show "after_hello is_hello_result False (sv_written st)"
    using sidecar.steps_gate [OF assms(1) [unfolded sidecar_main_def]] by (simp add: gate_def Let_def)
qed

theorem session_witness:
  "\<exists>n st rs. steps (run (main_registry script_env test_auth two_answers (\<lambda>_ _. [])))
       (sidecar_main test_auth two_answers two_lines) n st \<and> sv_pc st = Returned \<and>
     split_on nl (stdout st) = map (\<lambda>r. json_text (response_json result_json r)) rs @ [[]] \<and>
     mset (map rs_ID rs) = {#0, 7#}"
proof -
  obtain n st where run: "steps (run (main_registry script_env test_auth two_answers (\<lambda>_ _. [])))
      (sidecar_main test_auth two_answers two_lines) n st" "sv_pc st = Returned"
    using sidecar_bound.run_completes [of script_env test_auth two_answers "\<lambda>_ _. []"]
    unfolding sidecar_main_def by blast
  from session [OF run] obtain rs
    where "split_on nl (stdout st) = map (\<lambda>r. json_text (response_json result_json r)) rs @ [[]]"
      and "mset (map rs_ID rs) = mset (map answer_id (filter (\<lambda>l. l \<noteq> []) (split_on nl (rd_rest two_lines))))"
    by blast
  then have "mset (map rs_ID rs) = {#0, 7#}" by (simp add: two_lines_ids del: mset_map)
  with run \<open>split_on nl (stdout st) = _\<close> show ?thesis by blast
qed

end
